(* ===== verification/Seth_Prelude.thy ===== *)
theory Seth_Prelude
  imports Complex_Main "HOL-Library.AList" "HOL-Library.Multiset"
begin

text \<open>
  Shared vocabulary of the development: the pieces of the Go language and of its standard
  library that the sources under \<^verbatim>\<open>src/\<close> use everywhere.
  \<^item> machine integers: \<open>int64\<close> and \<open>uint64\<close> are the wrap-around conversions; a Go
    \<open>int64\<close>, \<open>int\<close> or \<open>uint64\<close> variable is an \<open>int\<close> in range, a \<open>*big.Int\<close> is an \<open>int\<close>;
  \<^item> strings: byte strings, with the functions of package \<open>strings\<close> (letters are ASCII);
  \<^item> errors: one datatype of error values with their text and the \<open>errors.Is\<close> test;
  \<^item> panics: \<open>'a go\<close> for functions that can panic or block forever;
  \<^item> maps that the code ranges over: association lists, whose order stands for the
    iteration order the runtime picks; every theorem holds for all orders.
\<close>

named_theorems go_int \<open>wrap-around conversions on values in range\<close>
named_theorems go_str \<open>string functions\<close>
named_theorems go_err \<open>error values\<close>

subsection \<open>Machine integers\<close>

definition max_int64 :: int where
  "max_int64 = 2 ^ 63 - 1"

definition int64 :: "int \<Rightarrow> int" where
  "int64 x = (x + 2 ^ 63) mod 2 ^ 64 - 2 ^ 63"

definition uint64 :: "int \<Rightarrow> int" where
  "uint64 x = x mod 2 ^ 64"

lemma int64_id [go_int]: "- (2 ^ 63) \<le> x \<Longrightarrow> x < 2 ^ 63 \<Longrightarrow> int64 x = x"
  by (simp add: int64_def)

lemma uint64_id [go_int]: "0 \<le> x \<Longrightarrow> x < 2 ^ 64 \<Longrightarrow> uint64 x = x"
  by (simp add: uint64_def)

lemma int64_range: "- (2 ^ 63) \<le> int64 x \<and> int64 x < 2 ^ 63"
proof -
  have "0 \<le> (x + 2 ^ 63) mod 2 ^ 64 \<and> (x + 2 ^ 63) mod 2 ^ 64 < (2 ^ 64 :: int)"
    by simp
  then show ?thesis by (simp add: int64_def)
qed

lemma uint64_range: "0 \<le> uint64 x \<and> uint64 x < 2 ^ 64"
  by (simp add: uint64_def)

lemma uint64_int64 [simp]: "uint64 (int64 x) = uint64 x"
  by (simp add: int64_def uint64_def mod_diff_left_eq)

lemma int64_idem [simp]: "int64 (int64 x) = int64 x"
  using int64_range [of x] by (intro int64_id) auto

lemma uint64_diff_zero: "uint64 (a - b) = 0 \<longleftrightarrow> uint64 a = uint64 b"
  by (simp add: uint64_def mod_eq_dvd_iff dvd_eq_mod_eq_0)

text \<open>Division of a \<open>big.Int\<close>: \<open>Quo\<close> truncates towards zero, \<open>Div\<close> is Euclidean; both panic on 0.\<close>

definition quo :: "int \<Rightarrow> int \<Rightarrow> int" where
  "quo a b = sgn a * sgn b * (\<bar>a\<bar> div \<bar>b\<bar>)"

definition ediv :: "int \<Rightarrow> int \<Rightarrow> int" where
  "ediv a b = (if 0 \<le> b then a div b else - (a div (- b)))"

subsection \<open>Panics and calls that never return\<close>

text \<open>
  A call returns, panics, or blocks forever (on a wait group or a channel nobody serves); the last two end the
  caller in the same way.
\<close>

datatype 'a go = Ret 'a | Panic string | Hangs

fun go_bind :: "'a go \<Rightarrow> ('a \<Rightarrow> 'b go) \<Rightarrow> 'b go" where
  "go_bind (Ret x) f = f x"
| "go_bind (Panic m) f = Panic m"
| "go_bind Hangs f = Hangs"

lemma go_bind_Ret_iff: "go_bind m f = Ret y \<longleftrightarrow> (\<exists>x. m = Ret x \<and> f x = Ret y)"
  by (cases m) auto

lemma go_bind_Hangs_iff: "go_bind m f = Hangs \<longleftrightarrow> m = Hangs \<or> (\<exists>x. m = Ret x \<and> f x = Hangs)"
  by (cases m) auto

lemma go_bind_assoc: "go_bind (go_bind m f) g = go_bind m (\<lambda>x. go_bind (f x) g)"
  by (cases m) auto

lemma go_bind_Ret_right [simp]: "go_bind m Ret = m"
  by (cases m) auto

text \<open>Indexing and slicing check their bounds.\<close>

definition go_index :: "'a list \<Rightarrow> int \<Rightarrow> 'a go" where
  "go_index xs i = (if 0 \<le> i \<and> i < int (length xs) then Ret (xs ! nat i)
     else Panic ''index out of range'')"

definition go_slice :: "'a list \<Rightarrow> int \<Rightarrow> int \<Rightarrow> 'a list go" where
  "go_slice xs a b = (if 0 \<le> a \<and> a \<le> b \<and> b \<le> int (length xs)
     then Ret (drop (nat a) (take (nat b) xs)) else Panic ''slice bounds out of range'')"

lemma go_bounds_no_hang [simp]: "go_index xs i \<noteq> Hangs" "go_slice xs a b \<noteq> Hangs"
  by (simp_all add: go_index_def go_slice_def)

lemma go_index_nat [simp]: "i < length xs \<Longrightarrow> go_index xs (int i) = Ret (xs ! i)"
  by (simp add: go_index_def)

lemma go_slice_full: "a \<le> length xs \<Longrightarrow> go_slice xs (int a) (int (length xs)) = Ret (drop a xs)"
  by (simp add: go_slice_def)

lemma go_slice_length: "go_slice xs a b = Ret ys \<Longrightarrow> int (length ys) = b - a"
  by (auto simp: go_slice_def split: if_splits)

subsection \<open>Package strings\<close>

definition lower_char :: "char \<Rightarrow> char" where
  "lower_char c = (let n = (of_char c :: nat) in if 65 \<le> n \<and> n \<le> 90 then char_of (n + 32) else c)"

definition upper_char :: "char \<Rightarrow> char" where
  "upper_char c = (let n = (of_char c :: nat) in if 97 \<le> n \<and> n \<le> 122 then char_of (n - 32) else c)"

definition ToLower :: "string \<Rightarrow> string" where
  "ToLower s = map lower_char s"

definition ToUpper :: "string \<Rightarrow> string" where
  "ToUpper s = map upper_char s"

definition EqualFold :: "string \<Rightarrow> string \<Rightarrow> bool" where
  "EqualFold s t \<longleftrightarrow> ToLower s = ToLower t"

definition HasPrefix :: "string \<Rightarrow> string \<Rightarrow> bool" where
  "HasPrefix s p \<longleftrightarrow> take (length p) s = p"

definition HasSuffix :: "string \<Rightarrow> string \<Rightarrow> bool" where
  "HasSuffix s p \<longleftrightarrow> length p \<le> length s \<and> drop (length s - length p) s = p"

definition TrimPrefix :: "string \<Rightarrow> string \<Rightarrow> string" where
  "TrimPrefix s p = (if HasPrefix s p then drop (length p) s else s)"

definition TrimSuffix :: "string \<Rightarrow> string \<Rightarrow> string" where
  "TrimSuffix s p = (if HasSuffix s p then take (length s - length p) s else s)"

fun Contains :: "string \<Rightarrow> string \<Rightarrow> bool" where
  "Contains [] p = (p = [])"
| "Contains (c # s) p = (HasPrefix (c # s) p \<or> Contains s p)"

fun Join :: "string list \<Rightarrow> string \<Rightarrow> string" where
  "Join [] sep = []"
| "Join [s] sep = s"
| "Join (s # t # ts) sep = s @ sep @ Join (t # ts) sep"

text \<open>The line break as a string, and \<open>strconv.Itoa\<close>.\<close>

definition newline :: string where
  "newline = [char_of (10 :: nat)]"

text \<open>Decimal digits of a non-negative number.\<close>

function digits :: "int \<Rightarrow> string" where
  "digits n = (if n < 10 then [char_of (48 + n)] else digits (n div 10) @ [char_of (48 + n mod 10)])"
  by pat_completeness auto
termination
  by (relation "measure nat") auto

declare digits.simps [simp del]

definition Itoa :: "int \<Rightarrow> string" where
  "Itoa i = (if i < 0 then ''-'' @ digits (- i) else digits i)"

lemma digits_nonempty [simp]: "digits n \<noteq> []"
  by (subst digits.simps) simp

lemma lower_char_idem [simp]: "lower_char (lower_char c) = lower_char c"
proof (cases "65 \<le> (of_char c :: nat) \<and> (of_char c :: nat) \<le> 90")
  case True
  then have "of_char (char_of (of_char c + 32 :: nat)) = (of_char c + 32 :: nat)"
    by (simp add: of_char_of)
  with True show ?thesis by (simp add: lower_char_def)
next
  case False
  then have "lower_char c = c" by (auto simp: lower_char_def Let_def)
  then show ?thesis by simp
qed

lemma ToLower_idem [simp, go_str]: "ToLower (ToLower s) = ToLower s"
  by (simp add: ToLower_def)

lemma ToLower_Nil [simp]: "ToLower [] = []" and ToLower_eq_Nil [simp]: "ToLower s = [] \<longleftrightarrow> s = []"
  by (simp_all add: ToLower_def)

lemma length_ToLower [simp]: "length (ToLower s) = length s"
  by (simp add: ToLower_def)

lemma HasSuffix_append [simp, go_str]: "HasSuffix (s @ p) p"
  by (simp add: HasSuffix_def)

lemma HasSuffixE: "HasSuffix s p \<Longrightarrow> \<exists>t. s = t @ p"
  by (metis HasSuffix_def append_take_drop_id)

lemma HasSuffix_iff: "HasSuffix s p \<longleftrightarrow> (\<exists>t. s = t @ p)"
  using HasSuffixE by auto

lemma TrimSuffix_append [simp, go_str]: "TrimSuffix (s @ p) p = s"
  by (simp add: TrimSuffix_def)

lemma TrimSuffix_id [simp, go_str]: "\<not> HasSuffix s p \<Longrightarrow> TrimSuffix s p = s"
  by (simp add: TrimSuffix_def)

lemma HasPrefix_append [simp, go_str]: "HasPrefix (p @ s) p"
  by (simp add: HasPrefix_def)

lemma HasPrefixE: "HasPrefix s p \<Longrightarrow> \<exists>t. s = p @ t"
  by (metis HasPrefix_def append_take_drop_id)

lemma Contains_iff: "Contains s p \<longleftrightarrow> (\<exists>a b. s = a @ p @ b)"
proof (induction s)
  case Nil
  then show ?case by auto
next
  case (Cons c s)
  show ?case
  proof
    assume "Contains (c # s) p"
    then show "\<exists>a b. c # s = a @ p @ b"
      using Cons by (auto dest!: HasPrefixE intro: exI [of _ "[]"]) (metis append_Cons)
  next
    assume "\<exists>a b. c # s = a @ p @ b"
    then obtain a b where ab: "c # s = a @ p @ b" by blast
    show "Contains (c # s) p"
    proof (cases a)
      case Nil
      with ab show ?thesis by (metis Contains.simps(2) HasPrefix_append append_Nil)
    next
      case (Cons x a')
      with ab have "s = a' @ p @ b" by simp
      with Cons.IH show ?thesis by auto
    qed
  qed
qed

lemma Contains_append [simp, go_str]: "Contains (a @ p @ b) p"
  by (auto simp: Contains_iff)

lemma Contains_prefix [simp, go_str]: "Contains (p @ b) p"
  using Contains_append [of "[]" p b] by simp

lemma Contains_self [simp, go_str]: "Contains p p"
  by (metis Contains_append append.right_neutral append_Nil)

lemma Contains_appendR: "Contains s p \<Longrightarrow> Contains (t @ s) p"
  by (auto simp: Contains_iff) (metis append.assoc)

lemma Contains_appendL: "Contains s p \<Longrightarrow> Contains (s @ t) p"
  by (auto simp: Contains_iff) (metis append.assoc)

subsection \<open>Errors\<close>

text \<open>
  The error values the code builds and tests. \<open>ErrNew\<close> is \<open>errors.New\<close> or \<open>fmt.Errorf\<close>
  without \<open>%w\<close>; \<open>ErrWrap\<close> is \<open>errors.Wrap\<close>, whose text is the message, a colon and the
  cause; \<open>ErrData\<close> is an error that implements \<open>rpc.DataError\<close>, with its data: none, a string or
  something else; \<open>ErrLib\<close> is an error of a library's own type, with its text and the errors it
  collects; \<open>ErrJoin\<close> is \<open>errors.Join\<close>.
\<close>

datatype err_data = NoData | StringData string | OtherData

datatype goerr =
    ErrNew string
  | ErrWrap string goerr
  | ErrDeadlineExceeded
  | ErrNotFound
  | ErrData string err_data
  | ErrLib string "goerr list"
  | ErrJoin "goerr list"

type_synonym 'a res = "goerr + 'a"

fun errorText :: "goerr \<Rightarrow> string" where
  "errorText (ErrNew m) = m"
| "errorText (ErrWrap m e) = m @ '': '' @ errorText e"
| "errorText ErrDeadlineExceeded = ''context deadline exceeded''"
| "errorText ErrNotFound = ''not found''"
| "errorText (ErrData m d) = m"
| "errorText (ErrLib m es) = m"
| "errorText (ErrJoin es) = Join (map errorText es) newline"

text \<open>\<open>errors.Is(err, context.DeadlineExceeded)\<close> and \<open>errors.Is(err, ethereum.NotFound)\<close>.\<close>

fun isDeadlineExceeded :: "goerr \<Rightarrow> bool" where
  "isDeadlineExceeded ErrDeadlineExceeded = True"
| "isDeadlineExceeded (ErrWrap m e) = isDeadlineExceeded e"
| "isDeadlineExceeded (ErrJoin es) = list_ex isDeadlineExceeded es"
| "isDeadlineExceeded _ = False"

fun isNotFound :: "goerr \<Rightarrow> bool" where
  "isNotFound ErrNotFound = True"
| "isNotFound (ErrWrap m e) = isNotFound e"
| "isNotFound (ErrJoin es) = list_ex isNotFound es"
| "isNotFound _ = False"

fun res_bind :: "'a res \<Rightarrow> ('a \<Rightarrow> 'b res) \<Rightarrow> 'b res" where
  "res_bind (Inl e) f = Inl e"
| "res_bind (Inr x) f = f x"

lemma res_bind_Inr_iff: "res_bind m f = Inr y \<longleftrightarrow> (\<exists>x. m = Inr x \<and> f x = Inr y)"
  by (cases m) auto

lemma res_bind_Inl_iff: "res_bind m f = Inl e \<longleftrightarrow> m = Inl e \<or> (\<exists>x. m = Inr x \<and> f x = Inl e)"
  by (cases m) auto

text \<open>A written form that reads back, for the values it can hold; then different values have different written forms.\<close>

locale codec =
  fixes enc :: "'a \<Rightarrow> 'b" and dec :: "'b \<Rightarrow> 'a res" and valid :: "'a \<Rightarrow> bool"
  assumes dec_enc: "valid x \<Longrightarrow> dec (enc x) = Inr x"
begin

lemma enc_inj: "valid x \<Longrightarrow> valid y \<Longrightarrow> enc x = enc y \<longleftrightarrow> x = y"
  by (metis dec_enc sum.inject(2))

end

text \<open>What a case distinction gives, without the negated equations of the splitting rules.\<close>

lemma case_sum_eq: "(case x of Inl e \<Rightarrow> f e | Inr y \<Rightarrow> g y) = z \<longleftrightarrow> (\<exists>e. x = Inl e \<and> f e = z) \<or> (\<exists>y. x = Inr y \<and> g y = z)"
  by (cases x) auto

lemma case_option_eq: "(case x of None \<Rightarrow> a | Some y \<Rightarrow> g y) = z \<longleftrightarrow> x = None \<and> a = z \<or> (\<exists>y. x = Some y \<and> g y = z)"
  by (cases x) auto

lemma errorText_ErrWrap_Contains [go_err]: "Contains (errorText (ErrWrap m e)) m"
  using Contains_appendL [OF Contains_self] by simp

subsection \<open>Maps in iteration order\<close>

text \<open>\<open>m[k] = v\<close> and \<open>delete(m, k)\<close> on a map in iteration order.\<close>

type_synonym ('k, 'v) gomap = "('k \<times> 'v) list"

abbreviation gomap_put :: "'k \<Rightarrow> 'v \<Rightarrow> ('k, 'v) gomap \<Rightarrow> ('k, 'v) gomap" where
  "gomap_put \<equiv> AList.update"

abbreviation gomap_del :: "'k \<Rightarrow> ('k, 'v) gomap \<Rightarrow> ('k, 'v) gomap" where
  "gomap_del \<equiv> AList.delete"

abbreviation gomap_wf :: "('k, 'v) gomap \<Rightarrow> bool" where
  "gomap_wf m \<equiv> distinct (map fst m)"

lemma gomap_put_wf [simp]: "gomap_wf m \<Longrightarrow> gomap_wf (gomap_put k v m)"
  by (rule distinct_update)

lemma gomap_del_wf [simp]: "gomap_wf m \<Longrightarrow> gomap_wf (gomap_del k m)"
  by (rule distinct_delete)

lemma length_gomap_put:
  "length (gomap_put k v m) = (if k \<in> fst ` set m then length m else Suc (length m))"
  by (induction m) auto

lemma gomap_del_notin [simp]: "k \<notin> fst ` set m \<Longrightarrow> gomap_del k m = m"
  by (induction m) auto

lemma length_gomap_del:
  "gomap_wf m \<Longrightarrow> length (gomap_del k m) = (if k \<in> fst ` set m then length m - 1 else length m)"
proof (induction m)
  case Nil
  then show ?case by simp
next
  case (Cons p m)
  have "0 < length m" if "k \<in> fst ` set m"
    using that by (cases m) auto
  with Cons show ?case by auto
qed

lemma map_of_gomap_perm:
  assumes "gomap_wf m" and "mset m = mset m'"
  shows "map_of m' = map_of m"
proof -
  have "mset (map fst m) = mset (map fst m')"
    using assms(2) by (metis mset_map)
  then have "gomap_wf m'"
    using assms(1) mset_eq_imp_distinct_iff by blast
  moreover have "set m' = set m"
    using assms(2) by (metis set_mset_mset)
  ultimately show ?thesis
    using assms(1) map_of_inject_set by blast
qed

end
