(* ===== verification/Header_Cache.thy ===== *)
theory Header_Cache
  imports Seth_Prelude
begin

text \<open>
  The least-frequently-used block header cache of \<^verbatim>\<open>src/header_cache.go\<close>: its state
  \<open>LFUHeaderCache\<close>, the operations \<open>Get\<close>, \<open>Set\<close> and \<open>evict\<close>, and the interface \<open>block_cache\<close>
  that the congestion metric of \<^verbatim>\<open>src/gas_adjuster.go\<close> relies on. The mutex makes each
  operation atomic, so an operation is one state transformer. The Go map is an association
  list in iteration order.
\<close>

record Header =
  hNumber :: int
  hGasUsed :: int
  hGasLimit :: int

record cacheItem =
  header :: Header
  frequency :: int

record LFUHeaderCache =
  capacity :: int
  cache :: "(int, cacheItem) gomap"

definition NewLFUBlockCache :: "int \<Rightarrow> LFUHeaderCache" where
  "NewLFUBlockCache cap = \<lparr>capacity = cap, cache = []\<rparr>"

definition LFU_Get :: "LFUHeaderCache \<Rightarrow> int \<Rightarrow> LFUHeaderCache \<times> Header option" where
  "LFU_Get c blockNumber =
     (case map_of (cache c) blockNumber of
        Some item \<Rightarrow>
          (c\<lparr>cache := gomap_put blockNumber (item\<lparr>frequency := int64 (frequency item + 1)\<rparr>) (cache c)\<rparr>,
           Some (header item))
      | None \<Rightarrow> (c, None))"

text \<open>The loop of \<open>evict\<close>: least frequency so far, key to evict, its block number.\<close>

fun evict_scan :: "(int, cacheItem) gomap \<Rightarrow> int \<Rightarrow> int \<Rightarrow> int \<Rightarrow> int" where
  "evict_scan [] leastFreq evictKey oldestBlockNumber = evictKey"
| "evict_scan ((key, item) # rest) leastFreq evictKey oldestBlockNumber =
     (if frequency item < leastFreq
      then evict_scan rest (frequency item) key (uint64 (hNumber (header item)))
      else if frequency item = leastFreq \<and> uint64 (hNumber (header item)) < oldestBlockNumber
      then evict_scan rest leastFreq key (uint64 (hNumber (header item)))
      else evict_scan rest leastFreq evictKey oldestBlockNumber)"

definition evict :: "LFUHeaderCache \<Rightarrow> LFUHeaderCache" where
  "evict c = c\<lparr>cache := gomap_del (evict_scan (cache c) max_int64 0 (2 ^ 64 - 1)) (cache c)\<rparr>"

definition LFU_Set :: "LFUHeaderCache \<Rightarrow> Header option \<Rightarrow> LFUHeaderCache \<times> goerr option" where
  "LFU_Set c hdr =
     (case hdr of
        None \<Rightarrow> (c, Some (ErrNew ''header is nil''))
      | Some h \<Rightarrow>
          (let n = int64 (hNumber h) in
           case map_of (cache c) n of
             Some oldHeader \<Rightarrow>
               (c\<lparr>cache := gomap_put n \<lparr>header = h, frequency = int64 (frequency oldHeader + 1)\<rparr> (cache c)\<rparr>,
                None)
           | None \<Rightarrow>
               (let c' = (if capacity c \<le> uint64 (int (length (cache c))) then evict c else c)
                in (c'\<lparr>cache := gomap_put n \<lparr>header = h, frequency = 1\<rparr> (cache c')\<rparr>, None))))"

subsection \<open>What is cached, and the interface a reader relies on\<close>

definition cached :: "LFUHeaderCache \<Rightarrow> int \<Rightarrow> Header option" where
  "cached c n = map_option header (map_of (cache c) n)"

abbreviation LFU_put :: "LFUHeaderCache \<Rightarrow> Header \<Rightarrow> LFUHeaderCache" where
  "LFU_put c h \<equiv> fst (LFU_Set c (Some h))"

locale block_cache =
  fixes get :: "'c \<Rightarrow> int \<Rightarrow> 'c \<times> 'h option"
    and put :: "'c \<Rightarrow> 'h \<Rightarrow> 'c"
    and contents :: "'c \<Rightarrow> int \<Rightarrow> 'h option"
    and num :: "'h \<Rightarrow> int"
  assumes get_result: "snd (get c n) = contents c n"
    and get_contents: "contents (fst (get c n)) = contents c"
    and put_same: "contents (put c h) (num h) = Some h"
    and put_other: "n \<noteq> num h \<Longrightarrow> contents (put c h) n = contents c n \<or> contents (put c h) n = None"
begin

text \<open>A cache that agrees with the chain returns the chain's headers and keeps agreeing.\<close>

lemma hit_sound: "contents c \<subseteq>\<^sub>m chain \<Longrightarrow> snd (get c n) = Some h \<Longrightarrow> chain n = Some h"
  by (metis get_result map_le_def domI)

lemma get_agrees: "contents c \<subseteq>\<^sub>m chain \<Longrightarrow> contents (fst (get c n)) \<subseteq>\<^sub>m chain"
  by (simp add: get_contents)

lemma put_agrees:
  assumes "contents c \<subseteq>\<^sub>m chain" and "chain (num h) = Some h"
  shows "contents (put c h) \<subseteq>\<^sub>m chain"
  unfolding map_le_def
proof
  fix n assume n: "n \<in> dom (contents (put c h))"
  show "contents (put c h) n = chain n"
  proof (cases "n = num h")
    case True
    then show ?thesis by (simp add: put_same assms(2))
  next
    case False
    with n put_other [of n h c] have "contents (put c h) n = contents c n" and "n \<in> dom (contents c)"
      by auto
    with assms(1) show ?thesis by (simp add: map_le_def)
  qed
qed

lemma put_then_get: "snd (get (put c h) (num h)) = Some h"
  by (simp add: get_result put_same)

end

lemma map_of_evict: "map_of (cache (evict c)) n = None \<or> map_of (cache (evict c)) n = map_of (cache c) n"
  by (auto simp: evict_def delete_conv')

interpretation lfu: block_cache LFU_Get LFU_put cached "\<lambda>h. int64 (hNumber h)"
proof unfold_locales
  fix c n
  show "snd (LFU_Get c n) = cached c n"
    by (simp add: LFU_Get_def cached_def split: option.splits)
  show "cached (fst (LFU_Get c n)) = cached c"
    by (auto simp: fun_eq_iff LFU_Get_def cached_def update_conv' split: option.splits)
next
  fix c and h :: Header
  show "cached (LFU_put c h) (int64 (hNumber h)) = Some h"
    by (simp add: LFU_Set_def cached_def update_conv' Let_def split: option.splits)
next
  fix n c and h :: Header
  assume n: "n \<noteq> int64 (hNumber h)"
  show "cached (LFU_put c h) n = cached c n \<or> cached (LFU_put c h) n = None"
    using n map_of_evict [of c n]
    by (auto simp: LFU_Set_def cached_def update_conv' Let_def split: option.splits)
qed

subsection \<open>Eviction picks the least frequently used, then the oldest\<close>

definition evicts_before :: "cacheItem \<Rightarrow> int \<Rightarrow> int \<Rightarrow> bool" where
  "evicts_before i f b \<longleftrightarrow> frequency i < f \<or> (frequency i = f \<and> uint64 (hNumber (header i)) < b)"

abbreviation item_before :: "cacheItem \<Rightarrow> cacheItem \<Rightarrow> bool" where
  "item_before i j \<equiv> evicts_before i (frequency j) (uint64 (hNumber (header j)))"

lemma evicts_before_trans:
  "evicts_before i (frequency j) (uint64 (hNumber (header j))) \<Longrightarrow> evicts_before j f b \<Longrightarrow> evicts_before i f b"
  by (auto simp: evicts_before_def)

lemma evict_scan_least:
  "(evict_scan m f k b = k \<and> (\<forall>(k', i) \<in> set m. \<not> evicts_before i f b)) \<or>
   (\<exists>i. (evict_scan m f k b, i) \<in> set m \<and> evicts_before i f b \<and>
        (\<forall>(k', i') \<in> set m. \<not> item_before i' i))"
proof (induction m arbitrary: f k b)
  case Nil
  then show ?case by simp
next
  case (Cons p m)
  obtain key item where p: "p = (key, item)" by (cases p)
  let ?b = "uint64 (hNumber (header item))"
  show ?case
  proof (cases "evicts_before item f b")
    case True
    then have eq: "evict_scan (p # m) f k b = evict_scan m (frequency item) key ?b"
      by (auto simp: p evicts_before_def)
    have irr: "\<not> item_before item item" by (simp add: evicts_before_def)
    from Cons.IH [of "frequency item" key ?b] show ?thesis
    proof (elim disjE conjE exE)
      assume "evict_scan m (frequency item) key ?b = key"
        and "\<forall>(k', i) \<in> set m. \<not> item_before i item"
      then show ?thesis unfolding eq
        by (intro disjI2 exI [of _ item]) (simp add: p True irr)
    next
      fix i assume i: "(evict_scan m (frequency item) key ?b, i) \<in> set m" "item_before i item"
        "\<forall>(k', i') \<in> set m. \<not> item_before i' i"
      from i(2) True have "evicts_before i f b" by (rule evicts_before_trans)
      moreover from i(2) have "\<not> item_before item i" by (auto simp: evicts_before_def)
      ultimately show ?thesis unfolding eq
        by (intro disjI2 exI [of _ i]) (simp add: p i)
    qed
  next
    case False
    then have eq: "evict_scan (p # m) f k b = evict_scan m f k b"
      by (auto simp: p evicts_before_def)
    from Cons.IH [of f k b] show ?thesis
    proof (elim disjE conjE exE)
      assume "evict_scan m f k b = k" and "\<forall>(k', i) \<in> set m. \<not> evicts_before i f b"
      then show ?thesis unfolding eq
        by (intro disjI1) (simp add: p False)
    next
      fix i assume i: "(evict_scan m f k b, i) \<in> set m" "evicts_before i f b"
        "\<forall>(k', i') \<in> set m. \<not> item_before i' i"
      from i(2) False have "\<not> item_before item i" by (auto simp: evicts_before_def)
      then show ?thesis unfolding eq
        by (intro disjI2 exI [of _ i]) (simp add: p i)
    qed
  qed
qed

subsection \<open>The invariant of a cache after some operations\<close>

text \<open>
  \<open>lfu_inv n c\<close>: after at most \<open>n\<close> operations, each block is stored once, under its own
  number, with a frequency between 1 and \<open>n\<close>, and the size is within the capacity (a cache
  of capacity 0 still holds the one header that was set last).
\<close>

definition lfu_inv :: "nat \<Rightarrow> LFUHeaderCache \<Rightarrow> bool" where
  "lfu_inv n c \<longleftrightarrow> gomap_wf (cache c) \<and> int (length (cache c)) \<le> max 1 (capacity c) \<and>
     (\<forall>(k, i) \<in> set (cache c). k = hNumber (header i) \<and> 0 \<le> k \<and> k < 2 ^ 63 \<and>
        1 \<le> frequency i \<and> frequency i \<le> int n)"

datatype cache_op = OpGet int | OpSet Header

fun cache_step :: "cache_op \<Rightarrow> LFUHeaderCache \<Rightarrow> LFUHeaderCache" where
  "cache_step (OpGet n) c = fst (LFU_Get c n)"
| "cache_step (OpSet h) c = LFU_put c h"

abbreviation cache_run :: "cache_op list \<Rightarrow> LFUHeaderCache \<Rightarrow> LFUHeaderCache" where
  "cache_run ops c \<equiv> fold cache_step ops c"

fun op_ok :: "cache_op \<Rightarrow> bool" where
  "op_ok (OpGet n) = True"
| "op_ok (OpSet h) = (0 \<le> hNumber h \<and> hNumber h < 2 ^ 63)"

lemma lfu_inv_new: "lfu_inv 0 (NewLFUBlockCache cap)"
  by (simp add: lfu_inv_def NewLFUBlockCache_def)

lemma lfu_inv_entry:
  "lfu_inv n c \<Longrightarrow> (k, i) \<in> set (cache c) \<Longrightarrow>
     k = hNumber (header i) \<and> 0 \<le> k \<and> k < 2 ^ 63 \<and> 1 \<le> frequency i \<and> frequency i \<le> int n"
  by (auto simp: lfu_inv_def)

lemma lfu_inv_mono: "lfu_inv n c \<Longrightarrow> n \<le> m \<Longrightarrow> lfu_inv m c"
  by (fastforce simp: lfu_inv_def)

lemma lfu_inv_lookup:
  "lfu_inv n c \<Longrightarrow> map_of (cache c) k = Some i \<Longrightarrow>
     k = hNumber (header i) \<and> 0 \<le> k \<and> k < 2 ^ 63 \<and> 1 \<le> frequency i \<and> frequency i \<le> int n"
  by (rule lfu_inv_entry) (auto dest: map_of_SomeD)

lemma set_gomap_put: "(k', v') \<in> set (gomap_put k v m) \<Longrightarrow> k' = k \<and> v' = v \<or> (k', v') \<in> set m"
  by (induction m) (auto split: if_splits)

lemma lfu_inv_put:
  assumes "lfu_inv n c" and "0 \<le> hNumber (header i)" and "hNumber (header i) < 2 ^ 63"
    and "1 \<le> frequency i" and "frequency i \<le> int n"
    and "int (length (gomap_put (hNumber (header i)) i (cache c))) \<le> max 1 (capacity c)"
  shows "lfu_inv n (c\<lparr>cache := gomap_put (hNumber (header i)) i (cache c)\<rparr>)"
  using assms by (auto simp: lfu_inv_def dest!: set_gomap_put)

lemma lfu_inv_evict:
  assumes inv: "lfu_inv n c" and n: "int n < max_int64"
  shows "lfu_inv n (evict c)"
    and "cache c \<noteq> [] \<Longrightarrow> length (cache (evict c)) = length (cache c) - 1"
proof -
  let ?k = "evict_scan (cache c) max_int64 0 (2 ^ 64 - 1)"
  have wf: "gomap_wf (cache c)" using inv by (simp add: lfu_inv_def)
  have sub: "set (gomap_del ?k (cache c)) \<subseteq> set (cache c)"
    by (auto simp: AList.delete_eq)
  show "lfu_inv n (evict c)"
    using inv sub wf length_gomap_del [OF wf, of ?k]
    by (auto simp: lfu_inv_def evict_def)
  have "\<forall>(k, i) \<in> set (cache c). evicts_before i max_int64 (2 ^ 64 - 1)"
    using inv n by (auto simp: evicts_before_def dest!: lfu_inv_entry [OF inv])
  moreover assume "cache c \<noteq> []"
  ultimately have "?k \<in> fst ` set (cache c)"
    using evict_scan_least [of "cache c" max_int64 0 "2 ^ 64 - 1"]
    by (cases "cache c") (auto intro: rev_image_eqI)
  then show "length (cache (evict c)) = length (cache c) - 1"
    by (simp add: evict_def length_gomap_del [OF wf])
qed

lemma evict_victim:
  assumes inv: "lfu_inv n c" and n: "int n < max_int64" and ne: "cache c \<noteq> []"
  shows "\<exists>i. (evict_scan (cache c) max_int64 0 (2 ^ 64 - 1), i) \<in> set (cache c) \<and>
           (\<forall>(k', i') \<in> set (cache c). \<not> item_before i' i)"
proof -
  have "\<forall>(k, i) \<in> set (cache c). evicts_before i max_int64 (2 ^ 64 - 1)"
    using inv n by (auto simp: evicts_before_def dest!: lfu_inv_entry [OF inv])
  then show ?thesis
    using ne evict_scan_least [of "cache c" max_int64 0 "2 ^ 64 - 1"]
    by (cases "cache c") auto
qed

lemma lfu_inv_Get:
  assumes inv: "lfu_inv n c" and n: "int n < max_int64"
  shows "lfu_inv (Suc n) (fst (LFU_Get c k))"
proof (cases "map_of (cache c) k")
  case None
  with inv show ?thesis by (simp add: LFU_Get_def lfu_inv_mono)
next
  case (Some i)
  let ?i = "i\<lparr>frequency := int64 (frequency i + 1)\<rparr>"
  have e: "k = hNumber (header i)" "0 \<le> k" "k < 2 ^ 63" "1 \<le> frequency i" "frequency i \<le> int n"
    using lfu_inv_lookup [OF inv Some] by auto
  then have f: "int64 (frequency i + 1) = frequency i + 1"
    using n by (simp add: int64_id max_int64_def)
  have "k \<in> fst ` set (cache c)"
    using Some by (metis domI dom_map_of_conv_image_fst)
  then have "int (length (gomap_put k ?i (cache c))) \<le> max 1 (capacity c)"
    using inv by (simp add: length_gomap_put lfu_inv_def)
  then have "lfu_inv (Suc n) (c\<lparr>cache := gomap_put (hNumber (header ?i)) ?i (cache c)\<rparr>)"
    using e f by (intro lfu_inv_put lfu_inv_mono [OF inv]) auto
  with Some e(1) show ?thesis by (simp add: LFU_Get_def)
qed

lemma lfu_inv_Set:
  assumes inv: "lfu_inv n c" and n: "int n < max_int64"
    and h: "0 \<le> hNumber h" "hNumber h < 2 ^ 63" and cap: "capacity c < 2 ^ 63"
  shows "lfu_inv (Suc n) (LFU_put c h)"
proof -
  have num: "int64 (hNumber h) = hNumber h" using h by (simp add: int64_id)
  have inv': "lfu_inv (Suc n) c" by (rule lfu_inv_mono [OF inv]) simp
  show ?thesis
  proof (cases "map_of (cache c) (hNumber h)")
    case (Some i)
    have e: "1 \<le> frequency i" "frequency i \<le> int n"
      using lfu_inv_lookup [OF inv Some] by auto
    then have f: "int64 (frequency i + 1) = frequency i + 1"
      using n by (simp add: int64_id max_int64_def)
    have "hNumber h \<in> fst ` set (cache c)"
      using Some by (metis domI dom_map_of_conv_image_fst)
    then have "int (length (gomap_put (hNumber h) j (cache c))) \<le> max 1 (capacity c)" for j
      using inv by (simp add: length_gomap_put lfu_inv_def)
    then show ?thesis
      using lfu_inv_put [OF inv', of "\<lparr>header = h, frequency = frequency i + 1\<rparr>"] h e Some num f
      by (simp add: LFU_Set_def Let_def)
  next
    case None
    then have new: "hNumber h \<notin> fst ` set (cache c)"
      by (metis domIff dom_map_of_conv_image_fst)
    let ?c = "if capacity c \<le> uint64 (int (length (cache c))) then evict c else c"
    have len: "uint64 (int (length (cache c))) = int (length (cache c))"
      using inv cap by (intro uint64_id) (auto simp: lfu_inv_def)
    have size: "int (length (cache ?c)) + 1 \<le> max 1 (capacity c)"
      using inv lfu_inv_evict [OF inv n] len
      by (cases "cache c") (auto simp: lfu_inv_def evict_def)
    have ci: "lfu_inv (Suc n) ?c" and cc: "capacity ?c = capacity c"
      using inv' lfu_inv_mono [OF lfu_inv_evict(1) [OF inv n]] by (auto simp: evict_def)
    have "int (length (gomap_put (hNumber h) j (cache ?c))) \<le> max 1 (capacity ?c)" for j
      using size cc by (auto simp: length_gomap_put)
    then have "lfu_inv (Suc n) (?c\<lparr>cache := gomap_put (hNumber h) \<lparr>header = h, frequency = 1\<rparr> (cache ?c)\<rparr>)"
      using lfu_inv_put [OF ci, of "\<lparr>header = h, frequency = 1\<rparr>"] h by simp
    with None num show ?thesis by (simp add: LFU_Set_def Let_def)
  qed
qed

lemma capacity_step [simp]: "capacity (cache_step op c) = capacity c"
  by (cases op) (auto simp: LFU_Get_def LFU_Set_def evict_def Let_def split: option.splits)

lemma capacity_run [simp]: "capacity (cache_run ops c) = capacity c"
  by (induction ops arbitrary: c) auto

lemma lfu_inv_step:
  "lfu_inv n c \<Longrightarrow> int n < max_int64 \<Longrightarrow> capacity c < 2 ^ 63 \<Longrightarrow> op_ok op \<Longrightarrow> lfu_inv (Suc n) (cache_step op c)"
  by (cases op) (auto intro: lfu_inv_Get lfu_inv_Set)

lemma lfu_inv_run:
  "lfu_inv n c \<Longrightarrow> int (n + length ops) \<le> max_int64 \<Longrightarrow> capacity c < 2 ^ 63 \<Longrightarrow> list_all op_ok ops \<Longrightarrow>
   lfu_inv (n + length ops) (cache_run ops c)"
proof (induction ops arbitrary: n c)
  case Nil
  then show ?case by simp
next
  case (Cons op ops)
  then have "lfu_inv (Suc n) (cache_step op c)" by (intro lfu_inv_step) auto
  with Cons have "lfu_inv (Suc n + length ops) (cache_run ops (cache_step op c))"
    by (intro Cons.IH) auto
  then show ?case by simp
qed

subsection \<open>Properties\<close>

lemma least_item_unique:
  assumes inv: "lfu_inv n c"
    and 1: "(k1, i1) \<in> set (cache c)" "\<forall>(k', i') \<in> set (cache c). \<not> item_before i' i1"
    and 2: "(k2, i2) \<in> set (cache c)" "\<forall>(k', i') \<in> set (cache c). \<not> item_before i' i2"
  shows "k1 = k2"
proof -
  from 1 2 have "\<not> item_before i2 i1" and "\<not> item_before i1 i2" by auto
  then have "uint64 (hNumber (header i1)) = uint64 (hNumber (header i2))"
    by (auto simp: evicts_before_def)
  moreover have "k1 = hNumber (header i1)" "0 \<le> k1" "k1 < 2 ^ 63"
    using lfu_inv_entry [OF inv 1(1)] by auto
  moreover have "k2 = hNumber (header i2)" "0 \<le> k2" "k2 < 2 ^ 63"
    using lfu_inv_entry [OF inv 2(1)] by auto
  ultimately show ?thesis by (simp add: uint64_id)
qed

lemma mset_gomap_del: "mset (gomap_del k m) = filter_mset (\<lambda>p. k \<noteq> fst p) (mset m)"
  by (simp add: AList.delete_eq case_prod_unfold)

text \<open>
  C5. In every run of \<open>Get\<close> and \<open>Set\<close> from an empty cache (fewer than \<open>2 ^ 63\<close> operations,
  headers with 63-bit block numbers) the cache never holds more headers than its capacity
  (one when the capacity is 0), stores each block once and under its own number, and counts
  every entry at least once.
\<close>

theorem lfu_run_invariant:
  assumes "list_all op_ok ops" and "cap < 2 ^ 63" and "int (length ops) \<le> max_int64"
  shows "lfu_inv (length ops) (cache_run ops (NewLFUBlockCache cap))"
  using lfu_inv_run [OF lfu_inv_new, of ops cap] assms by (simp add: NewLFUBlockCache_def)

theorem lfu_run_invariant_witness:
  "lfu_inv 4 (cache_run [OpSet \<lparr>hNumber = 7, hGasUsed = 1, hGasLimit = 2\<rparr>, OpGet 7,
     OpSet \<lparr>hNumber = 8, hGasUsed = 1, hGasLimit = 2\<rparr>,
     OpSet \<lparr>hNumber = 9, hGasUsed = 1, hGasLimit = 2\<rparr>] (NewLFUBlockCache 2))"
  using lfu_run_invariant [of "[OpSet \<lparr>hNumber = 7, hGasUsed = 1, hGasLimit = 2\<rparr>, OpGet 7,
     OpSet \<lparr>hNumber = 8, hGasUsed = 1, hGasLimit = 2\<rparr>,
     OpSet \<lparr>hNumber = 9, hGasUsed = 1, hGasLimit = 2\<rparr>]" 2]
  by (simp add: max_int64_def numeral_eq_Suc)


definition two_headers :: "LFUHeaderCache" where
  "two_headers = \<lparr>capacity = 2,
     cache = [(5, \<lparr>header = \<lparr>hNumber = 5, hGasUsed = 1, hGasLimit = 2\<rparr>, frequency = 1\<rparr>),
              (4, \<lparr>header = \<lparr>hNumber = 4, hGasUsed = 1, hGasLimit = 2\<rparr>, frequency = 1\<rparr>)]\<rparr>"


end
