(* ===== verification/Geth_Types.thy ===== *)
theory Geth_Types
  imports Seth_Prelude "HOL-Library.Word"
begin

text \<open>
  The data the code reads out of go-ethereum values: the public fields of \<open>abi.ABI\<close> and of
  its parts, byte strings, addresses and hashes. What go-ethereum computes from them
  (method lookup, unpacking, hex and signature functions) is code outside this repository
  and appears as a parameter of the definitions that call it. The encoding of package
  \<open>encoding/hex\<close> is the standard library's and is defined here.
\<close>

type_synonym byte = "8 word"
type_synonym address = "byte list"
type_synonym hash = "byte list"

text \<open>A value of Go's empty interface: a string the code stores itself, or a value made by the ABI decoder.\<close>

datatype goval = VString string | VAbi nat

record Argument =
  argName :: string
  argIndexed :: bool

record Method =
  mName :: string
  mSig :: string
  mID :: "byte list"
  mInputs :: "Argument list"
  mOutputs :: "Argument list"

record Event =
  evName :: string
  evSig :: string
  evID :: hash
  evInputs :: "Argument list"

record AbiError =
  aeID :: hash

record ABI =
  Events :: "(string, Event) gomap"
  Errors :: "(string, AbiError) gomap"

subsection \<open>encoding/hex\<close>

definition hex_digit :: "nat \<Rightarrow> char" where
  "hex_digit n = (if n < 10 then char_of (48 + n) else char_of (87 + n))"

definition hex_value :: "char \<Rightarrow> nat option" where
  "hex_value c = (let n = (of_char c :: nat) in
     if 48 \<le> n \<and> n \<le> 57 then Some (n - 48)
     else if 97 \<le> n \<and> n \<le> 102 then Some (n - 87)
     else if 65 \<le> n \<and> n \<le> 70 then Some (n - 55)
     else None)"

fun hex_EncodeToString :: "byte list \<Rightarrow> string" where
  "hex_EncodeToString [] = []"
| "hex_EncodeToString (b # bs) = hex_digit (unat b div 16) # hex_digit (unat b mod 16) # hex_EncodeToString bs"

fun hex_DecodeString :: "string \<Rightarrow> byte list res" where
  "hex_DecodeString [] = Inr []"
| "hex_DecodeString [c] = Inl (case hex_value c of
     None \<Rightarrow> ErrNew ''encoding/hex: invalid byte'' | Some v \<Rightarrow> ErrNew ''encoding/hex: odd length hex string'')"
| "hex_DecodeString (c # d # cs) =
     (case (hex_value c, hex_value d) of
        (Some h, Some l) \<Rightarrow> res_bind (hex_DecodeString cs) (\<lambda>bs. Inr (of_nat (16 * h + l) # bs))
      | _ \<Rightarrow> Inl (ErrNew ''encoding/hex: invalid byte''))"

lemma hex_value_digit [simp]: "n < 16 \<Longrightarrow> hex_value (hex_digit n) = Some n"
  by (auto simp: hex_value_def hex_digit_def of_char_of Let_def)

lemma hex_roundtrip [simp]: "hex_DecodeString (hex_EncodeToString bs) = Inr bs"
proof (induction bs)
  case Nil
  then show ?case by simp
next
  case (Cons b bs)
  have "unat b < 2 ^ LENGTH(8)" by (rule unsigned_less)
  then have "unat b div 16 < 16" by simp
  moreover have "16 * (unat b div 16) + unat b mod 16 = unat b" by simp
  moreover have "of_nat (unat b) = b" by simp
  ultimately show ?case using Cons by (simp del: of_nat_add of_nat_mult)
qed

interpretation hex_text: codec hex_EncodeToString hex_DecodeString "\<lambda>bs. True"
  by unfold_locales simp

lemma hex_value_bound: "hex_value c = Some v \<Longrightarrow> v < 16"
  by (auto simp: hex_value_def Let_def split: if_splits)

lemma hex_Decode_length: "hex_DecodeString s = Inr bs \<Longrightarrow> length s = 2 * length bs"
  by (induction s arbitrary: bs rule: hex_DecodeString.induct)
    (auto simp: res_bind_Inr_iff split: option.splits)

end
