(* ===== verification/Contract_Map.thy ===== *)
theory Contract_Map
  imports Geth_Types
begin

text \<open>
  The address book of \<^verbatim>\<open>src/contract_map.go\<close> (\<open>ContractMap\<close>, kept in memory and in a
  TOML file) and the store of ABIs and bytecode of \<^verbatim>\<open>src/contract_store.go\<close>
  (\<open>ContractStore\<close>). Both are name-to-value tables that normalise their keys; that shared
  contract is the locale \<open>named_store\<close>, interpreted three times below. Reading directories
  and files and parsing TOML and JSON are parameters.
\<close>

definition UNKNOWN :: string where
  "UNKNOWN = ''unknown''"

subsection \<open>ContractMap\<close>

record ContractMap =
  addressMap :: "(string, string) gomap"

definition NewEmptyContractMap :: ContractMap where
  "NewEmptyContractMap = \<lparr>addressMap = []\<rparr>"

definition NewContractMap :: "(string, string) gomap \<Rightarrow> ContractMap" where
  "NewContractMap contracts = \<lparr>addressMap = contracts\<rparr>"

definition GetContractMap :: "ContractMap \<Rightarrow> (string, string) gomap" where
  "GetContractMap c = addressMap c"

text \<open>A read of an absent key of a \<open>map[string]string\<close> gives the empty string.\<close>

definition get_string :: "(string, string) gomap \<Rightarrow> string \<Rightarrow> string" where
  "get_string m k = (case map_of m k of None \<Rightarrow> [] | Some v \<Rightarrow> v)"

definition IsKnownAddress :: "ContractMap \<Rightarrow> string \<Rightarrow> bool" where
  "IsKnownAddress c addr \<longleftrightarrow> get_string (addressMap c) (ToLower addr) \<noteq> []"

definition GetContractName :: "ContractMap \<Rightarrow> string \<Rightarrow> string" where
  "GetContractName c addr = get_string (addressMap c) (ToLower addr)"

definition GetContractAddress :: "ContractMap \<Rightarrow> string \<Rightarrow> string" where
  "GetContractAddress c addr =
     (if addr = UNKNOWN then UNKNOWN
      else case find (\<lambda>(k, v). v = addr) (addressMap c) of
             Some (k, v) \<Rightarrow> k
           | None \<Rightarrow> UNKNOWN)"

definition AddContract :: "ContractMap \<Rightarrow> string \<Rightarrow> string \<Rightarrow> ContractMap" where
  "AddContract c addr name =
     (if addr = UNKNOWN then c
      else c\<lparr>addressMap := gomap_put (ToLower addr) (TrimSuffix name ''.abi'') (addressMap c)\<rparr>)"

definition Size :: "ContractMap \<Rightarrow> nat" where
  "Size c = length (addressMap c)"

text \<open>
  The file of deployed contracts. \<open>readFile\<close>, \<open>tomlMarshal\<close> and \<open>tomlUnmarshal\<close> stand for the
  file system and the TOML library: a file is its text or absent, appending creates it.
\<close>

definition SaveDeployedContract ::
  "(string \<Rightarrow> string res) \<Rightarrow> ((string, string) gomap \<Rightarrow> string res) \<Rightarrow> string \<Rightarrow> string \<Rightarrow> string \<Rightarrow> string res" where
  "SaveDeployedContract openAppend tomlMarshal filename contractName addr =
     res_bind (openAppend filename) (\<lambda>old.
     res_bind (tomlMarshal [(addr, contractName)]) (\<lambda>marshalled.
       Inr (old @ marshalled)))"

definition LoadDeployedContracts ::
  "(string \<Rightarrow> string res) \<Rightarrow> (string \<Rightarrow> (address, string) gomap res) \<Rightarrow> (address \<Rightarrow> string) \<Rightarrow>
   string \<Rightarrow> (string, string) gomap res" where
  "LoadDeployedContracts openFile tomlUnmarshal Hex filename =
     (case openFile filename of
        Inl _ \<Rightarrow> Inr []
      | Inr b \<Rightarrow>
          (case tomlUnmarshal b of
             Inl err \<Rightarrow> Inl err
           | Inr rawContracts \<Rightarrow> Inr (fold (\<lambda>(k, v) contracts. gomap_put (Hex k) v contracts) rawContracts [])))"

subsection \<open>ContractStore\<close>

record ContractStore =
  ABIs :: "(string, ABI) gomap"
  BINs :: "(string, byte list) gomap"

definition abi_name :: "string \<Rightarrow> string" where
  "abi_name name = (if \<not> HasSuffix name ''.abi'' then name @ ''.abi'' else name)"

definition bin_name :: "string \<Rightarrow> string" where
  "bin_name name = (if \<not> HasSuffix name ''.bin'' then name @ ''.bin'' else name)"

definition GetABI :: "ContractStore \<Rightarrow> string \<Rightarrow> ABI option" where
  "GetABI c name = map_of (ABIs c) (abi_name name)"

definition AddABI :: "ContractStore \<Rightarrow> string \<Rightarrow> ABI \<Rightarrow> ContractStore" where
  "AddABI c name a = c\<lparr>ABIs := gomap_put (abi_name name) a (ABIs c)\<rparr>"

definition GetBIN :: "ContractStore \<Rightarrow> string \<Rightarrow> byte list option" where
  "GetBIN c name = map_of (BINs c) (bin_name name)"

definition AddBIN :: "ContractStore \<Rightarrow> string \<Rightarrow> byte list \<Rightarrow> ContractStore" where
  "AddBIN c name b = c\<lparr>BINs := gomap_put (bin_name name) b (BINs c)\<rparr>"

text \<open>
  \<open>NewContractStore\<close>: \<open>readDir\<close> lists a directory, \<open>loadABI\<close> opens and parses one ABI file
  (its error already carries the wrapping of the failed step), \<open>readBIN\<close> reads one file,
  \<open>fromHex\<close> is \<open>common.FromHex\<close>.
\<close>

definition ErrOpenABIFile :: string where "ErrOpenABIFile = ''failed to open ABI file''"
definition ErrParseABI :: string where "ErrParseABI = ''failed to parse ABI file''"
definition ErrOpenBINFile :: string where "ErrOpenBINFile = ''failed to open BIN file''"

fun load_abis :: "(string \<Rightarrow> string res) \<Rightarrow> (string \<Rightarrow> ABI res) \<Rightarrow> string list \<Rightarrow>
    (string, ABI) gomap \<Rightarrow> (string, ABI) gomap res" where
  "load_abis openFile abiJSON [] acc = Inr acc"
| "load_abis openFile abiJSON (f # files) acc =
     (if HasSuffix f ''.abi'' then
        (case openFile f of
           Inl err \<Rightarrow> Inl (ErrWrap ErrOpenABIFile err)
         | Inr ff \<Rightarrow>
             (case abiJSON ff of
                Inl err \<Rightarrow> Inl (ErrWrap ErrParseABI err)
              | Inr a \<Rightarrow> load_abis openFile abiJSON files (gomap_put f a acc)))
      else load_abis openFile abiJSON files acc)"

fun load_bins :: "(string \<Rightarrow> string res) \<Rightarrow> (string \<Rightarrow> byte list) \<Rightarrow> string list \<Rightarrow>
    (string, byte list) gomap \<Rightarrow> (string, byte list) gomap res" where
  "load_bins readFile fromHex [] acc = Inr acc"
| "load_bins readFile fromHex (f # files) acc =
     (if HasSuffix f ''.bin'' then
        (case readFile f of
           Inl err \<Rightarrow> Inl (ErrWrap ErrOpenBINFile err)
         | Inr b \<Rightarrow> load_bins readFile fromHex files (gomap_put f (fromHex b) acc))
      else load_bins readFile fromHex files acc)"

definition NewContractStore ::
  "(string \<Rightarrow> string list res) \<Rightarrow> (string \<Rightarrow> string \<Rightarrow> string res) \<Rightarrow> (string \<Rightarrow> ABI res) \<Rightarrow>
   (string \<Rightarrow> byte list) \<Rightarrow> string \<Rightarrow> string \<Rightarrow> ContractStore res" where
  "NewContractStore readDir openIn abiJSON fromHex abiPath binPath =
     res_bind (if abiPath \<noteq> [] then res_bind (readDir abiPath) (\<lambda>files. load_abis (openIn abiPath) abiJSON files [])
               else Inr []) (\<lambda>abis.
     res_bind (if binPath \<noteq> [] then res_bind (readDir binPath) (\<lambda>files. load_bins (openIn binPath) fromHex files [])
               else Inr []) (\<lambda>bins.
       Inr \<lparr>ABIs = abis, BINs = bins\<rparr>))"

subsection \<open>The contract of a table with normalised keys\<close>

locale named_store =
  fixes add :: "'s \<Rightarrow> string \<Rightarrow> 'v \<Rightarrow> 's"
    and lookup :: "'s \<Rightarrow> string \<Rightarrow> 'w option"
    and norm :: "string \<Rightarrow> string"
    and ok :: "string \<Rightarrow> bool"
    and enc :: "'v \<Rightarrow> 'w"
  assumes lookup_add_same: "ok n \<Longrightarrow> norm n = norm m \<Longrightarrow> lookup (add s n v) m = Some (enc v)"
    and lookup_add_other: "norm n \<noteq> norm m \<Longrightarrow> lookup (add s n v) m = lookup s m"
    and add_refused: "\<not> ok n \<Longrightarrow> add s n v = s"
begin

text \<open>After any sequence of additions a lookup returns the last value added under that key.\<close>

lemma lookup_history:
  "lookup (fold (\<lambda>(n, v) s. add s n v) xs s) m =
     (case find (\<lambda>(n, v). ok n \<and> norm n = norm m) (rev xs) of
        Some (n, v) \<Rightarrow> Some (enc v) | None \<Rightarrow> lookup s m)"
proof (induction xs rule: rev_induct)
  case Nil
  then show ?case by simp
next
  case (snoc x xs)
  obtain n v where x: "x = (n, v)" by (cases x)
  show ?case
  proof (cases "ok n \<and> norm n = norm m")
    case True
    then show ?thesis by (simp add: x lookup_add_same)
  next
    case False
    then show ?thesis using snoc
      by (auto simp: x lookup_add_other add_refused)
  qed
qed

lemma lookup_stable: "lookup s m = lookup s' m \<Longrightarrow> lookup (add s n v) m = lookup (add s' n v) m"
  by (cases "ok n"; cases "norm n = norm m") (simp_all add: lookup_add_same lookup_add_other add_refused)

end

interpretation abi_store: named_store AddABI GetABI abi_name "\<lambda>_. True" id
  by unfold_locales (auto simp: AddABI_def GetABI_def update_conv')

interpretation bin_store: named_store AddBIN GetBIN bin_name "\<lambda>_. True" id
  by unfold_locales (auto simp: AddBIN_def GetBIN_def update_conv')

abbreviation contract_at :: "ContractMap \<Rightarrow> string \<Rightarrow> string option" where
  "contract_at c addr \<equiv> map_of (addressMap c) (ToLower addr)"

interpretation contract_book: named_store AddContract contract_at ToLower
  "\<lambda>a. a \<noteq> UNKNOWN" "\<lambda>name. TrimSuffix name ''.abi''"
  by unfold_locales (auto simp: AddContract_def update_conv')

lemma GetContractName_at: "GetContractName c addr = (case contract_at c addr of None \<Rightarrow> [] | Some n \<Rightarrow> n)"
  by (simp add: GetContractName_def get_string_def)

lemma IsKnownAddress_iff: "IsKnownAddress c addr \<longleftrightarrow> GetContractName c addr \<noteq> []"
  by (simp add: IsKnownAddress_def GetContractName_def)

lemma GetContractName_AddContract:
  assumes "addr \<noteq> UNKNOWN"
  shows "GetContractName (AddContract c addr name) addr' =
    (if ToLower addr = ToLower addr' then TrimSuffix name ''.abi'' else GetContractName c addr')"
proof (cases "ToLower addr = ToLower addr'")
  case True
  with contract_book.lookup_add_same [of addr addr' c name] assms show ?thesis
    by (simp add: GetContractName_at)
next
  case False
  with contract_book.lookup_add_other [of addr addr' c name] show ?thesis
    by (simp add: GetContractName_at)
qed

lemma AddContract_UNKNOWN [simp]: "AddContract c UNKNOWN name = c"
  by (simp add: AddContract_def)

lemma abi_name_idem [simp]: "abi_name (abi_name n) = abi_name n"
  by (simp add: abi_name_def)

lemma abi_name_append [simp]: "abi_name (n @ ''.abi'') = n @ ''.abi''"
  using HasSuffix_append [of n "''.abi''"] by (simp add: abi_name_def del: HasSuffix_append)

lemma bin_name_append [simp]: "bin_name (n @ ''.bin'') = n @ ''.bin''"
  using HasSuffix_append [of n "''.bin''"] by (simp add: bin_name_def del: HasSuffix_append)

end
