(* ===== verification/ABI_Finder.thy ===== *)
theory ABI_Finder
  imports Contract_Map
begin

text \<open>
  The search for the ABI of a call, \<^verbatim>\<open>src/abi_finder.go\<close>. The finder shares the contract
  map with the client and the tracer, so \<open>FindABIByMethod\<close> takes the map and returns it
  updated. \<open>MethodById\<close> is go-ethereum's \<open>ABI.MethodById\<close>.
\<close>

type_synonym method_by_id = "ABI \<Rightarrow> byte list \<Rightarrow> Method res"

definition ErrNoABIMethod :: string where "ErrNoABIMethod = ''no ABI method found''"
definition ErrNoAbiFound :: string where "ErrNoAbiFound = ''no ABI found in Contract Store''"

record ABIFinderResult =
  resABI :: ABI
  resMethod :: Method
  DuplicateCount :: int
  contractName :: string

definition ContractName :: "ABIFinderResult \<Rightarrow> string" where
  "ContractName a = TrimSuffix (contractName a) ''.abi''"

definition has_method :: "method_by_id \<Rightarrow> byte list \<Rightarrow> ABI \<Rightarrow> bool" where
  "has_method MethodById signature a \<longleftrightarrow> (case MethodById a signature of Inl _ \<Rightarrow> False | Inr _ \<Rightarrow> True)"

definition getDuplicateCount :: "method_by_id \<Rightarrow> (string, ABI) gomap \<Rightarrow> byte list \<Rightarrow> int" where
  "getDuplicateCount MethodById abis signature =
     int (length (filter (\<lambda>(n, a). has_method MethodById signature a) abis)) - 1"

text \<open>Both loops over all ABIs stop at the first one that has the method.\<close>

fun first_match :: "method_by_id \<Rightarrow> byte list \<Rightarrow> (string, ABI) gomap \<Rightarrow> (string \<times> ABI \<times> Method) option" where
  "first_match MethodById signature [] = None"
| "first_match MethodById signature ((n, a) # rest) =
     (case MethodById a signature of
        Inr m \<Rightarrow> Some (n, a, m)
      | Inl _ \<Rightarrow> first_match MethodById signature rest)"

definition FindABIByMethod ::
  "method_by_id \<Rightarrow> (string, ABI) gomap \<Rightarrow> ContractMap \<Rightarrow> string \<Rightarrow> byte list \<Rightarrow> ContractMap \<times> ABIFinderResult res" where
  "FindABIByMethod MethodById abis cm addr signature =
     (if IsKnownAddress cm addr then
        (let name = GetContractName cm addr in
         case map_of abis (name @ ''.abi'') of
           None \<Rightarrow> (cm, Inl (ErrNew ErrNoAbiFound))
         | Some abiInstanceCandidate \<Rightarrow>
             (case MethodById abiInstanceCandidate signature of
                Inl err \<Rightarrow>
                  (case first_match MethodById signature abis of
                     Some (correctedContractName, correctedAbi, correctedMethod) \<Rightarrow>
                       (AddContract cm addr correctedContractName,
                        Inr \<lparr>resABI = correctedAbi, resMethod = correctedMethod,
                             DuplicateCount = getDuplicateCount MethodById abis signature,
                             contractName = correctedContractName\<rparr>)
                   | None \<Rightarrow> (cm, Inl err))
              | Inr methodCandidate \<Rightarrow>
                  (cm, Inr \<lparr>resABI = abiInstanceCandidate, resMethod = methodCandidate,
                            DuplicateCount = 0, contractName = name\<rparr>)))
      else
        (case first_match MethodById signature abis of
           Some (abiName, abiInstanceCandidate, methodCandidate) \<Rightarrow>
             (AddContract cm addr abiName,
              Inr \<lparr>resABI = abiInstanceCandidate, resMethod = methodCandidate,
                   DuplicateCount = getDuplicateCount MethodById abis signature,
                   contractName = abiName\<rparr>)
         | None \<Rightarrow> (cm, Inl (ErrNew ErrNoABIMethod))))"

subsection \<open>The first match\<close>

lemma first_match_SomeD:
  "first_match f s abis = Some (n, a, m) \<Longrightarrow> (n, a) \<in> set abis \<and> f a s = Inr m"
  by (induction abis) (auto split: sum.splits)

lemma first_match_None_iff:
  "first_match f s abis = None \<longleftrightarrow> (\<forall>(n, a) \<in> set abis. \<not> has_method f s a)"
  by (induction abis) (auto simp: has_method_def split: sum.splits)

lemma duplicate_count_nonneg:
  "first_match f s abis = Some r \<Longrightarrow> 0 \<le> getDuplicateCount f abis s"
proof -
  assume "first_match f s abis = Some r"
  then have "filter (\<lambda>(n, a). has_method f s a) abis \<noteq> []"
    using first_match_None_iff [of f s abis] by (auto simp: filter_empty_conv)
  then show ?thesis
    by (cases "filter (\<lambda>(n, a). has_method f s a) abis") (simp_all add: getDuplicateCount_def)
qed

text \<open>Names of a store filled by \<open>NewContractStore\<close> and \<open>AddABI\<close>: exactly one \<open>.abi\<close> suffix.\<close>

definition abi_names_ok :: "(string, ABI) gomap \<Rightarrow> bool" where
  "abi_names_ok abis \<longleftrightarrow> gomap_wf abis \<and>
     (\<forall>(n, a) \<in> set abis. HasSuffix n ''.abi'' \<and> \<not> HasSuffix (TrimSuffix n ''.abi'') ''.abi'' \<and>
        TrimSuffix n ''.abi'' \<noteq> [])"

lemma abi_names_okD:
  assumes "abi_names_ok abis" and "(n, a) \<in> set abis"
  shows "TrimSuffix n ''.abi'' @ ''.abi'' = n" and "\<not> HasSuffix (TrimSuffix n ''.abi'') ''.abi''"
    and "TrimSuffix n ''.abi'' \<noteq> []" and "map_of abis n = Some a"
proof -
  from assms have "HasSuffix n ''.abi''" by (auto simp: abi_names_ok_def)
  then obtain b where "n = b @ ''.abi''" using HasSuffixE by blast
  then show "TrimSuffix n ''.abi'' @ ''.abi'' = n" by simp
  show "\<not> HasSuffix (TrimSuffix n ''.abi'') ''.abi''" and "TrimSuffix n ''.abi'' \<noteq> []"
    and "map_of abis n = Some a"
    using assms by (auto simp: abi_names_ok_def)
qed

lemma known_name_trim:
  assumes "abi_names_ok abis" and "map_of abis (n @ ''.abi'') = Some a"
  shows "TrimSuffix n ''.abi'' = n"
  using abi_names_okD(2) [OF assms(1) map_of_SomeD [OF assms(2)]] by simp

lemmas finder_splits = option.splits sum.splits prod.splits if_splits

text \<open>The two ways to succeed: the recorded ABI has the method, or the first match is recorded.\<close>

lemma Find_success:
  assumes "FindABIByMethod f abis cm addr s = (cm', Inr r)"
  shows "(IsKnownAddress cm addr \<and> cm' = cm \<and> contractName r = GetContractName cm addr \<and>
      map_of abis (contractName r @ ''.abi'') = Some (resABI r) \<and> f (resABI r) s = Inr (resMethod r)) \<or>
    (cm' = AddContract cm addr (contractName r) \<and>
      first_match f s abis = Some (contractName r, resABI r, resMethod r))"
  using assms by (auto simp: FindABIByMethod_def Let_def split: finder_splits)

lemma Find_match:
  assumes "FindABIByMethod f abis cm addr s = (cm', Inr r)"
  shows "f (resABI r) s = Inr (resMethod r)"
  using Find_success [OF assms] first_match_SomeD by auto

lemma Find_book:
  assumes ok: "abi_names_ok abis" and a: "addr \<noteq> UNKNOWN"
    and r: "FindABIByMethod f abis cm addr s = (cm', Inr r)"
  shows "GetContractName cm' addr = ContractName r"
    and "map_of abis (ContractName r @ ''.abi'') = Some (resABI r)"
proof -
  have "GetContractName cm' addr = ContractName r \<and> map_of abis (ContractName r @ ''.abi'') = Some (resABI r)"
    using Find_success [OF r]
  proof (elim disjE conjE)
    assume "cm' = cm" and "contractName r = GetContractName cm addr"
      and m: "map_of abis (contractName r @ ''.abi'') = Some (resABI r)"
    with known_name_trim [OF ok m] show ?thesis by (simp add: ContractName_def)
  next
    assume cm': "cm' = AddContract cm addr (contractName r)"
      and "first_match f s abis = Some (contractName r, resABI r, resMethod r)"
    then have "(contractName r, resABI r) \<in> set abis" using first_match_SomeD by blast
    from abi_names_okD [OF ok this] show ?thesis
      using a by (simp add: cm' GetContractName_AddContract ContractName_def)
  qed
  then show "GetContractName cm' addr = ContractName r"
    and "map_of abis (ContractName r @ ''.abi'') = Some (resABI r)" by simp_all
qed

subsection \<open>Properties\<close>

text \<open>
  C6. Whatever ABI \<open>FindABIByMethod\<close> returns is one of the stored ABIs and really has the
  method that was asked for, and afterwards the contract map names that ABI for the address
  (unless the address is unknown, which is never recorded), in any upper or lower case
  spelling of the address.
\<close>

theorem FindABIByMethod_sound:
  assumes ok: "abi_names_ok abis" and a: "addr \<noteq> UNKNOWN" and same: "ToLower addr' = ToLower addr"
    and r: "FindABIByMethod MethodById abis cm addr signature = (cm', Inr r)"
  shows "MethodById (resABI r) signature = Inr (resMethod r) \<and>
     map_of abis (GetContractName cm' addr' @ ''.abi'') = Some (resABI r) \<and>
     GetContractName cm' addr' = ContractName r \<and> IsKnownAddress cm' addr'"
proof -
  have name: "GetContractName cm' addr' = GetContractName cm' addr"
    using same by (simp add: GetContractName_def)
  have store: "map_of abis (ContractName r @ ''.abi'') = Some (resABI r)"
    by (rule Find_book(2) [OF ok a r])
  then have "TrimSuffix (ContractName r @ ''.abi'') ''.abi'' \<noteq> []"
    by (intro abi_names_okD(3) [OF ok map_of_SomeD])
  then have "ContractName r \<noteq> []" by simp
  then show ?thesis
    using Find_match [OF r] Find_book(1) [OF ok a r] store name by (simp add: IsKnownAddress_iff)
qed

text \<open>
  C25. Once an address has been resolved, asking again for the same method gives the same
  ABI and method, reports no duplicates and leaves the contract map alone, even when the
  store is ranged over in another order.
\<close>

theorem FindABIByMethod_stable:
  assumes ok: "abi_names_ok abis" and a: "addr \<noteq> UNKNOWN" and perm: "mset abis = mset abis'"
    and r: "FindABIByMethod MethodById abis cm addr signature = (cm', Inr r)"
  shows "FindABIByMethod MethodById abis' cm' addr signature =
     (cm', Inr \<lparr>resABI = resABI r, resMethod = resMethod r, DuplicateCount = 0, contractName = ContractName r\<rparr>)"
proof -
  have "gomap_wf abis" using ok by (simp add: abi_names_ok_def)
  then have "map_of abis' = map_of abis" using perm by (rule map_of_gomap_perm)
  moreover have "IsKnownAddress cm' addr" and "GetContractName cm' addr = ContractName r"
    and "map_of abis (ContractName r @ ''.abi'') = Some (resABI r)"
    and "MethodById (resABI r) signature = Inr (resMethod r)"
  proof -
    show b: "map_of abis (ContractName r @ ''.abi'') = Some (resABI r)" by (rule Find_book(2) [OF ok a r])
    show n: "GetContractName cm' addr = ContractName r" by (rule Find_book(1) [OF ok a r])
    have "TrimSuffix (ContractName r @ ''.abi'') ''.abi'' \<noteq> []"
      by (intro abi_names_okD(3) [OF ok map_of_SomeD [OF b]])
    then show "IsKnownAddress cm' addr" using n by (simp add: IsKnownAddress_iff)
    show "MethodById (resABI r) signature = Inr (resMethod r)" using Find_match [OF r] by simp
  qed
  ultimately show ?thesis by (simp add: FindABIByMethod_def Let_def)
qed

text \<open>
  C26. For an address that is not in the contract map the search is complete: it fails, with
  the error that no ABI method was found and with the map unchanged, exactly when no stored
  ABI has the method; otherwise the reported number of duplicates is the number of other
  ABIs that have it.
\<close>

theorem FindABIByMethod_complete:
  assumes "\<not> IsKnownAddress cm addr"
  shows "(FindABIByMethod MethodById abis cm addr signature = (cm, Inl (ErrNew ErrNoABIMethod)) \<longleftrightarrow>
      (\<forall>(n, a) \<in> set abis. \<forall>m. MethodById a signature \<noteq> Inr m)) \<and>
    (\<forall>cm' r. FindABIByMethod MethodById abis cm addr signature = (cm', Inr r) \<longrightarrow>
      DuplicateCount r + 1 = int (length (filter (\<lambda>(n, a). has_method MethodById signature a) abis)) \<and>
      0 \<le> DuplicateCount r)"
proof -
  have hm: "has_method MethodById signature a \<longleftrightarrow> (\<exists>m. MethodById a signature = Inr m)" for a
    by (simp add: has_method_def split: sum.splits)
  have "(FindABIByMethod MethodById abis cm addr signature = (cm, Inl (ErrNew ErrNoABIMethod))) \<longleftrightarrow>
      first_match MethodById signature abis = None"
    using assms by (auto simp: FindABIByMethod_def split: option.splits)
  moreover have "DuplicateCount r = getDuplicateCount MethodById abis signature \<and> 0 \<le> DuplicateCount r"
    if "FindABIByMethod MethodById abis cm addr signature = (cm', Inr r)" for cm' r
    using that assms by (auto simp: FindABIByMethod_def duplicate_count_nonneg split: option.splits)
  ultimately show ?thesis
    by (auto simp: first_match_None_iff hm getDuplicateCount_def split: prod.splits)
qed

text \<open>A store with two ABIs that share a method, for the witnesses.\<close>

definition ex_method :: Method where
  "ex_method = \<lparr>mName = ''get'', mSig = ''get()'', mID = [1, 2, 3, 4], mInputs = [], mOutputs = []\<rparr>"

definition ex_abi :: "string \<Rightarrow> ABI" where
  "ex_abi n = \<lparr>Events = [], Errors = [(n, \<lparr>aeID = []\<rparr>)]\<rparr>"

definition ex_abis :: "(string, ABI) gomap" where
  "ex_abis = [(''A.abi'', ex_abi ''A''), (''B.abi'', ex_abi ''B'')]"

definition ex_MethodById :: method_by_id where
  "ex_MethodById a s = (if s = [1, 2, 3, 4] then Inr ex_method else Inl (ErrNew ''no method''))"

lemma ex_abis_ok: "abi_names_ok ex_abis"
  by (simp add: abi_names_ok_def ex_abis_def HasSuffix_def TrimSuffix_def)

lemma ex_lower: "ToLower ''0xAb'' = ''0xab''" "ToLower ''0xAB'' = ''0xab''"
  by code_simp+

lemma ex_Find: "FindABIByMethod ex_MethodById ex_abis NewEmptyContractMap ''0xAb'' [1, 2, 3, 4] =
   (\<lparr>addressMap = [(''0xab'', ''A'')]\<rparr>,
    Inr \<lparr>resABI = ex_abi ''A'', resMethod = ex_method, DuplicateCount = 1, contractName = ''A.abi''\<rparr>)"
  by (simp add: FindABIByMethod_def ex_MethodById_def ex_abis_def NewEmptyContractMap_def IsKnownAddress_def
      get_string_def AddContract_def UNKNOWN_def getDuplicateCount_def has_method_def
      HasSuffix_def TrimSuffix_def ex_lower)

theorem FindABIByMethod_sound_witness:
  "GetContractName \<lparr>addressMap = [(''0xab'', ''A'')]\<rparr> ''0xAB'' = ''A''"
proof -
  have "ToLower ''0xAB'' = ToLower ''0xAb''" by (simp add: ex_lower)
  from FindABIByMethod_sound [OF ex_abis_ok _ this ex_Find]
  have "GetContractName \<lparr>addressMap = [(''0xab'', ''A'')]\<rparr> ''0xAB'' =
    ContractName \<lparr>resABI = ex_abi ''A'', resMethod = ex_method, DuplicateCount = 1, contractName = ''A.abi''\<rparr>"
    by (simp add: UNKNOWN_def)
  then show ?thesis by (simp add: ContractName_def TrimSuffix_def HasSuffix_def)
qed

theorem FindABIByMethod_stable_witness:
  "FindABIByMethod ex_MethodById (rev ex_abis) \<lparr>addressMap = [(''0xab'', ''A'')]\<rparr> ''0xAb'' [1, 2, 3, 4] =
     (\<lparr>addressMap = [(''0xab'', ''A'')]\<rparr>,
      Inr \<lparr>resABI = ex_abi ''A'', resMethod = ex_method, DuplicateCount = 0, contractName = ''A''\<rparr>)"
  using FindABIByMethod_stable [OF ex_abis_ok _ _ ex_Find, of "rev ex_abis"]
  by (simp add: UNKNOWN_def ContractName_def TrimSuffix_def HasSuffix_def)

theorem FindABIByMethod_complete_witness:
  "FindABIByMethod ex_MethodById ex_abis NewEmptyContractMap ''0xAb'' [9] =
     (NewEmptyContractMap, Inl (ErrNew ErrNoABIMethod))"
proof -
  have "\<not> IsKnownAddress NewEmptyContractMap ''0xAb''"
    by (simp add: IsKnownAddress_def NewEmptyContractMap_def get_string_def)
  from FindABIByMethod_complete [OF this, of ex_MethodById ex_abis "[9]"] show ?thesis
    by (simp add: ex_MethodById_def ex_abis_def)
qed

end
