(* ===== verification/Config.thy ===== *)
theory Config
  imports Geth_Types
begin

text \<open>
  The configuration of \<^verbatim>\<open>src/config.go\<close> with \<open>ValidateConfig\<close> of \<^verbatim>\<open>src/client.go\<close> and
  the type \<open>Duration\<close> of \<^verbatim>\<open>src/util.go\<close>. \<open>Config.Network\<close> and the entries of
  \<open>Config.Networks\<close> are pointers that may point to the same \<open>Network\<close>, and the code writes
  through them, so a configuration carries the store of its networks (\<open>net_store\<close>) and
  pointers are positions in it. Environment variables, files and the TOML decoder are
  parameters.
\<close>

subsection \<open>Duration\<close>

record Duration =
  D :: int

text \<open>
  \<open>time.Duration.String\<close> of the standard library: nanoseconds as \<open>72h3m0.5s\<close>. A fraction is
  written without its trailing zeros; below one second the unit is ms, the micro sign and s,
  or ns.
\<close>

definition duration_frac :: "int \<Rightarrow> nat \<Rightarrow> string" where
  "duration_frac v prec =
     (let ds = digits (v mod 10 ^ prec);
          ds' = rev (dropWhile (\<lambda>c. c = CHR ''0'') (rev (replicate (prec - length ds) (CHR ''0'') @ ds)))
      in if prec = 0 \<or> ds' = [] then [] else CHR ''.'' # ds')"

definition duration_abs_string :: "int \<Rightarrow> string" where
  "duration_abs_string u =
     (if u = 0 then ''0s''
      else if u < 1000 then digits u @ ''ns''
      else if u < 1000000 then digits (u div 1000) @ duration_frac u 3 @ [char_of (194 :: nat), char_of (181 :: nat), CHR ''s'']
      else if u < 1000000000 then digits (u div 1000000) @ duration_frac u 6 @ ''ms''
      else
        (let secs = u div 1000000000; mins = secs div 60; hours = mins div 60;
             s = digits (secs mod 60) @ duration_frac u 9 @ ''s''
         in if mins = 0 then s
            else if hours = 0 then digits (mins mod 60) @ ''m'' @ s
            else digits hours @ ''h'' @ digits (mins mod 60) @ ''m'' @ s))"

definition duration_string :: "int \<Rightarrow> string" where
  "duration_string d = (if d < 0 then ''-'' @ duration_abs_string (- d) else duration_abs_string d)"

lemma duration_string_examples:
  "duration_string 0 = ''0s''" "duration_string 1500000000 = ''1.5s''"
  "duration_string 300000000000 = ''5m0s''" "duration_string (- 3723000000000) = ''-1h2m3s''"
  "duration_string 2050000 = ''2.05ms''"
  by code_simp+

definition MakeDuration :: "int \<Rightarrow> Duration res" where
  "MakeDuration d = (if d < 0 then Inl (ErrNew (''cannot make negative time duration: '' @ duration_string d))
     else Inr \<lparr>D = d\<rparr>)"

definition ParseDuration :: "(string \<Rightarrow> int res) \<Rightarrow> string \<Rightarrow> Duration res" where
  "ParseDuration timeParse s = res_bind (timeParse s) MakeDuration"

definition MustMakeDuration :: "int \<Rightarrow> Duration go" where
  "MustMakeDuration d = (case MakeDuration d of Inl err \<Rightarrow> Panic (errorText err) | Inr rv \<Rightarrow> Ret rv)"

definition Duration_Duration :: "Duration \<Rightarrow> int" where
  "Duration_Duration d = D d"

definition Duration_Before :: "Duration \<Rightarrow> int \<Rightarrow> int" where
  "Duration_Before d t = t + (- Duration_Duration d)"

definition Duration_Shorter :: "Duration \<Rightarrow> Duration \<Rightarrow> bool" where
  "Duration_Shorter d od \<longleftrightarrow> D d < D od"

definition Duration_IsInstant :: "Duration \<Rightarrow> bool" where
  "Duration_IsInstant d \<longleftrightarrow> D d = 0"

definition Duration_UnmarshalText :: "(string \<Rightarrow> int res) \<Rightarrow> string \<Rightarrow> Duration res" where
  "Duration_UnmarshalText timeParse input =
     res_bind (timeParse input) (\<lambda>v. res_bind (MakeDuration v) (\<lambda>pd. Inr pd))"

definition Duration_String :: "Duration \<Rightarrow> string" where
  "Duration_String d = duration_string (Duration_Duration d)"

definition Duration_MarshalText :: "Duration \<Rightarrow> string" where
  "Duration_MarshalText d = duration_string (D d)"

text \<open>\<open>Scan\<close> accepts an \<open>int64\<close> only; \<open>Inl\<close> on the left is any other dynamic type.\<close>

definition Duration_Scan :: "unit + int \<Rightarrow> Duration res" where
  "Duration_Scan v = (case v of
      Inr tv \<Rightarrow> MakeDuration tv
    | Inl _ \<Rightarrow> Inl (ErrNew ''don't know how to parse as a models.Duration''))"

definition Duration_Value :: "Duration \<Rightarrow> int" where
  "Duration_Value d = D d"

subsection \<open>The data\<close>

record Network =
  netName :: string
  URLs :: "string list"
  EIP1559DynamicFees :: bool
  netGasPrice :: int
  netGasFeeCap :: int
  netGasTipCap :: int
  netGasLimit :: int
  TxnTimeout :: "Duration option"
  DialTimeout :: "Duration option"
  TransferGasFee :: int
  netPrivateKeys :: "string list"
  GasPriceEstimationEnabled :: bool
  GasPriceEstimationBlocks :: int
  GasPriceEstimationTxPriority :: string
  netChainID :: string

type_synonym GasBumpStrategyFn = "int \<Rightarrow> int go"

record GasBumpConfig =
  Retries :: int
  MaxGasPrice :: int
  StrategyFn :: "GasBumpStrategyFn option"

record NonceManagerCfg =
  KeySyncRateLimitSec :: int
  KeySyncTimeout :: "Duration option"
  KeySyncRetries :: int
  KeySyncRetryDelay :: "Duration option"

record BlockStatsConfig =
  RPCRateLimit :: int

record Config =
  net_store :: "Network list"
  revertedTransactionsFile :: string
  ephemeral :: bool
  ArtifactsDir :: string
  EphemeralAddrs :: "int option"
  RootKeyFundsBuffer :: "int option"
  ABIDir :: string
  BINDir :: string
  ContractMapFile :: string
  SaveDeployedContractsMap :: bool
  cfgNetwork :: "nat option"
  cfgNetworks :: "nat list"
  cfgNonceManager :: "NonceManagerCfg option"
  TracingLevel :: string
  TraceOutputs :: "string list"
  PendingNonceProtectionEnabled :: bool
  ConfigDir :: string
  ExperimentsEnabled :: "string list"
  CheckRpcHealthOnStart :: bool
  cfgBlockStats :: "BlockStatsConfig option"
  GasBump :: "GasBumpConfig option"

text \<open>Reading and writing through a pointer to a network; a nil pointer panics.\<close>

definition deref :: "Config \<Rightarrow> nat option \<Rightarrow> Network go" where
  "deref c p = (case p of
      None \<Rightarrow> Panic ''nil pointer dereference''
    | Some i \<Rightarrow> go_index (net_store c) (int i))"

definition upd_net :: "nat \<Rightarrow> (Network \<Rightarrow> Network) \<Rightarrow> Config \<Rightarrow> Config" where
  "upd_net i f c = c\<lparr>net_store := (net_store c)[i := f (net_store c ! i)]\<rparr>"

definition Priority_Degen :: string where "Priority_Degen = ''degen''"
definition Priority_Fast :: string where "Priority_Fast = ''fast''"
definition Priority_Standard :: string where "Priority_Standard = ''standard''"
definition Priority_Slow :: string where "Priority_Slow = ''slow''"

definition TracingLevel_None :: string where "TracingLevel_None = ''NONE''"
definition TracingLevel_Reverted :: string where "TracingLevel_Reverted = ''REVERTED''"
definition TracingLevel_All :: string where "TracingLevel_All = ''ALL''"

definition TraceOutput_Console :: string where "TraceOutput_Console = ''console''"
definition TraceOutput_JSON :: string where "TraceOutput_JSON = ''json''"
definition TraceOutput_DOT :: string where "TraceOutput_DOT = ''dot''"

definition DefaultNetworkName :: string where "DefaultNetworkName = ''Default''"
definition DefaultDialTimeout :: int where "DefaultDialTimeout = 60000000000"
definition GETH :: string where "GETH = ''Geth''"
definition ANVIL :: string where "ANVIL = ''Anvil''"

definition ErrEmptyConfigPath :: string where
  "ErrEmptyConfigPath = ''toml config path is empty, set SETH_CONFIG_PATH''"
definition ErrReadSethConfig :: string where "ErrReadSethConfig = ''failed to read TOML config for seth''"
definition ErrUnmarshalSethConfig :: string where "ErrUnmarshalSethConfig = ''failed to unmarshal TOML config for seth''"

subsection \<open>Methods of Config\<close>

definition GasBumpRetries :: "Config \<Rightarrow> int" where
  "GasBumpRetries c = (case GasBump c of None \<Rightarrow> 0 | Some g \<Rightarrow> Retries g)"

definition HasMaxBumpGasPrice :: "Config \<Rightarrow> bool" where
  "HasMaxBumpGasPrice c \<longleftrightarrow> (case GasBump c of None \<Rightarrow> False | Some g \<Rightarrow> MaxGasPrice g > 0)"

definition FirstNetworkURL :: "Config \<Rightarrow> string go" where
  "FirstNetworkURL c = go_bind (deref c (cfgNetwork c)) (\<lambda>n. go_index (URLs n) 0)"

definition is_simulated_name :: "string \<Rightarrow> bool" where
  "is_simulated_name name \<longleftrightarrow> ToLower name = ToLower GETH \<or> ToLower name = ToLower ANVIL"

definition IsSimulatedNetwork :: "Config \<Rightarrow> bool go" where
  "IsSimulatedNetwork c = go_bind (deref c (cfgNetwork c)) (\<lambda>n. Ret (is_simulated_name (netName n)))"

definition ShouldSaveDeployedContractMap :: "Config \<Rightarrow> bool go" where
  "ShouldSaveDeployedContractMap c =
     go_bind (IsSimulatedNetwork c) (\<lambda>sim. Ret (\<not> sim \<and> SaveDeployedContractsMap c))"

text \<open>\<open>now\<close> is the formatted current time.\<close>

definition GenerateContractMapFileName :: "string \<Rightarrow> Config \<Rightarrow> string go" where
  "GenerateContractMapFileName now c =
     go_bind (deref c (cfgNetwork c)) (\<lambda>n.
       Ret (''deployed_contracts_'' @ ToLower (netName n) @ ''_'' @ now @ ''.toml''))"

definition setEphemeralAddrs :: "Config \<Rightarrow> Config" where
  "setEphemeralAddrs c =
     (let e = (case EphemeralAddrs c of None \<Rightarrow> 0 | Some x \<Rightarrow> x)
      in c\<lparr>EphemeralAddrs := Some e, ephemeral := (e \<noteq> 0),
           RootKeyFundsBuffer := Some (case RootKeyFundsBuffer c of None \<Rightarrow> 0 | Some b \<Rightarrow> b)\<rparr>)"

definition IsExperimentEnabled :: "Config \<Rightarrow> string \<Rightarrow> bool" where
  "IsExperimentEnabled c experiment \<longleftrightarrow> list_ex (\<lambda>e. e = experiment) (ExperimentsEnabled c)"

definition hasOutput :: "Config \<Rightarrow> string \<Rightarrow> bool" where
  "hasOutput c output \<longleftrightarrow> list_ex (\<lambda>out. EqualFold out output) (TraceOutputs c)"

definition GetMaxConcurrency :: "Config \<Rightarrow> int go" where
  "GetMaxConcurrency c =
     (if ephemeral c then
        (case EphemeralAddrs c of None \<Rightarrow> Panic ''nil pointer dereference'' | Some e \<Rightarrow> Ret e)
      else go_bind (deref c (cfgNetwork c)) (\<lambda>n. Ret (int (length (netPrivateKeys n)) - 1)))"

text \<open>
  \<open>AppendPksToNetwork\<close>: the second loop assigns to the network it found the keys of
  \<open>c.Network\<close> followed by the new ones, as the source does.
\<close>

definition AppendPksToNetwork :: "Config \<Rightarrow> string list \<Rightarrow> string \<Rightarrow> (Config \<times> bool) go" where
  "AppendPksToNetwork c pks name =
     (case cfgNetwork c of
        Some p \<Rightarrow>
          go_bind (deref c (Some p)) (\<lambda>n.
            if EqualFold (netName n) name
            then Ret (upd_net p (\<lambda>n. n\<lparr>netPrivateKeys := netPrivateKeys n @ pks\<rparr>) c, True)
            else (case find (\<lambda>q. EqualFold (netName (net_store c ! q)) name) (cfgNetworks c) of
                    Some q \<Rightarrow> Ret (upd_net q (\<lambda>m. m\<lparr>netPrivateKeys := netPrivateKeys n @ pks\<rparr>) c, True)
                  | None \<Rightarrow> Ret (c, False)))
      | None \<Rightarrow>
          (case find (\<lambda>q. EqualFold (netName (net_store c ! q)) name) (cfgNetworks c) of
             Some q \<Rightarrow> Panic ''nil pointer dereference''
           | None \<Rightarrow> Ret (c, False)))"

text \<open>\<open>HexToECDSA\<close> and \<open>PubkeyToAddress\<close> are go-ethereum's; a private key is its own scalar.\<close>

fun ParseKeys :: "(string \<Rightarrow> 'key res) \<Rightarrow> ('key \<Rightarrow> address) \<Rightarrow> string list \<Rightarrow> (address list \<times> 'key list) res" where
  "ParseKeys HexToECDSA PubkeyToAddress [] = Inr ([], [])"
| "ParseKeys HexToECDSA PubkeyToAddress (k # ks) =
     (case HexToECDSA k of
        Inl err \<Rightarrow> Inl err
      | Inr privateKey \<Rightarrow>
          res_bind (ParseKeys HexToECDSA PubkeyToAddress ks) (\<lambda>(addresses, privKeys).
            Inr (PubkeyToAddress privateKey # addresses, privateKey # privKeys)))"

definition BlockStats_Validate :: "BlockStatsConfig \<Rightarrow> BlockStatsConfig" where
  "BlockStats_Validate cfg = (if RPCRateLimit cfg = 0 then cfg\<lparr>RPCRateLimit := 3\<rparr> else cfg)"

subsection \<open>ReadConfig\<close>

text \<open>
  The steps of \<open>ReadConfig\<close> after decoding: choosing the network by \<open>SETH_NETWORK\<close>, falling
  back to the network named Default with \<open>SETH_URL\<close>, then the root key and the dial timeout.
\<close>

definition select_by_name :: "string \<Rightarrow> Config \<Rightarrow> Config" where
  "select_by_name snet cfg =
     (if snet = [] then cfg
      else case find (\<lambda>q. netName (net_store cfg ! q) = snet) (cfgNetworks cfg) of
             Some q \<Rightarrow> cfg\<lparr>cfgNetwork := Some q\<rparr>
           | None \<Rightarrow> cfg)"

definition select_default :: "string \<Rightarrow> string \<Rightarrow> Config \<Rightarrow> Config" where
  "select_default snet url cfg =
     (case find (\<lambda>q. netName (net_store cfg ! q) = DefaultNetworkName) (cfgNetworks cfg) of
        Some q \<Rightarrow> upd_net q (\<lambda>n. n\<lparr>netName := (if snet = [] then DefaultNetworkName else snet), URLs := [url]\<rparr>)
                    (cfg\<lparr>cfgNetwork := Some q\<rparr>)
      | None \<Rightarrow> cfg)"

definition add_root_key :: "string \<Rightarrow> Network \<Rightarrow> Network" where
  "add_root_key rootPrivateKey n =
     n\<lparr>netPrivateKeys := netPrivateKeys n @ [rootPrivateKey],
       DialTimeout := (case DialTimeout n of None \<Rightarrow> Some \<lparr>D = DefaultDialTimeout\<rparr> | Some t \<Rightarrow> Some t)\<rparr>"

definition ReadConfig ::
  "(string \<Rightarrow> string) \<Rightarrow> (string \<Rightarrow> string res) \<Rightarrow> (string \<Rightarrow> Config res) \<Rightarrow> (string \<Rightarrow> string res) \<Rightarrow> Config res" where
  "ReadConfig getenv readFile tomlUnmarshal absDir =
     (let cfgPath = getenv ''SETH_CONFIG_PATH''; snet = getenv ''SETH_NETWORK''; url = getenv ''SETH_URL'';
          rootPrivateKey = getenv ''SETH_ROOT_PRIVATE_KEY'' in
      if cfgPath = [] then Inl (ErrNew ErrEmptyConfigPath)
      else case readFile cfgPath of
        Inl err \<Rightarrow> Inl (ErrWrap ErrReadSethConfig err)
      | Inr d \<Rightarrow>
          (case tomlUnmarshal d of
             Inl err \<Rightarrow> Inl (ErrWrap ErrUnmarshalSethConfig err)
           | Inr cfg0 \<Rightarrow>
               (case absDir cfgPath of
                  Inl err \<Rightarrow> Inl err
                | Inr dir \<Rightarrow>
                    (let cfg1 = select_by_name snet (cfg0\<lparr>ConfigDir := dir\<rparr>) in
                     if cfgNetwork cfg1 = None \<and> url = [] then
                       Inl (ErrNew ''network not selected, set SETH_NETWORK=... or SETH_URL=..., check TOML config for available networks'')
                     else
                       (let cfg2 = (if cfgNetwork cfg1 = None then select_default snet url cfg1 else cfg1) in
                        case cfgNetwork cfg2 of
                          None \<Rightarrow> Inl (ErrNew ''default network not defined in the TOML file'')
                        | Some p \<Rightarrow>
                            if rootPrivateKey = [] then
                              Inl (ErrNew ''no root private key were set, set SETH_ROOT_PRIVATE_KEY=...'')
                            else Inr (upd_net p (add_root_key rootPrivateKey) cfg2))))))"

subsection \<open>ValidateConfig\<close>

text \<open>
  \<open>ValidateConfig\<close> writes into the configuration as it goes: the result is the configuration
  it leaves behind and its error. Its three parts check the gas estimation settings of the
  network, the tracing level and the trace outputs.
\<close>

definition known_priority :: "string \<Rightarrow> bool" where
  "known_priority p \<longleftrightarrow> p \<in> {Priority_Degen, Priority_Fast, Priority_Standard, Priority_Slow}"

definition validate_network :: "Network \<Rightarrow> Network \<times> goerr option" where
  "validate_network n =
     (if GasPriceEstimationEnabled n then
        (if GasPriceEstimationBlocks n = 0 then
           (n, Some (ErrNew ''when automating gas estimation is enabled blocks must be greater than 0. fix it or disable gas estimation''))
         else
           (let p = ToLower (GasPriceEstimationTxPriority n);
                n' = n\<lparr>GasPriceEstimationTxPriority := (if p = [] then Priority_Standard else p)\<rparr>
            in if known_priority (GasPriceEstimationTxPriority n') then (n', None)
               else (n', Some (ErrNew ''when automating gas estimation is enabled priority must be fast, standard or slow. fix it or disable gas estimation''))))
      else (n, None))"

definition known_level :: "string \<Rightarrow> bool" where
  "known_level l \<longleftrightarrow> l \<in> {TracingLevel_None, TracingLevel_Reverted, TracingLevel_All}"

definition known_output :: "string \<Rightarrow> bool" where
  "known_output out \<longleftrightarrow> ToLower out \<in> {TraceOutput_Console, TraceOutput_JSON, TraceOutput_DOT}"

definition ValidateConfig :: "Config \<Rightarrow> (Config \<times> goerr option) go" where
  "ValidateConfig cfg =
     go_bind (deref cfg (cfgNetwork cfg)) (\<lambda>n.
       let p = the (cfgNetwork cfg) in
       case validate_network n of
         (n', Some err) \<Rightarrow> Ret (upd_net p (\<lambda>_. n') cfg, Some err)
       | (n', None) \<Rightarrow>
           (let level = ToUpper (if TracingLevel cfg = [] then TracingLevel_Reverted else TracingLevel cfg);
                cfg1 = (upd_net p (\<lambda>_. n') cfg)\<lparr>TracingLevel := level\<rparr>
            in if \<not> known_level level then
                 Ret (cfg1, Some (ErrNew ''tracing level must be one of: NONE, REVERTED, ALL''))
               else if \<not> list_all known_output (TraceOutputs cfg) then
                 Ret (cfg1, Some (ErrNew ''trace output must be one of: console, json, dot''))
               else
                 Ret (upd_net p (\<lambda>n. n\<lparr>DialTimeout := (case DialTimeout n of
                        None \<Rightarrow> Some \<lparr>D = DefaultDialTimeout\<rparr> | Some t \<Rightarrow> Some t)\<rparr>) cfg1, None)))"

subsection \<open>Lemmas\<close>

lemma MakeDuration_Inr_iff: "MakeDuration d = Inr r \<longleftrightarrow> 0 \<le> d \<and> r = \<lparr>D = d\<rparr>"
  by (auto simp: MakeDuration_def)

lemma MustMakeDuration_Ret [simp]: "0 \<le> d \<Longrightarrow> MustMakeDuration d = Ret \<lparr>D = d\<rparr>"
  by (simp add: MustMakeDuration_def MakeDuration_def)

definition cfg_wf :: "Config \<Rightarrow> bool" where
  "cfg_wf c \<longleftrightarrow> (\<forall>p. cfgNetwork c = Some p \<longrightarrow> p < length (net_store c)) \<and>
     (\<forall>q \<in> set (cfgNetworks c). q < length (net_store c))"

lemma deref_Some [simp]: "p < length (net_store c) \<Longrightarrow> deref c (Some p) = Ret (net_store c ! p)"
  by (simp add: deref_def)

lemma upd_net_simps [simp]:
  "cfgNetwork (upd_net p f c) = cfgNetwork c" "cfgNetworks (upd_net p f c) = cfgNetworks c"
  "TracingLevel (upd_net p f c) = TracingLevel c" "TraceOutputs (upd_net p f c) = TraceOutputs c"
  "length (net_store (upd_net p f c)) = length (net_store c)"
  "p < length (net_store c) \<Longrightarrow> net_store (upd_net p f c) ! p = f (net_store c ! p)"
  "q \<noteq> p \<Longrightarrow> net_store (upd_net p f c) ! q = net_store c ! q"
  by (simp_all add: upd_net_def)

lemma cfg_wf_upd_net [simp]: "cfg_wf (upd_net p f c) \<longleftrightarrow> cfg_wf c"
  by (simp add: cfg_wf_def)

lemma findE: "find P xs = Some x \<Longrightarrow> x \<in> set xs \<and> P x"
  by (induction xs) (auto split: if_splits)

lemma priority_lower: "known_priority p \<Longrightarrow> ToLower p = p" "known_priority p \<Longrightarrow> p \<noteq> []"
  by (auto simp: known_priority_def Priority_Degen_def Priority_Fast_def Priority_Standard_def
      Priority_Slow_def) (code_simp+)

lemma level_upper: "known_level l \<Longrightarrow> ToUpper l = l" "known_level l \<Longrightarrow> l \<noteq> []"
  by (auto simp: known_level_def TracingLevel_None_def TracingLevel_Reverted_def TracingLevel_All_def)
    (code_simp+)

lemma validate_network_ok:
  assumes "validate_network n = (n', None)"
  shows "GasPriceEstimationEnabled n' \<longrightarrow> GasPriceEstimationBlocks n' \<noteq> 0 \<and> known_priority (GasPriceEstimationTxPriority n')"
    and "validate_network (n'\<lparr>DialTimeout := d\<rparr>) = (n'\<lparr>DialTimeout := d\<rparr>, None)"
proof -
  show *: "GasPriceEstimationEnabled n' \<longrightarrow> GasPriceEstimationBlocks n' \<noteq> 0 \<and> known_priority (GasPriceEstimationTxPriority n')"
    using assms by (auto simp: validate_network_def Let_def split: if_splits)
  show "validate_network (n'\<lparr>DialTimeout := d\<rparr>) = (n'\<lparr>DialTimeout := d\<rparr>, None)"
  proof (cases "GasPriceEstimationEnabled n'")
    case True
    with * priority_lower [of "GasPriceEstimationTxPriority n'"] show ?thesis
      by (simp add: validate_network_def Let_def)
  next
    case False
    then show ?thesis by (simp add: validate_network_def)
  qed
qed

lemma ToUpper_idem [simp]: "ToUpper (ToUpper s) = ToUpper s"
proof -
  have "upper_char (upper_char c) = upper_char c" for c
  proof (cases "97 \<le> (of_char c :: nat) \<and> (of_char c :: nat) \<le> 122")
    case True
    then have "of_char (char_of (of_char c - 32 :: nat)) = (of_char c - 32 :: nat)"
      by (subst of_char_of) (auto intro: mod_less)
    with True show ?thesis by (auto simp: upper_char_def Let_def)
  next
    case False
    then have "upper_char c = c" by (auto simp: upper_char_def Let_def)
    then show ?thesis by simp
  qed
  then show ?thesis by (simp add: ToUpper_def)
qed

lemma upd_net_same: "p < length (net_store c) \<Longrightarrow> upd_net p (\<lambda>_. net_store c ! p) c = c"
  by (simp add: upd_net_def)

lemma ValidateConfig_okE:
  assumes p: "cfgNetwork cfg = Some p" "p < length (net_store cfg)"
    and ok: "ValidateConfig cfg = Ret (cfg', None)"
  obtains n' level where "validate_network (net_store cfg ! p) = (n', None)"
    and "level = ToUpper (if TracingLevel cfg = [] then TracingLevel_Reverted else TracingLevel cfg)"
    and "known_level level" and "list_all known_output (TraceOutputs cfg)"
    and "cfg' = upd_net p (\<lambda>n. n\<lparr>DialTimeout := (case DialTimeout n of
                 None \<Rightarrow> Some \<lparr>D = DefaultDialTimeout\<rparr> | Some t \<Rightarrow> Some t)\<rparr>)
               ((upd_net p (\<lambda>_. n') cfg)\<lparr>TracingLevel := level\<rparr>)"
  using assms by (auto simp: ValidateConfig_def Let_def split: prod.splits option.splits if_splits)

subsection \<open>Properties\<close>

text \<open>
  What validation makes of a configuration: the tracing level in upper case, \<open>REVERTED\<close> by default; in the selected network
  the priority in lower case, standard by default, if gas estimation is enabled, and a dial timeout if there is none. All else stays.
\<close>

definition normalised_network :: "Network \<Rightarrow> Network" where
  "normalised_network n = n\<lparr>
     GasPriceEstimationTxPriority :=
       (if \<not> GasPriceEstimationEnabled n then GasPriceEstimationTxPriority n
        else if GasPriceEstimationTxPriority n = [] then Priority_Standard else ToLower (GasPriceEstimationTxPriority n)),
     DialTimeout := (if DialTimeout n = None then Some \<lparr>D = DefaultDialTimeout\<rparr> else DialTimeout n)\<rparr>"

definition normalised_config :: "nat \<Rightarrow> Config \<Rightarrow> Config" where
  "normalised_config p cfg = cfg\<lparr>
     net_store := (net_store cfg)[p := normalised_network (net_store cfg ! p)],
     TracingLevel := (if TracingLevel cfg = [] then TracingLevel_Reverted else ToUpper (TracingLevel cfg))\<rparr>"

lemma validate_network_normalises:
  assumes "validate_network n = (n', None)"
  shows "n'\<lparr>DialTimeout := (case DialTimeout n' of None \<Rightarrow> Some \<lparr>D = DefaultDialTimeout\<rparr> | Some t \<Rightarrow> Some t)\<rparr> = normalised_network n"
proof -
  have "ToLower s = [] \<longleftrightarrow> s = []" for s by (simp add: ToLower_def)
  then show ?thesis using assms
    by (auto simp: validate_network_def normalised_network_def Let_def split: if_splits option.splits)
qed

text \<open>
  C20. A configuration that \<open>ValidateConfig\<close> accepts is left normalised: nothing changes but the tracing level, the priority and the dial
  timeout, and these exactly as specified above; the tracing level is
  one of the three known ones in upper case, every trace output is known, a dial timeout is
  set, and with gas estimation enabled the number of blocks is not 0 and the priority is one
  of the four known ones; validating it again accepts it and changes nothing.
\<close>

theorem ValidateConfig_normalises:
  assumes p: "cfgNetwork cfg = Some p" and wf: "cfg_wf cfg"
    and ok: "ValidateConfig cfg = Ret (cfg', None)"
  shows "cfg' = normalised_config p cfg \<and>
     known_level (TracingLevel cfg') \<and> list_all known_output (TraceOutputs cfg') \<and>
     DialTimeout (net_store cfg' ! p) \<noteq> None \<and>
     (GasPriceEstimationEnabled (net_store cfg' ! p) \<longrightarrow>
        GasPriceEstimationBlocks (net_store cfg' ! p) \<noteq> 0 \<and>
        known_priority (GasPriceEstimationTxPriority (net_store cfg' ! p))) \<and>
     ValidateConfig cfg' = Ret (cfg', None)"
proof -
  have len: "p < length (net_store cfg)" using wf p by (simp add: cfg_wf_def)
  obtain n' level where v: "validate_network (net_store cfg ! p) = (n', None)"
    and level: "level = ToUpper (if TracingLevel cfg = [] then TracingLevel_Reverted else TracingLevel cfg)"
    and l: "known_level level" and out: "list_all known_output (TraceOutputs cfg)"
    and cfg': "cfg' = upd_net p (\<lambda>n. n\<lparr>DialTimeout := (case DialTimeout n of
                 None \<Rightarrow> Some \<lparr>D = DefaultDialTimeout\<rparr> | Some t \<Rightarrow> Some t)\<rparr>)
               ((upd_net p (\<lambda>_. n') cfg)\<lparr>TracingLevel := level\<rparr>)"
    by (rule ValidateConfig_okE [OF p len ok]) (auto simp: p)
  let ?d = "case DialTimeout n' of None \<Rightarrow> Some \<lparr>D = DefaultDialTimeout\<rparr> | Some t \<Rightarrow> Some t"
  have net: "net_store cfg' ! p = n'\<lparr>DialTimeout := ?d\<rparr>"
    and rest: "TracingLevel cfg' = level" "TraceOutputs cfg' = TraceOutputs cfg"
      "cfgNetwork cfg' = Some p" "p < length (net_store cfg')"
    using len p by (simp_all add: cfg' upd_net_def)
  have dd: "(case ?d of None \<Rightarrow> Some \<lparr>D = DefaultDialTimeout\<rparr> | Some t \<Rightarrow> Some t) = ?d"
    by (simp split: option.splits)
  have "ToUpper TracingLevel_Reverted = TracingLevel_Reverted" by code_simp
  then have "cfg' = normalised_config p cfg"
    using len level validate_network_normalises [OF v] by (simp add: cfg' upd_net_def normalised_config_def)
  moreover have "ValidateConfig cfg' = Ret (cfg', None)"
    using rest l out level_upper [OF l] validate_network_ok(2) [OF v, of ?d] net dd
    by (simp add: ValidateConfig_def upd_net_def list_update_same_conv)
  ultimately show ?thesis
    using l out validate_network_ok(1) [OF v] net rest by (simp split: option.splits)
qed

definition ex_net :: Network where
  "ex_net = \<lparr>netName = ''Default'', URLs = [''http://localhost''], EIP1559DynamicFees = True, netGasPrice = 1,
     netGasFeeCap = 1, netGasTipCap = 1, netGasLimit = 0, TxnTimeout = Some \<lparr>D = 1000\<rparr>, DialTimeout = None,
     TransferGasFee = 21000, netPrivateKeys = [''k1''], GasPriceEstimationEnabled = True,
     GasPriceEstimationBlocks = 200, GasPriceEstimationTxPriority = ''Fast'', netChainID = []\<rparr>"

definition ex_cfg :: Config where
  "ex_cfg = \<lparr>net_store = [ex_net], revertedTransactionsFile = [], ephemeral = False, ArtifactsDir = [],
     EphemeralAddrs = None, RootKeyFundsBuffer = None, ABIDir = [], BINDir = [], ContractMapFile = [],
     SaveDeployedContractsMap = False, cfgNetwork = Some 0, cfgNetworks = [0], cfgNonceManager = None,
     TracingLevel = ''all'', TraceOutputs = [''JSON''], PendingNonceProtectionEnabled = False, ConfigDir = [],
     ExperimentsEnabled = [], CheckRpcHealthOnStart = False, cfgBlockStats = None, GasBump = None\<rparr>"

definition ex_cfg_valid :: Config where
  "ex_cfg_valid = ex_cfg\<lparr>net_store := [ex_net\<lparr>GasPriceEstimationTxPriority := ''fast'',
     DialTimeout := Some \<lparr>D = DefaultDialTimeout\<rparr>\<rparr>], TracingLevel := ''ALL''\<rparr>"

lemma ex_case: "ToLower ''Fast'' = ''fast''" "ToUpper ''all'' = ''ALL''" "ToLower ''JSON'' = ''json''"
  by code_simp+

lemma ex_cfg_validates: "ValidateConfig ex_cfg = Ret (ex_cfg_valid, None)"
  by (simp add: ValidateConfig_def ex_cfg_valid_def ex_cfg_def ex_net_def deref_def go_index_def validate_network_def
      ex_case known_priority_def Priority_Fast_def known_level_def TracingLevel_All_def known_output_def
      TraceOutput_JSON_def upd_net_def Let_def)

theorem ValidateConfig_normalises_witness:
  "ValidateConfig ex_cfg = Ret (normalised_config 0 ex_cfg, None) \<and> ValidateConfig ex_cfg_valid = Ret (ex_cfg_valid, None)"
proof -
  have "cfgNetwork ex_cfg = Some 0" and "cfg_wf ex_cfg"
    by (simp_all add: ex_cfg_def cfg_wf_def)
  from ValidateConfig_normalises [OF this ex_cfg_validates] ex_cfg_validates show ?thesis by simp
qed

text \<open>
  C21. When \<open>ReadConfig\<close> succeeds, a network is selected: the first one of the TOML file with
  the name in \<open>SETH_NETWORK\<close> if there is one; otherwise, if the file selects none itself, the
  one that was named Default, now with the URL of \<open>SETH_URL\<close>. The root key of the
  environment is its last private key and its dial timeout is set.
\<close>

theorem ReadConfig_selects:
  assumes wf: "cfg_wf cfg0" and toml: "tomlUnmarshal content = Inr cfg0"
    and read: "readFile (getenv ''SETH_CONFIG_PATH'') = Inr content"
    and ok: "ReadConfig getenv readFile tomlUnmarshal absDir = Inr cfg"
  shows "\<exists>p. cfgNetwork cfg = Some p \<and> p < length (net_store cfg) \<and>
     last (netPrivateKeys (net_store cfg ! p)) = getenv ''SETH_ROOT_PRIVATE_KEY'' \<and>
     netPrivateKeys (net_store cfg ! p) = netPrivateKeys (net_store cfg0 ! p) @ [getenv ''SETH_ROOT_PRIVATE_KEY''] \<and>
     DialTimeout (net_store cfg ! p) \<noteq> None \<and>
     (getenv ''SETH_NETWORK'' \<noteq> [] \<and> getenv ''SETH_NETWORK'' \<in> (\<lambda>q. netName (net_store cfg0 ! q)) ` set (cfgNetworks cfg0) \<longrightarrow>
        p \<in> set (cfgNetworks cfg0) \<and> netName (net_store cfg ! p) = getenv ''SETH_NETWORK'') \<and>
     (cfgNetwork cfg0 = None \<and> netName (net_store cfg0 ! p) \<noteq> getenv ''SETH_NETWORK'' \<longrightarrow>
        netName (net_store cfg0 ! p) = DefaultNetworkName \<and> URLs (net_store cfg ! p) = [getenv ''SETH_URL''])"
proof -
  let ?snet = "getenv ''SETH_NETWORK''" and ?key = "getenv ''SETH_ROOT_PRIVATE_KEY''"
  let ?url = "getenv ''SETH_URL''"
  obtain dir where
    dir: "absDir (getenv ''SETH_CONFIG_PATH'') = Inr dir"
    using ok by (auto simp: ReadConfig_def Let_def toml read split: if_splits sum.splits)
  define cfg1 where "cfg1 = select_by_name ?snet (cfg0\<lparr>ConfigDir := dir\<rparr>)"
  define cfg2 where "cfg2 = (if cfgNetwork cfg1 = None then select_default ?snet ?url cfg1 else cfg1)"
  obtain p where p: "cfgNetwork cfg2 = Some p" and cfg: "cfg = upd_net p (add_root_key ?key) cfg2"
    using ok by (auto simp: ReadConfig_def Let_def toml read dir cfg1_def cfg2_def split: if_splits option.splits)
  have st1: "net_store cfg1 = net_store cfg0" "cfgNetworks cfg1 = cfgNetworks cfg0"
    by (simp_all add: cfg1_def select_by_name_def split: option.splits)
  have by_name: "cfgNetwork cfg1 \<noteq> None \<and> the (cfgNetwork cfg1) \<in> set (cfgNetworks cfg0) \<and>
      netName (net_store cfg0 ! the (cfgNetwork cfg1)) = ?snet"
    if "?snet \<noteq> []" "?snet \<in> (\<lambda>q. netName (net_store cfg0 ! q)) ` set (cfgNetworks cfg0)"
    using that by (auto simp: cfg1_def select_by_name_def find_None_iff dest: findE split: option.splits)
  have other: "netName (net_store cfg0 ! p) = ?snet" if "cfgNetwork cfg0 = None" "cfgNetwork cfg1 = Some p" for p
    using that by (auto simp: cfg1_def select_by_name_def dest: findE split: if_splits option.splits)
  have wf1: "cfg_wf cfg1"
    using wf by (auto simp: cfg_wf_def cfg1_def select_by_name_def dest: findE split: option.splits)
  show ?thesis
  proof (cases "cfgNetwork cfg1")
    case (Some q)
    then have "cfg2 = cfg1" and q: "q = p" using p by (simp_all add: cfg2_def)
    moreover have "p < length (net_store cfg1)" using wf1 Some q by (simp add: cfg_wf_def)
    ultimately show ?thesis
      using by_name other [of p] Some st1 p
      by (intro exI [of _ p]) (auto simp: cfg add_root_key_def split: option.splits)
  next
    case None
    then have c2: "cfg2 = select_default ?snet ?url cfg1" by (simp add: cfg2_def)
    with p None have f: "find (\<lambda>q. netName (net_store cfg1 ! q) = DefaultNetworkName) (cfgNetworks cfg1) = Some p"
      by (auto simp: select_default_def split: option.splits)
    have pin: "p < length (net_store cfg1)" and nm: "netName (net_store cfg1 ! p) = DefaultNetworkName"
      using findE [OF f] wf1 by (auto simp: cfg_wf_def)
    have net: "net_store cfg2 ! p = (net_store cfg0 ! p)\<lparr>netName := (if ?snet = [] then DefaultNetworkName else ?snet), URLs := [?url]\<rparr>"
      and len: "p < length (net_store cfg2)"
      using pin f st1 by (simp_all add: c2 select_default_def upd_net_def)
    have "\<not> (?snet \<noteq> [] \<and> ?snet \<in> (\<lambda>q. netName (net_store cfg0 ! q)) ` set (cfgNetworks cfg0))"
      using by_name None by auto
    then show ?thesis
      using p net len nm st1
      by (intro exI [of _ p]) (auto simp: cfg add_root_key_def split: option.splits)
  qed
qed

definition ex_getenv :: "string \<Rightarrow> string" where
  "ex_getenv v = (if v = ''SETH_CONFIG_PATH'' then ''seth.toml'' else if v = ''SETH_URL'' then ''http://rpc''
     else if v = ''SETH_ROOT_PRIVATE_KEY'' then ''root'' else [])"

definition ex_toml :: Config where
  "ex_toml = ex_cfg\<lparr>cfgNetwork := None\<rparr>"

lemma ex_ReadConfig:
  "\<exists>cfg. ReadConfig ex_getenv (\<lambda>_. Inr []) (\<lambda>_. Inr ex_toml) (\<lambda>_. Inr ''/dir'') = Inr cfg"
  by (simp add: ReadConfig_def ex_getenv_def ex_toml_def ex_cfg_def ex_net_def select_by_name_def
      select_default_def DefaultNetworkName_def)

theorem ReadConfig_selects_witness:
  "\<exists>cfg p. ReadConfig ex_getenv (\<lambda>_. Inr []) (\<lambda>_. Inr ex_toml) (\<lambda>_. Inr ''/dir'') = Inr cfg \<and>
     cfgNetwork cfg = Some p \<and> netPrivateKeys (net_store cfg ! p) = netPrivateKeys (net_store ex_toml ! p) @ [''root'']"
proof -
  obtain cfg where cfg: "ReadConfig ex_getenv (\<lambda>_. Inr []) (\<lambda>_. Inr ex_toml) (\<lambda>_. Inr ''/dir'') = Inr cfg"
    using ex_ReadConfig by blast
  have "cfg_wf ex_toml" by (simp add: ex_toml_def ex_cfg_def cfg_wf_def)
  from ReadConfig_selects [where content = "[]", OF this _ _ cfg] obtain p where
    "cfgNetwork cfg = Some p" "netPrivateKeys (net_store cfg ! p) = netPrivateKeys (net_store ex_toml ! p) @ [''root'']"
    by (auto simp: ex_getenv_def)
  with cfg show ?thesis by blast
qed

text \<open>
  \<open>AppendPksToNetwork\<close> reports success exactly when the current network or a listed one
  has the name (ignoring case), and changes no other network. The current network keeps its
  keys and gains the new ones; a listed network that is not the current one does not keep
  its own keys, it receives those of the current network and the new ones.
\<close>

theorem AppendPksToNetwork_effect:
  assumes wf: "cfg_wf c" and p: "cfgNetwork c = Some p"
    and r: "AppendPksToNetwork c pks name = Ret (c', done)"
  shows "done = (EqualFold (netName (net_store c ! p)) name \<or>
       (\<exists>q \<in> set (cfgNetworks c). EqualFold (netName (net_store c ! q)) name)) \<and>
     (if EqualFold (netName (net_store c ! p)) name then
        net_store c' = (net_store c)[p := (net_store c ! p)\<lparr>netPrivateKeys := netPrivateKeys (net_store c ! p) @ pks\<rparr>]
      else if done then
        (\<exists>q \<in> set (cfgNetworks c). EqualFold (netName (net_store c ! q)) name \<and> q \<noteq> p \<and>
          net_store c' = (net_store c)[q := (net_store c ! q)\<lparr>netPrivateKeys := netPrivateKeys (net_store c ! p) @ pks\<rparr>])
      else c' = c)"
proof -
  have len: "p < length (net_store c)" using wf p by (simp add: cfg_wf_def)
  show ?thesis
  proof (cases "EqualFold (netName (net_store c ! p)) name")
    case True
    with r len p show ?thesis by (auto simp: AppendPksToNetwork_def upd_net_def)
  next
    case False
    note cur = this
    show ?thesis
    proof (cases "find (\<lambda>q. EqualFold (netName (net_store c ! q)) name) (cfgNetworks c)")
      case None
      with r len p cur show ?thesis
        by (auto simp: AppendPksToNetwork_def find_None_iff)
    next
      case (Some q)
      from findE [OF this] have "q \<in> set (cfgNetworks c)" "EqualFold (netName (net_store c ! q)) name" by auto
      moreover have "q \<noteq> p" using calculation cur by auto
      ultimately show ?thesis
        using r len p cur Some by (auto simp: AppendPksToNetwork_def upd_net_def)
    qed
  qed
qed

theorem AppendPksToNetwork_effect_witness:
  "\<exists>c'. AppendPksToNetwork (ex_cfg\<lparr>net_store := [ex_net, ex_net\<lparr>netName := ''other'', netPrivateKeys := [''own'']\<rparr>],
        cfgNetworks := [0, 1]\<rparr>) [''new''] ''other'' = Ret (c', True) \<and>
     netPrivateKeys (net_store c' ! 1) = [''k1'', ''new'']"
proof -
  let ?c = "ex_cfg\<lparr>net_store := [ex_net, ex_net\<lparr>netName := ''other'', netPrivateKeys := [''own'']\<rparr>], cfgNetworks := [0, 1]\<rparr>"
  have ne: "\<not> EqualFold ''Default'' ''other''" "EqualFold ''other'' ''other''"
    by code_simp+
  obtain c' where c': "AppendPksToNetwork ?c [''new''] ''other'' = Ret (c', True)"
    by (simp add: AppendPksToNetwork_def ex_cfg_def ex_net_def ne deref_def go_index_def)
  have "cfg_wf ?c" and p: "cfgNetwork ?c = Some 0" by (simp_all add: ex_cfg_def cfg_wf_def)
  from AppendPksToNetwork_effect [OF this c'] have "netPrivateKeys (net_store c' ! 1) = [''k1'', ''new'']"
    by (auto simp: ex_cfg_def ex_net_def ne)
  with c' show ?thesis by blast
qed

end
