(* ===== verification/Go_Float.thy ===== *)
theory Go_Float
  imports Seth_Prelude "HOL-Library.Log_Nat"
begin

text \<open>
  Floating point as the gas components use it: \<open>float64\<close> (IEEE 754 binary64, round to
  nearest, ties to even) and \<open>big.Float\<close> (the same rounding at a chosen precision, with
  an unbounded exponent). A finite value is the rational number it denotes; the two zeros
  are one value. Everything computes. The locale \<open>rounding\<close> holds what the gas arithmetic
  needs of a rounding function and is interpreted on both.
\<close>

subsection \<open>Rounding to nearest even\<close>

definition rne :: "rat \<Rightarrow> int" where
  "rne x = (let n = \<lfloor>x\<rfloor>; d = x - of_int n in
     if d < 1 / 2 then n else if d > 1 / 2 then n + 1 else if even n then n else n + 1)"

text \<open>The binary exponent of a positive number: \<open>2 ^ flog2 x \<le> x < 2 ^ (flog2 x + 1)\<close>.\<close>

definition flog2 :: "rat \<Rightarrow> int" where
  "flog2 x = (let (p, q) = quotient_of x; k = bitlen p - bitlen q in
     if 2 powi k \<le> x then k else k - 1)"

text \<open>
  The exponent of the last place at precision \<open>p\<close>: for \<open>float64\<close> it has a lower bound (the
  subnormal numbers), for \<open>big.Float\<close> it has none.
\<close>

definition qexp :: "nat \<Rightarrow> int option \<Rightarrow> rat \<Rightarrow> int" where
  "qexp p lo x = (let e = flog2 x - (int p - 1) in case lo of None \<Rightarrow> e | Some m \<Rightarrow> max m e)"

definition pos_rnd :: "nat \<Rightarrow> int option \<Rightarrow> rat \<Rightarrow> rat" where
  "pos_rnd p lo x = (let e = qexp p lo x in of_int (rne (x / 2 powi e)) * 2 powi e)"

definition rnd :: "nat \<Rightarrow> int option \<Rightarrow> rat \<Rightarrow> rat" where
  "rnd p lo x = (if x = 0 then 0 else if 0 < x then pos_rnd p lo x else - pos_rnd p lo (- x))"

lemma rne_of_int [simp]: "rne (of_int n) = n"
  by (simp add: rne_def)

lemma rne_bounds: "\<lfloor>x\<rfloor> \<le> rne x" "rne x \<le> \<lfloor>x\<rfloor> + 1"
  by (simp_all add: rne_def Let_def)

lemma rne_error: "\<bar>of_int (rne x) - x\<bar> \<le> 1 / 2"
proof -
  have "of_int \<lfloor>x\<rfloor> \<le> x" "x < of_int \<lfloor>x\<rfloor> + 1" by linarith+
  then show ?thesis by (auto simp: rne_def Let_def abs_le_iff)
qed

lemma rne_mono: assumes "x \<le> y" shows "rne x \<le> rne y"
proof (cases "\<lfloor>x\<rfloor> = \<lfloor>y\<rfloor>")
  case True
  then show ?thesis using assms by (auto simp: rne_def Let_def)
next
  case False
  with floor_mono [OF assms] have "\<lfloor>x\<rfloor> + 1 \<le> \<lfloor>y\<rfloor>" by simp
  with rne_bounds [of x] rne_bounds [of y] show ?thesis by linarith
qed

lemma rne_le_int: "x \<le> of_int n \<Longrightarrow> rne x \<le> n"
  using rne_mono [of x "of_int n"] by simp

lemma int_le_rne: "of_int n \<le> x \<Longrightarrow> n \<le> rne x"
  using rne_mono [of "of_int n" x] by simp

lemma flog2_bounds:
  assumes "0 < x"
  shows "2 powi flog2 x \<le> x" and "x < 2 powi (flog2 x + 1)"
proof -
  obtain p q where pq: "quotient_of x = (p, q)" by fastforce
  from pq have q: "0 < q" by (rule quotient_of_denom_pos)
  have x: "x = of_int p / of_int q" using pq by (rule quotient_of_div)
  with assms q have p: "0 < p" by (simp add: zero_less_divide_iff)
  let ?k = "bitlen p - bitlen q"
  have pow: "2 powi (bitlen n - 1) \<le> (of_int n :: rat) \<and> (of_int n :: rat) < 2 powi (bitlen n)" if "0 < n" for n
  proof -
    have b: "0 < bitlen n" using that by (simp add: bitlen_alt_def)
    have "2 ^ nat (bitlen n - 1) \<le> n \<and> n < 2 ^ nat (bitlen n)"
      using bitlen_bounds [OF that] .
    then have "(of_int (2 ^ nat (bitlen n - 1)) :: rat) \<le> of_int n \<and> (of_int n :: rat) < of_int (2 ^ nat (bitlen n))"
      by (simp only: of_int_le_iff of_int_less_iff)
    then show ?thesis using b by (simp add: power_int_def)
  qed
  have up: "x < 2 powi (?k + 1)"
  proof -
    have "x < 2 powi bitlen p / of_int q"
      unfolding x using pow [OF p] q by (simp add: divide_strict_right_mono)
    also have "\<dots> \<le> 2 powi bitlen p / 2 powi (bitlen q - 1)"
      using pow [OF q] by (intro divide_left_mono) (simp_all add: q)
    also have "\<dots> = 2 powi (?k + 1)"
      by (simp add: power_int_diff [symmetric] algebra_simps)
    finally show ?thesis .
  qed
  have lo: "2 powi (?k - 1) \<le> x"
  proof -
    have "2 powi (?k - 1) = 2 powi (bitlen p - 1) / (2 powi bitlen q :: rat)"
      by (simp add: power_int_diff [symmetric] algebra_simps)
    also have "\<dots> \<le> of_int p / 2 powi bitlen q"
      using pow [OF p] by (simp add: divide_right_mono)
    also have "\<dots> \<le> of_int p / of_int q"
      using pow [OF q] p q by (intro divide_left_mono) simp_all
    finally show ?thesis by (simp add: x)
  qed
  show "2 powi flog2 x \<le> x" using lo by (simp add: flog2_def pq Let_def)
  show "x < 2 powi (flog2 x + 1)" using up by (simp add: flog2_def pq Let_def)
qed

lemma powi2_mono: "a \<le> b \<Longrightarrow> (2 :: rat) powi a \<le> 2 powi b"
  by (simp add: power_int_increasing)

lemma powi2_less_cancel: "(2 :: rat) powi a < 2 powi b \<Longrightarrow> a < b"
  using powi2_mono [of b a] by (cases "a < b") auto

lemma flog2_unique:
  assumes "2 powi k \<le> x" and "x < 2 powi (k + 1)"
  shows "flog2 x = k"
proof -
  have x: "0 < x" using assms(1) by (rule less_le_trans [rotated]) simp
  have "(2 :: rat) powi k < 2 powi (flog2 x + 1)" using assms(1) flog2_bounds(2) [OF x] by linarith
  moreover have "(2 :: rat) powi flog2 x < 2 powi (k + 1)" using assms(2) flog2_bounds(1) [OF x] by linarith
  ultimately show ?thesis by (auto dest!: powi2_less_cancel)
qed

lemma flog2_mono:
  assumes "0 < x" and "x \<le> y"
  shows "flog2 x \<le> flog2 y"
proof -
  have "0 < y" using assms by linarith
  have "(2 :: rat) powi flog2 x < 2 powi (flog2 y + 1)"
    using flog2_bounds(1) [OF assms(1)] flog2_bounds(2) [OF \<open>0 < y\<close>] assms(2) by linarith
  then show ?thesis by (auto dest!: powi2_less_cancel)
qed

lemma qexp_mono: "0 < x \<Longrightarrow> x \<le> y \<Longrightarrow> qexp p lo x \<le> qexp p lo y"
  using flog2_mono [of x y] by (auto simp: qexp_def Let_def split: option.splits)

lemma qexp_ge: "flog2 x - (int p - 1) \<le> qexp p lo x"
  by (auto simp: qexp_def Let_def split: option.splits)

lemma qexp_strict:
  assumes "qexp p lo x < qexp p lo y" shows "qexp p lo y = flog2 y - (int p - 1)"
  using assms by (auto simp: qexp_def Let_def max_def split: option.splits if_splits)

text \<open>A number is representable when its own last place divides it.\<close>

definition representable :: "nat \<Rightarrow> int option \<Rightarrow> rat \<Rightarrow> bool" where
  "representable p lo x \<longleftrightarrow> rnd p lo x = x"

lemma pos_rnd_le:
  assumes "x \<le> of_int m * 2 powi qexp p lo x"
  shows "pos_rnd p lo x \<le> of_int m * 2 powi qexp p lo x"
proof -
  have "x / 2 powi qexp p lo x \<le> of_int m" using assms by (simp add: divide_le_eq)
  then have "rne (x / 2 powi qexp p lo x) \<le> m" by (rule rne_le_int)
  then show ?thesis by (simp add: pos_rnd_def Let_def mult_right_mono)
qed

lemma pos_rnd_ge:
  assumes "of_int m * 2 powi qexp p lo x \<le> x"
  shows "of_int m * 2 powi qexp p lo x \<le> pos_rnd p lo x"
proof -
  have "of_int m \<le> x / 2 powi qexp p lo x" using assms by (simp add: le_divide_eq)
  then have "m \<le> rne (x / 2 powi qexp p lo x)" by (rule int_le_rne)
  then show ?thesis by (simp add: pos_rnd_def Let_def mult_right_mono)
qed

lemma pos_rnd_nonneg: "0 < x \<Longrightarrow> 0 \<le> pos_rnd p lo x"
  using pos_rnd_ge [of 0 p lo x] by simp

lemma powi2_nat: "0 \<le> k \<Longrightarrow> (2 :: rat) powi (k + e) = of_int (2 ^ nat k) * 2 powi e"
  by (subst power_int_add) (simp_all add: power_int_def [of _ k])

lemma pos_rnd_mono:
  assumes x: "0 < x" and xy: "x \<le> y" and p: "1 \<le> p"
  shows "pos_rnd p lo x \<le> pos_rnd p lo y"
proof (cases "qexp p lo x = qexp p lo y")
  case True
  have "x / 2 powi qexp p lo x \<le> y / 2 powi qexp p lo x" using xy by (simp add: divide_right_mono)
  then have "rne (x / 2 powi qexp p lo x) \<le> rne (y / 2 powi qexp p lo y)" using True rne_mono by simp
  then show ?thesis using True by (simp add: pos_rnd_def Let_def mult_right_mono)
next
  case False
  let ?ex = "qexp p lo x" and ?ey = "qexp p lo y"
  have y: "0 < y" using x xy by linarith
  have less: "?ex < ?ey" using qexp_mono [OF x xy, of p lo] False by simp
  have ey: "?ey = flog2 y - (int p - 1)" using qexp_strict [OF less] .
  have px: "(2 :: rat) powi (?ex + int p) = of_int (2 ^ p) * 2 powi ?ex"
    using powi2_nat [of "int p" ?ex] by (simp add: add.commute)
  have py: "(2 :: rat) powi (?ey + (int p - 1)) = of_int (2 ^ (p - 1)) * 2 powi ?ey"
    using powi2_nat [of "int p - 1" ?ey] p by (simp add: add.commute nat_diff_distrib)
  have "x < 2 powi (flog2 x + 1)" using flog2_bounds(2) [OF x] .
  also have "\<dots> \<le> 2 powi (?ex + int p)" using qexp_ge [of x p lo] by (intro powi2_mono) simp
  finally have "pos_rnd p lo x \<le> 2 powi (?ex + int p)"
    unfolding px by (intro pos_rnd_le) simp
  also have "\<dots> \<le> 2 powi (?ey + (int p - 1))" using less by (intro powi2_mono) simp
  also have "\<dots> \<le> pos_rnd p lo y"
    unfolding py by (intro pos_rnd_ge) (use flog2_bounds(1) [OF y] ey py in simp)
  finally show ?thesis .
qed

lemma rnd_0 [simp]: "rnd p lo 0 = 0"
  by (simp add: rnd_def)

lemma rnd_uminus: "rnd p lo (- x) = - rnd p lo x"
  by (simp add: rnd_def)

lemma rnd_mono: assumes "x \<le> y" and "1 \<le> p" shows "rnd p lo x \<le> rnd p lo y"
proof -
  consider "0 < x" | "y < 0" | "x \<le> 0" "0 \<le> y" by linarith
  then show ?thesis
  proof cases
    case 1
    then show ?thesis using assms pos_rnd_mono [of x y p lo] by (auto simp: rnd_def)
  next
    case 2
    then show ?thesis using assms pos_rnd_mono [of "- y" "- x" p lo] by (auto simp: rnd_def)
  next
    case 3
    then have "rnd p lo x \<le> 0" "0 \<le> rnd p lo y"
      using pos_rnd_nonneg [of "- x" p lo] pos_rnd_nonneg [of y p lo] by (auto simp: rnd_def)
    then show ?thesis by linarith
  qed
qed

lemma rnd_error:
  assumes "0 < x"
  shows "\<bar>rnd p lo x - x\<bar> \<le> 2 powi (qexp p lo x) / 2"
proof -
  let ?u = "(2 :: rat) powi qexp p lo x"
  have "rnd p lo x - x = (of_int (rne (x / ?u)) - x / ?u) * ?u"
    using assms by (simp add: rnd_def pos_rnd_def Let_def algebra_simps)
  then have "\<bar>rnd p lo x - x\<bar> = \<bar>of_int (rne (x / ?u)) - x / ?u\<bar> * ?u" by (simp add: abs_mult)
  also have "\<dots> \<le> 1 / 2 * ?u" by (intro mult_right_mono rne_error) simp
  finally show ?thesis by simp
qed

lemma rnd_exact_int_mult:
  assumes "x = of_int m * 2 powi k" and "qexp p lo x \<le> k" and "0 < x"
  shows "rnd p lo x = x"
proof -
  let ?e = "qexp p lo x"
  have "x / 2 powi ?e = of_int m * (2 powi k / 2 powi ?e)" using assms(1) by simp
  also have "(2 :: rat) powi k / 2 powi ?e = 2 powi (k - ?e)" by (simp add: power_int_diff)
  also have "\<dots> = of_int (2 ^ nat (k - ?e))" using assms(2) by (simp add: power_int_def)
  finally have "x / 2 powi ?e = of_int (m * 2 ^ nat (k - ?e))" by simp
  then have "rne (x / 2 powi ?e) = m * 2 ^ nat (k - ?e)" by (simp only: rne_of_int)
  with \<open>x / 2 powi ?e = of_int (m * 2 ^ nat (k - ?e))\<close> have "of_int (rne (x / 2 powi ?e)) = x / 2 powi ?e" by simp
  then show ?thesis using assms(3) by (simp add: rnd_def pos_rnd_def Let_def)
qed

lemma rnd_idem: assumes p: "1 \<le> p" shows "rnd p lo (rnd p lo x) = rnd p lo x"
proof -
  have pos: "rnd p lo (rnd p lo x) = rnd p lo x" if x: "0 < x" for x
  proof -
    let ?e = "qexp p lo x" and ?r = "rnd p lo x"
    let ?n = "rne (x / 2 powi ?e)"
    have r: "?r = of_int ?n * 2 powi ?e" using x by (simp add: rnd_def pos_rnd_def Let_def)
    have px: "(2 :: rat) powi (?e + int p) = of_int (2 ^ p) * 2 powi ?e"
      using powi2_nat [of "int p" ?e] by (simp add: add.commute)
    have "x < 2 powi (flog2 x + 1)" using flog2_bounds(2) [OF x] .
    also have "\<dots> \<le> 2 powi (?e + int p)" using qexp_ge [of x p lo] by (intro powi2_mono) simp
    finally have le: "?r \<le> 2 powi (?e + int p)"
      using x pos_rnd_le [of x "2 ^ p" p lo] unfolding px by (simp add: rnd_def)
    have lo: "m \<le> ?e" if "lo = Some m" for m using that by (simp add: qexp_def Let_def)
    consider "?r = 0" | "0 < ?r" "?r < 2 powi (?e + int p)" | "?r = 2 powi (?e + int p)"
      using le pos_rnd_nonneg [OF x, of p lo] x by (force simp: rnd_def)
    then show ?thesis
    proof cases
      case 1
      then show ?thesis by simp
    next
      case 2
      have "(2 :: rat) powi flog2 ?r < 2 powi (?e + int p)" using flog2_bounds(1) [OF 2(1)] 2(2) by linarith
      then have "flog2 ?r - (int p - 1) \<le> ?e" by (auto dest: powi2_less_cancel)
      with lo have "qexp p lo ?r \<le> ?e" by (auto simp: qexp_def [of _ _ ?r] Let_def split: option.splits)
      with r 2(1) show ?thesis by (intro rnd_exact_int_mult [of _ ?n ?e])
    next
      case 3
      have "flog2 ?r = ?e + int p" unfolding 3 by (rule flog2_unique) (simp_all add: power_int_add)
      with lo have q: "qexp p lo ?r \<le> ?e + 1" by (force simp: qexp_def [of _ _ ?r] Let_def split: option.splits)
      have "?r = of_int (2 ^ (p - 1)) * 2 powi (?e + 1)"
        using powi2_nat [of "int p - 1" "?e + 1"] p by (simp add: 3 algebra_simps nat_diff_distrib)
      from rnd_exact_int_mult [OF this q] 3 show ?thesis by simp
    qed
  qed
  consider "x = 0" | "0 < x" | "0 < - x" by linarith
  then show ?thesis using pos [of x] pos [of "- x"] by cases (simp_all add: rnd_uminus)
qed

text \<open>Integers up to the precision are exact, and the relative error of a normal number is at most \<open>2 ^ - p\<close>.\<close>

lemma rnd_of_int:
  assumes "\<bar>n\<bar> < 2 ^ p" and "\<And>m. lo = Some m \<Longrightarrow> m \<le> 0" and "1 \<le> p"
  shows "rnd p lo (of_int n) = of_int n"
proof -
  have pos: "rnd p lo (of_int n) = of_int n" if n: "0 < n" "n < 2 ^ p" for n
  proof -
    have "(2 :: rat) powi flog2 (of_int n) \<le> of_int n" using flog2_bounds(1) [of "of_int n"] n(1) by simp
    also have "(of_int n :: rat) < of_int (2 ^ p)" using n(2) by (simp only: of_int_less_iff)
    also have "(of_int (2 ^ p) :: rat) = 2 powi (int p)" by (simp add: power_int_def)
    finally have "flog2 (of_int n) < int p" by (rule powi2_less_cancel)
    then have "qexp p lo (of_int n) \<le> 0"
      using assms(2) by (auto simp: qexp_def Let_def split: option.splits)
    with n show ?thesis by (intro rnd_exact_int_mult [of _ n 0]) simp_all
  qed
  show ?thesis using pos [of n] pos [of "- n"] assms(1)
    by (cases "n = 0"; cases "0 < n") (simp_all add: rnd_uminus)
qed

lemma rnd_relative:
  assumes "1 \<le> x" and "\<And>m. lo = Some m \<Longrightarrow> m \<le> 1 - int p"
  shows "\<bar>rnd p lo x - x\<bar> \<le> x / 2 ^ p"
proof -
  have x: "0 < x" using assms(1) by simp
  have "(2 :: rat) powi 0 < 2 powi (flog2 x + 1)" using flog2_bounds(2) [OF x] assms(1) by simp
  from powi2_less_cancel [OF this] have "0 \<le> flog2 x" by simp
  then have "qexp p lo x = flog2 x - (int p - 1)"
    using assms(2) by (force simp: qexp_def Let_def max_def split: option.splits)
  then have "(2 :: rat) powi qexp p lo x / 2 = 2 powi (flog2 x - int p)"
    by (simp add: power_int_diff power_int_add)
  also have "\<dots> = 2 powi flog2 x / 2 ^ p" by (simp add: power_int_diff)
  also have "\<dots> \<le> x / 2 ^ p" using flog2_bounds(1) [OF x] by (simp add: divide_right_mono)
  finally show ?thesis using rnd_error [OF x, of p lo] by linarith
qed

subsection \<open>What gas arithmetic needs of a rounding function\<close>

locale rounding =
  fixes r :: "rat \<Rightarrow> rat"
  assumes mono: "x \<le> y \<Longrightarrow> r x \<le> r y"
    and idem: "r (r x) = r x"
    and zero: "r 0 = 0"
    and one: "r 1 = 1"
begin

lemma nonneg: "0 \<le> x \<Longrightarrow> 0 \<le> r x"
  using mono [of 0 x] by (simp add: zero)

lemma le_one: "x \<le> 1 \<Longrightarrow> r x \<le> 1"
  using mono [of x 1] by (simp add: one)

lemma le_fixed: "x \<le> y \<Longrightarrow> r y = y \<Longrightarrow> r x \<le> y"
  using mono [of x y] by simp

lemma fixed_le: "x \<le> y \<Longrightarrow> r x = x \<Longrightarrow> x \<le> r y"
  using mono [of x y] by simp

text \<open>A rounded ratio of ordered numbers stays in the unit interval.\<close>

lemma ratio_unit: "0 \<le> a \<Longrightarrow> a \<le> b \<Longrightarrow> 0 < b \<Longrightarrow> 0 \<le> r (a / b) \<and> r (a / b) \<le> 1"
  by (intro conjI nonneg le_one) simp_all

text \<open>
  One step of a weighted average computed with rounding: if the weighted sum is below the
  total weight, it stays so after adding a term with a factor in the unit interval.
\<close>

lemma weighted_step:
  assumes "0 \<le> s" "s \<le> t" "0 \<le> c" "c \<le> 1" "0 \<le> w" "r w = w"
  shows "0 \<le> r (s + r (c * w)) \<and> r (s + r (c * w)) \<le> r (t + w)"
proof -
  have "c * w \<le> w" using assms(4,5) by (simp add: mult_left_le_one_le assms(3))
  then have "r (c * w) \<le> w" by (rule le_fixed) (rule assms(6))
  moreover have "0 \<le> r (c * w)" using assms(3,5) by (intro nonneg) simp
  ultimately show ?thesis using assms(1,2) by (intro conjI nonneg mono) simp_all
qed

end

lemma rounding_rnd:
  assumes "1 \<le> p" and "\<And>m. lo = Some m \<Longrightarrow> m \<le> 0"
  shows "rounding (rnd p lo)"
proof
  show "rnd p lo 1 = 1"
  proof -
    have "\<bar>1 :: int\<bar> < 2 ^ p" using assms(1) by simp
    from rnd_of_int [OF this assms(2,1)] show ?thesis by simp
  qed
qed (use assms(1) in \<open>simp_all add: rnd_mono rnd_idem\<close>)

abbreviation rnd64 :: "rat \<Rightarrow> rat" where
  "rnd64 \<equiv> rnd 53 (Some (-1074))"

interpretation f64: rounding rnd64
  by (rule rounding_rnd) simp_all

interpretation big53: rounding "rnd 53 None"
  by (rule rounding_rnd) simp_all

subsection \<open>float64\<close>

datatype float64 = Fin rat | PInf | NInf | NaN

definition fl :: "rat \<Rightarrow> float64" where
  "fl x = (let v = rnd64 x in
     if 2 ^ 1024 \<le> v then PInf else if v \<le> - (2 ^ 1024) then NInf else Fin v)"

text \<open>Conversion of an integer, and the arithmetic operators. \<open>0 / 0\<close> is NaN, \<open>x / 0\<close> is infinite.\<close>

definition float_of_int :: "int \<Rightarrow> float64" where
  "float_of_int n = fl (of_int n)"

definition inf_of_sign :: "rat \<Rightarrow> float64" where
  "inf_of_sign x = (if x = 0 then NaN else if 0 < x then PInf else NInf)"

fun fneg :: "float64 \<Rightarrow> float64" where
  "fneg (Fin x) = Fin (- x)"
| "fneg PInf = NInf"
| "fneg NInf = PInf"
| "fneg NaN = NaN"

fun fadd :: "float64 \<Rightarrow> float64 \<Rightarrow> float64" where
  "fadd (Fin x) (Fin y) = fl (x + y)"
| "fadd NaN y = NaN"
| "fadd x NaN = NaN"
| "fadd PInf NInf = NaN"
| "fadd NInf PInf = NaN"
| "fadd PInf y = PInf"
| "fadd NInf y = NInf"
| "fadd x PInf = PInf"
| "fadd x NInf = NInf"

definition fsub :: "float64 \<Rightarrow> float64 \<Rightarrow> float64" where
  "fsub x y = fadd x (fneg y)"

fun fmul :: "float64 \<Rightarrow> float64 \<Rightarrow> float64" where
  "fmul (Fin x) (Fin y) = fl (x * y)"
| "fmul NaN y = NaN"
| "fmul x NaN = NaN"
| "fmul PInf PInf = PInf"
| "fmul NInf NInf = PInf"
| "fmul PInf NInf = NInf"
| "fmul NInf PInf = NInf"
| "fmul PInf (Fin y) = inf_of_sign y"
| "fmul (Fin x) PInf = inf_of_sign x"
| "fmul NInf (Fin y) = inf_of_sign (- y)"
| "fmul (Fin x) NInf = inf_of_sign (- x)"

fun fdiv :: "float64 \<Rightarrow> float64 \<Rightarrow> float64" where
  "fdiv (Fin x) (Fin y) = (if y = 0 then inf_of_sign x else fl (x / y))"
| "fdiv NaN y = NaN"
| "fdiv x NaN = NaN"
| "fdiv (Fin x) y = Fin 0"
| "fdiv PInf (Fin y) = (if 0 \<le> y then PInf else NInf)"
| "fdiv NInf (Fin y) = (if 0 \<le> y then NInf else PInf)"
| "fdiv x y = NaN"

fun flt :: "float64 \<Rightarrow> float64 \<Rightarrow> bool" where
  "flt (Fin x) (Fin y) = (x < y)"
| "flt NaN y = False"
| "flt x NaN = False"
| "flt x PInf = (x \<noteq> PInf)"
| "flt NInf y = (y \<noteq> NInf)"
| "flt x y = False"

fun feq :: "float64 \<Rightarrow> float64 \<Rightarrow> bool" where
  "feq NaN y = False"
| "feq x NaN = False"
| "feq x y = (x = y)"

definition fle :: "float64 \<Rightarrow> float64 \<Rightarrow> bool" where
  "fle x y \<longleftrightarrow> flt x y \<or> feq x y"

text \<open>
  \<open>int64(f)\<close> truncates towards zero. Out of range the language leaves the value to the
  implementation; this is the one of amd64.
\<close>

definition trunc :: "rat \<Rightarrow> int" where
  "trunc x = (if 0 \<le> x then \<lfloor>x\<rfloor> else \<lceil>x\<rceil>)"

fun int64_of_float :: "float64 \<Rightarrow> int" where
  "int64_of_float (Fin x) = (let n = trunc x in if - (2 ^ 63) \<le> n \<and> n < 2 ^ 63 then n else - (2 ^ 63))"
| "int64_of_float _ = - (2 ^ 63)"

subsection \<open>big.Float\<close>

text \<open>A finite \<open>big.Float\<close> with its precision, or an infinity. NaN does not exist: making one panics.\<close>

datatype bigfloat = BF nat rat | BInf nat bool

fun bf_prec :: "bigfloat \<Rightarrow> nat" where
  "bf_prec (BF p x) = p"
| "bf_prec (BInf p b) = p"

text \<open>\<open>big.NewFloat\<close>, \<open>SetFloat64\<close> on a new value, and \<open>SetInt\<close> on a new value.\<close>

fun big_NewFloat :: "float64 \<Rightarrow> bigfloat go" where
  "big_NewFloat (Fin x) = Ret (BF 53 x)"
| "big_NewFloat PInf = Ret (BInf 53 False)"
| "big_NewFloat NInf = Ret (BInf 53 True)"
| "big_NewFloat NaN = Panic ''NewFloat(NaN)''"

definition big_SetInt :: "int \<Rightarrow> bigfloat" where
  "big_SetInt n = (let p = max 64 (nat (bitlen \<bar>n\<bar>)) in BF p (rnd p None (of_int n)))"

text \<open>\<open>z.Mul(x, y)\<close>: the precision of \<open>z\<close>, or the larger one of the operands when \<open>z\<close> is new.\<close>

fun big_Mul :: "nat \<Rightarrow> bigfloat \<Rightarrow> bigfloat \<Rightarrow> bigfloat go" where
  "big_Mul zp (BF p x) (BF q y) = (let n = (if zp = 0 then max p q else zp) in Ret (BF n (rnd n None (x * y))))"
| "big_Mul zp (BInf p b) (BInf q c) = Ret (BInf (if zp = 0 then max p q else zp) (b \<noteq> c))"
| "big_Mul zp (BF p x) (BInf q c) = (if x = 0 then Panic ''multiplication of zero with infinity''
     else Ret (BInf (if zp = 0 then max p q else zp) (c \<noteq> (x < 0))))"
| "big_Mul zp (BInf p b) (BF q y) = (if y = 0 then Panic ''multiplication of zero with infinity''
     else Ret (BInf (if zp = 0 then max p q else zp) (b \<noteq> (y < 0))))"

text \<open>
  \<open>Float64\<close> rounds to the nearest \<open>float64\<close>, \<open>Int\<close> truncates (its result is nil for an
  infinity), \<open>Int64\<close> truncates and saturates.
\<close>

fun big_Float64 :: "bigfloat \<Rightarrow> float64" where
  "big_Float64 (BF p x) = fl x"
| "big_Float64 (BInf p b) = (if b then NInf else PInf)"

fun big_Int :: "bigfloat \<Rightarrow> int option" where
  "big_Int (BF p x) = Some (trunc x)"
| "big_Int (BInf p b) = None"

definition saturate64 :: "int \<Rightarrow> int" where
  "saturate64 n = max (- (2 ^ 63)) (min (2 ^ 63 - 1) n)"

fun big_Int64 :: "bigfloat \<Rightarrow> int" where
  "big_Int64 (BF p x) = saturate64 (trunc x)"
| "big_Int64 (BInf p b) = (if b then - (2 ^ 63) else 2 ^ 63 - 1)"

lemma trunc_nonneg: "0 \<le> x \<Longrightarrow> trunc x = \<lfloor>x\<rfloor>"
  by (simp add: trunc_def)

lemma int_le_trunc: "0 \<le> n \<Longrightarrow> of_int n \<le> x \<Longrightarrow> n \<le> trunc x"
  by (simp add: trunc_def le_floor_iff)

lemma trunc_le: "0 \<le> x \<Longrightarrow> of_int (trunc x) \<le> x"
  by (simp add: trunc_def)

lemma fl_fin: "\<bar>rnd64 x\<bar> < 2 ^ 1024 \<Longrightarrow> fl x = Fin (rnd64 x)"
  by (auto simp: fl_def Let_def)

lemma rnd64_le_pow:
  assumes "\<bar>x\<bar> \<le> of_int n" and "\<bar>n\<bar> < 2 ^ 53"
  shows "\<bar>rnd64 x\<bar> \<le> of_int n"
proof -
  have n: "rnd64 (of_int n) = of_int n" by (rule rnd_of_int) (use assms(2) in simp_all)
  have "rnd64 x \<le> of_int n" by (rule f64.le_fixed) (use assms(1) n in auto)
  moreover have "rnd64 (- x) \<le> of_int n" by (rule f64.le_fixed) (use assms(1) n in auto)
  ultimately show ?thesis by (simp add: rnd_uminus abs_le_iff)
qed

lemma fl_small:
  assumes "\<bar>x\<bar> \<le> of_int n" and "\<bar>n\<bar> < 2 ^ 53"
  shows "fl x = Fin (rnd64 x)"
proof (rule fl_fin)
  have "\<bar>rnd64 x\<bar> \<le> of_int n" by (rule rnd64_le_pow [OF assms])
  also have "(of_int n :: rat) < of_int (2 ^ 53)" using assms(2) by (simp only: of_int_less_iff abs_less_iff)
  also have "(of_int (2 ^ 53) :: rat) \<le> 2 ^ 1024"
    using power_increasing [of 53 1024 "2 :: rat"] by simp
  finally show "\<bar>rnd64 x\<bar> < 2 ^ 1024" .
qed

lemma float_of_int_exact: "\<bar>n\<bar> < 2 ^ 53 \<Longrightarrow> float_of_int n = Fin (of_int n)"
  using rnd_of_int [of n 53 "Some (-1074)"] by (simp add: float_of_int_def fl_small [of _ "\<bar>n\<bar>"])

lemma float_of_int_fin:
  assumes "0 \<le> n" and "n \<le> 2 ^ 64"
  shows "float_of_int n = Fin (rnd64 (of_int n))"
proof -
  have exact: "rnd64 (2 ^ 64) = 2 ^ 64" by code_simp
  have "rnd64 (of_int n) \<le> rnd64 (of_int (2 ^ 64))" using assms(2) by (intro f64.mono) (simp only: of_int_le_iff)
  then have "rnd64 (of_int n) \<le> 2 ^ 64" using exact by simp
  also have "(2 ^ 64 :: rat) < 2 ^ 1024" by (rule power_strict_increasing) simp_all
  finally have "rnd64 (of_int n) < 2 ^ 1024" .
  moreover have "0 \<le> rnd64 (of_int n)" using assms(1) by (intro f64.nonneg) simp
  ultimately show ?thesis by (simp add: float_of_int_def fl_fin)
qed

end
