(* ===== verification/Ether_Units.thy ===== *)
theory Ether_Units
  imports Go_Float
begin

text \<open>
  Conversions between wei and ether (\<open>EtherToWei\<close> and \<open>WeiToEther\<close> of \<^verbatim>\<open>src/util.go\<close>): the second divides
  at 236 bits, the first goes through the decimal text with 18 digits. The theorems: the two are
  inverse on every amount below \<open>2 ^ 200\<close> wei, and what \<open>EtherToWei\<close> returns in general, with an amount on which
  it loses an ether.
\<close>

definition params_Ether :: int where "params_Ether = 10 ^ 18"

subsection \<open>Decimal text\<close>

text \<open>\<open>strings.Split\<close> with a one-character separator, and \<open>SetString(s, 10)\<close> on digits.\<close>

fun Split1 :: "string \<Rightarrow> char \<Rightarrow> string list" where
  "Split1 [] sep = [[]]"
| "Split1 (c # cs) sep =
     (if c = sep then [] # Split1 cs sep
      else case Split1 cs sep of [] \<Rightarrow> [[c]] | p # ps \<Rightarrow> (c # p) # ps)"

definition dot :: char where
  "dot = CHR 0x2E"

definition dec_value :: "char \<Rightarrow> int option" where
  "dec_value c = (let n = (of_char c :: int) in if 48 \<le> n \<and> n \<le> 57 then Some (n - 48) else None)"

fun parse_dec :: "string \<Rightarrow> int \<Rightarrow> int option" where
  "parse_dec [] acc = Some acc"
| "parse_dec (c # cs) acc = (case dec_value c of None \<Rightarrow> None | Some v \<Rightarrow> parse_dec cs (10 * acc + v))"

text \<open>The fractional digits of \<open>%.18f\<close>, and the whole text of a finite number: nearest, ties to even.\<close>

fun dec_pad :: "nat \<Rightarrow> int \<Rightarrow> string" where
  "dec_pad 0 n = []"
| "dec_pad (Suc k) n = dec_pad k (n div 10) @ [char_of (48 + n mod 10)]"

definition format_f18 :: "rat \<Rightarrow> string" where
  "format_f18 x =
     (let n = rne (\<bar>x\<bar> * 10 ^ 18) in
      (if x < 0 then ''-'' else []) @ digits (n div 10 ^ 18) @ [dot] @ dec_pad 18 (n mod 10 ^ 18))"

subsection \<open>The conversions\<close>

fun EtherToWei :: "bigfloat \<Rightarrow> int go" where
  "EtherToWei (BInf p b) = Panic ''nil pointer dereference''"
| "EtherToWei (BF p eth) =
     (let truncInt = trunc eth * params_Ether in
      go_bind (go_index (Split1 (format_f18 eth) dot) 1) (\<lambda>fracStr.
      if 18 < length fracStr then Panic ''strings: negative Repeat count''
      else case parse_dec (fracStr @ replicate (18 - length fracStr) (char_of (48 :: nat))) 0 of
        None \<Rightarrow> Panic ''nil pointer dereference''
      | Some fracInt \<Rightarrow> Ret (truncInt + fracInt)))"

definition WeiToEther :: "int \<Rightarrow> bigfloat" where
  "WeiToEther wei = BF 236 (rnd 236 None (rnd 236 None (of_int wei) / of_int params_Ether))"

subsection \<open>Text round trip\<close>

lemma digit_char:
  assumes "0 \<le> d" "d < (10 :: int)"
  shows "dec_value (char_of (48 + d)) = Some d" "char_of (48 + d) \<noteq> dot"
proof -
  have v: "of_char (char_of (48 + d)) = (48 + d :: int)" using assms by (simp add: of_char_of)
  then show "dec_value (char_of (48 + d)) = Some d" using assms by (simp add: dec_value_def)
  have "(of_char dot :: int) = 46" by (simp add: dot_def)
  with v assms show "char_of (48 + d) \<noteq> dot" by fastforce
qed

lemma length_dec_pad [simp]: "length (dec_pad k n) = k"
  by (induction k arbitrary: n) auto

lemma parse_dec_append: "parse_dec (s @ t) acc = (case parse_dec s acc of None \<Rightarrow> None | Some v \<Rightarrow> parse_dec t v)"
  by (induction s arbitrary: acc) (auto split: option.splits)

lemma parse_dec_pad:
  "0 \<le> n \<Longrightarrow> n < 10 ^ k \<Longrightarrow> parse_dec (dec_pad k n) acc = Some (acc * 10 ^ k + n)"
proof (induction k arbitrary: n)
  case 0
  then show ?case by simp
next
  case (Suc k)
  have "n div 10 < 10 ^ k" "0 \<le> n div 10" using Suc.prems by (auto simp: div_less_iff_less_mult mult.commute)
  note IH = Suc.IH [OF this(2,1)]
  have "0 \<le> n mod 10" "n mod 10 < 10" by simp_all
  note d = digit_char(1) [OF this]
  have "10 * (n div 10) + n mod 10 = n" by simp
  then show ?case using IH d by (simp add: parse_dec_append algebra_simps)
qed

lemma parse_dec_digits: "0 \<le> n \<Longrightarrow> parse_dec (digits n) 0 = Some n"
proof (induction n rule: digits.induct)
  case (1 n)
  then show ?case using digit_char(1) [of n] digit_char(1) [of "n mod 10"] by (subst digits.simps) (auto simp: parse_dec_append)
qed

lemma dec_pad_no_dot: "0 \<le> n \<Longrightarrow> dot \<notin> set (dec_pad k n)"
proof (induction k arbitrary: n)
  case (Suc k)
  then show ?case using digit_char(2) [of "n mod 10"] by auto
qed simp

lemma digits_no_dot: "0 \<le> n \<Longrightarrow> dot \<notin> set (digits n)"
proof (induction n rule: digits.induct)
  case (1 n)
  then show ?case using digit_char(2) [of n] digit_char(2) [of "n mod 10"]
    by (subst digits.simps) auto
qed

lemma Split1_no_sep: "sep \<notin> set s \<Longrightarrow> Split1 s sep = [s]"
  by (induction s) auto

lemma Split1_append: "sep \<notin> set s \<Longrightarrow> Split1 (s @ sep # t) sep = s # Split1 t sep"
  by (induction s) auto

lemma EtherToWei_value:
  assumes "0 \<le> x"
  shows "EtherToWei (BF p x) = Ret (\<lfloor>x\<rfloor> * 10 ^ 18 + rne (x * 10 ^ 18) mod 10 ^ 18)"
proof -
  let ?n = "rne (x * 10 ^ 18)"
  have n: "0 \<le> ?n" using int_le_rne [of 0] assms by simp
  have "format_f18 x = digits (?n div 10 ^ 18) @ dot # dec_pad 18 (?n mod 10 ^ 18)"
    using assms by (simp add: format_f18_def Let_def)
  then have "Split1 (format_f18 x) dot = [digits (?n div 10 ^ 18), dec_pad 18 (?n mod 10 ^ 18)]"
    using digits_no_dot [of "?n div 10 ^ 18"] dec_pad_no_dot [of "?n mod 10 ^ 18" 18] n
    by (simp add: Split1_append Split1_no_sep)
  moreover have "parse_dec (dec_pad 18 (?n mod 10 ^ 18)) 0 = Some (?n mod 10 ^ 18)"
    using parse_dec_pad [of "?n mod 10 ^ 18" 18 0] by simp
  ultimately show ?thesis using assms by (simp add: go_index_def trunc_nonneg params_Ether_def)
qed

lemma rne_unique: "\<bar>x - of_int n\<bar> < 1 / 2 \<Longrightarrow> rne x = n"
proof -
  assume a: "\<bar>x - of_int n\<bar> < 1 / 2"
  have "\<bar>of_int (rne x) - (of_int n :: rat)\<bar> < 1" using rne_error [of x] a by linarith
  then have "\<bar>of_int (rne x - n) :: rat\<bar> < 1" by simp
  then show ?thesis by linarith
qed

lemma ether_error:
  assumes q: "0 < q" "q < 2 ^ 150"
  shows "\<bar>rnd 236 None q - q\<bar> \<le> 1 / 2 ^ 80"
proof -
  have "(2 :: rat) powi flog2 q < 2 powi 150" using flog2_bounds(1) [OF q(1)] q(2) by simp
  from powi2_less_cancel [OF this] have "qexp 236 None q \<le> - 85" by (simp add: qexp_def)
  then have "(2 :: rat) powi qexp 236 None q \<le> 2 powi (- 85)" by (rule powi2_mono)
  also have "(2 :: rat) powi (- 85) = 1 / 2 ^ 85" by (simp add: power_int_def power_one_over)
  finally show ?thesis using rnd_error [OF q(1), of 236 None] by simp
qed

lemma WeiToEther_near:
  assumes n: "0 \<le> n" "n < 2 ^ 200"
  shows "\<exists>x. WeiToEther n = BF 236 x \<and> 0 \<le> x \<and> \<bar>x - of_int n / 10 ^ 18\<bar> \<le> 1 / 2 ^ 80 \<and>
    (n mod 10 ^ 18 = 0 \<longrightarrow> x = of_int (n div 10 ^ 18))"
proof -
  have lt: "n < 2 ^ 236" using n(2) by (rule less_trans) simp
  have exact: "rnd 236 None (of_int n) = of_int n" by (rule rnd_of_int) (use n lt in simp_all)
  define q where "q = (of_int n / 10 ^ 18 :: rat)"
  have w: "WeiToEther n = BF 236 (rnd 236 None q)" by (simp add: WeiToEther_def exact q_def params_Ether_def)
  have "(of_int n :: rat) < of_int (2 ^ 200)" using n(2) by (simp only: of_int_less_iff)
  then have qb: "0 \<le> q" "q < 2 ^ 150" using n(1) by (simp_all add: q_def)
  have e: "\<bar>rnd 236 None q - q\<bar> \<le> 1 / 2 ^ 80"
    using ether_error [of q] qb by (cases "q = 0") simp_all
  have x: "0 \<le> rnd 236 None q" using rnd_mono [OF qb(1), of 236 None] by simp
  have "rnd 236 None q = of_int (n div 10 ^ 18)" if "n mod 10 ^ 18 = 0"
  proof -
    have "n = n div 10 ^ 18 * 10 ^ 18" using that by (metis add.right_neutral div_mult_mod_eq)
    then have "of_int n = (of_int (n div 10 ^ 18 * 10 ^ 18) :: rat)" by simp
    then have "q = of_int (n div 10 ^ 18)" by (simp add: q_def)
    moreover have "\<bar>n div 10 ^ 18\<bar> < 2 ^ 236"
    proof -
      have "n div 10 ^ 18 \<le> n div 1" using n(1) by (intro zdiv_mono2) simp_all
      then show ?thesis using lt n(1) by (simp add: pos_imp_zdiv_nonneg_iff)
    qed
    ultimately show ?thesis using rnd_of_int [of "n div 10 ^ 18" 236 None] by simp
  qed
  with w e x show ?thesis unfolding q_def by blast
qed

text \<open>
  C34. Converting an amount of wei to ether and back gives the amount again, for every amount below \<open>2 ^ 200\<close> wei,
  although the intermediate value is binary and rounded.
\<close>

theorem wei_ether_roundtrip:
  assumes n: "0 \<le> n" "n < 2 ^ 200"
  shows "EtherToWei (WeiToEther n) = Ret n"
proof -
  let ?k = "n div 10 ^ 18" and ?r = "n mod 10 ^ 18"
  obtain x where w: "WeiToEther n = BF 236 x" and x: "0 \<le> x"
    and near: "\<bar>x - of_int n / 10 ^ 18\<bar> \<le> 1 / 2 ^ 80" and whole: "?r = 0 \<longrightarrow> x = of_int ?k"
    using WeiToEther_near [OF n] by blast
  have "\<bar>x * 10 ^ 18 - of_int n\<bar> = \<bar>x - of_int n / 10 ^ 18\<bar> * 10 ^ 18"
  proof -
    have "x * 10 ^ 18 - of_int n = (x - of_int n / 10 ^ 18) * 10 ^ 18" by (simp add: left_diff_distrib)
    then show ?thesis by (simp only: abs_mult) simp
  qed
  also have "\<dots> \<le> 1 / 2 ^ 80 * 10 ^ 18" using near by (intro mult_right_mono) simp_all
  also have "\<dots> < 1 / 2" by simp
  finally have rne: "rne (x * 10 ^ 18) = n" by (rule rne_unique)
  have "\<lfloor>x\<rfloor> = ?k"
  proof (cases "?r = 0")
    case True
    with whole show ?thesis by simp
  next
    case False
    have split: "(of_int n :: rat) = of_int ?k * 10 ^ 18 + of_int ?r"
    proof -
      have "of_int n = (of_int (?k * 10 ^ 18 + ?r) :: rat)" by (simp only: div_mult_mod_eq)
      also have "\<dots> = of_int ?k * of_int (10 ^ 18) + of_int ?r" by (simp only: of_int_add of_int_mult)
      also have "(of_int (10 ^ 18) :: rat) = 10 ^ 18" by simp
      finally show ?thesis .
    qed
    have "0 \<le> ?r" "?r < 10 ^ 18" by simp_all
    with False have "1 \<le> ?r" "?r \<le> 10 ^ 18 - 1" by linarith+
    then have "(of_int 1 :: rat) \<le> of_int ?r" "(of_int ?r :: rat) \<le> of_int (10 ^ 18 - 1)" by (simp_all only: of_int_le_iff)
    then have r: "(1 :: rat) \<le> of_int ?r" "(of_int ?r :: rat) \<le> 10 ^ 18 - 1" by simp_all
    have q: "of_int n / 10 ^ 18 = (of_int ?k + of_int ?r / 10 ^ 18 :: rat)" using split by (simp add: field_simps)
    have "1 / 10 ^ 18 \<le> (of_int ?r :: rat) / 10 ^ 18" "(of_int ?r :: rat) / 10 ^ 18 \<le> 1 - 1 / 10 ^ 18"
      using r by (simp_all add: field_simps)
    moreover have "(1 :: rat) / 2 ^ 80 < 1 / 10 ^ 18" by simp
    ultimately have "of_int ?k \<le> x" "x < of_int ?k + 1" using near unfolding q abs_le_iff by linarith+
    then show ?thesis by (simp add: floor_unique)
  qed
  then show ?thesis unfolding w EtherToWei_value [OF x] rne by simp
qed

theorem wei_ether_roundtrip_witness: "EtherToWei (WeiToEther 1500000000000000001) = Ret 1500000000000000001"
  using wei_ether_roundtrip [of 1500000000000000001] by simp

text \<open>
  \<open>EtherToWei\<close> takes the whole ethers and the 18 rounded decimals separately, so an amount whose decimals
  round up to the next ether loses that ether: just below 1 ether becomes 0 wei.
\<close>

theorem EtherToWei_carry_lost:
  assumes "0 \<le> x" and "rne (x * 10 ^ 18) = (\<lfloor>x\<rfloor> + 1) * 10 ^ 18"
  shows "EtherToWei (BF p x) = Ret (rne (x * 10 ^ 18) - 10 ^ 18)"
  unfolding EtherToWei_value [OF assms(1)] assms(2) by (simp add: algebra_simps)

theorem EtherToWei_carry_lost_witness: "EtherToWei (BF 64 (1 - 1 / 2 ^ 64)) = Ret 0"
proof -
  have f: "\<lfloor>1 - 1 / 2 ^ 64 :: rat\<rfloor> = 0" "rne ((1 - 1 / 2 ^ 64) * 10 ^ 18) = 10 ^ 18" by code_simp+
  then show ?thesis using EtherToWei_carry_lost [of "1 - 1 / 2 ^ 64" 64] by simp
qed

end
