(* ===== verification/Durations.thy ===== *)
theory Durations
  imports Config Ether_Units
begin

text \<open>
  \<open>time.ParseDuration\<close> of the standard library, on which the durations of \<^verbatim>\<open>src/util.go\<close> rest, and their JSON form. The theorem:
  every way to write a duration reads back as the same duration, and none reads as a negative one.
\<close>

subsection \<open>Reading a duration\<close>

text \<open>Leading digits, with the overflow checks, and leading digits of a fraction with their scale.\<close>

fun leadingInt :: "string \<Rightarrow> int \<Rightarrow> (int \<times> string) option" where
  "leadingInt [] x = Some (x, [])"
| "leadingInt (c # s) x =
     (case dec_value c of
        None \<Rightarrow> Some (x, c # s)
      | Some v \<Rightarrow> if 2 ^ 63 div 10 < x \<or> 2 ^ 63 < x * 10 + v then None else leadingInt s (x * 10 + v))"

fun leadingFraction :: "string \<Rightarrow> int \<Rightarrow> float64 \<Rightarrow> bool \<Rightarrow> int \<times> float64 \<times> string" where
  "leadingFraction [] x scale overflow = (x, scale, [])"
| "leadingFraction (c # s) x scale overflow =
     (case dec_value c of
        None \<Rightarrow> (x, scale, c # s)
      | Some v \<Rightarrow>
          if overflow \<or> (2 ^ 63 - 1) div 10 < x \<or> 2 ^ 63 < x * 10 + v then leadingFraction s x scale True
          else leadingFraction s (x * 10 + v) (fmul scale (Fin 10)) False)"

definition unitMap :: "string \<Rightarrow> int option" where
  "unitMap u =
     (if u = ''ns'' then Some 1
      else if u = ''us'' \<or> u = [char_of (194 :: nat), char_of (181 :: nat), CHR ''s''] \<or> u = [char_of (206 :: nat), char_of (188 :: nat), CHR ''s'']
      then Some 1000
      else if u = ''ms'' then Some 1000000
      else if u = ''s'' then Some 1000000000
      else if u = ''m'' then Some 60000000000
      else if u = ''h'' then Some 3600000000000
      else None)"

text \<open>A number with a unit: its nanoseconds and the rest of the text.\<close>

definition numeric :: "char \<Rightarrow> bool" where
  "numeric c \<longleftrightarrow> c = dot \<or> dec_value c \<noteq> None"

definition quote_text :: "string \<Rightarrow> string" where
  "quote_text s = CHR 0x22 # s @ [CHR 0x22]"

definition invalid_duration :: "string \<Rightarrow> goerr" where
  "invalid_duration orig = ErrNew (''time: invalid duration '' @ quote_text orig)"

definition parse_fraction :: "string \<Rightarrow> int \<times> float64 \<times> string \<times> bool" where
  "parse_fraction s =
     (case s of
        c # s' \<Rightarrow>
          if c = dot then let (f, scale, rest) = leadingFraction s' 0 (Fin 1) False in (f, scale, rest, length rest \<noteq> length s')
          else (0, Fin 1, s, False)
      | [] \<Rightarrow> (0, Fin 1, s, False))"

definition parse_component :: "string \<Rightarrow> string \<Rightarrow> (int \<times> string) res" where
  "parse_component orig s =
     (if s = [] \<or> \<not> numeric (hd s) then Inl (invalid_duration orig)
      else case leadingInt s 0 of
        None \<Rightarrow> Inl (invalid_duration orig)
      | Some (v, s1) \<Rightarrow>
          (let (f, scale, s2, post) = parse_fraction s1; u = takeWhile (\<lambda>c. \<not> numeric c) s2; rest = dropWhile (\<lambda>c. \<not> numeric c) s2 in
           if length s1 = length s \<and> \<not> post then Inl (invalid_duration orig)
           else if u = [] then Inl (ErrNew (''time: missing unit in duration '' @ quote_text orig))
           else case unitMap u of
             None \<Rightarrow> Inl (ErrNew (''time: unknown unit '' @ quote_text u @ '' in duration '' @ quote_text orig))
           | Some unit \<Rightarrow>
               if 2 ^ 63 div unit < v then Inl (invalid_duration orig)
               else
                 (let v' = (if 0 < f then uint64 (v * unit + int64_of_float (fmul (float_of_int f) (fdiv (float_of_int unit) scale))) else v * unit) in
                  if 2 ^ 63 < v' then Inl (invalid_duration orig) else Inr (v', rest))))"

lemma leadingInt_shorter: "leadingInt s x = Some (v, r) \<Longrightarrow> length r \<le> length s"
  by (induction s x rule: leadingInt.induct) (auto split: option.splits if_splits)

lemma leadingFraction_shorter: "leadingFraction s x sc ov = (f, sc', r) \<Longrightarrow> length r \<le> length s"
  by (induction s x sc ov rule: leadingFraction.induct) (auto split: option.splits if_splits)

lemma parse_fraction_shorter: "parse_fraction s = (f, sc, r, post) \<Longrightarrow> length r \<le> length s"
  using leadingFraction_shorter by (fastforce simp: parse_fraction_def split: list.splits if_splits prod.splits)

lemma parse_component_shorter: "parse_component orig s = Inr (v, rest) \<Longrightarrow> length rest < length s"
proof -
  assume "parse_component orig s = Inr (v, rest)"
  then obtain v0 s1 f sc s2 post where s1: "leadingInt s 0 = Some (v0, s1)" and s2: "parse_fraction s1 = (f, sc, s2, post)"
    and u: "takeWhile (\<lambda>c. \<not> numeric c) s2 \<noteq> []" and rest: "rest = dropWhile (\<lambda>c. \<not> numeric c) s2"
    by (auto simp: parse_component_def Let_def split: if_splits option.splits prod.splits)
  have "length s2 = length (takeWhile (\<lambda>c. \<not> numeric c) s2) + length rest"
    by (metis rest length_append takeWhile_dropWhile_id)
  moreover have "0 < length (takeWhile (\<lambda>c. \<not> numeric c) s2)" using u by simp
  ultimately show ?thesis using leadingInt_shorter [OF s1] parse_fraction_shorter [OF s2] by linarith
qed

function parse_components :: "string \<Rightarrow> string \<Rightarrow> int \<Rightarrow> int res" where
  "parse_components orig s d =
     (if s = [] then Inr d
      else case parse_component orig s of
        Inl err \<Rightarrow> Inl err
      | Inr (v, rest) \<Rightarrow>
          if 2 ^ 63 < uint64 (d + v) then Inl (invalid_duration orig) else parse_components orig rest (uint64 (d + v)))"
  by pat_completeness auto
termination
  by (relation "measure (\<lambda>(orig, s, d). length s)") (auto dest: parse_component_shorter)

declare parse_components.simps [simp del]

definition time_ParseDuration :: "string \<Rightarrow> int res" where
  "time_ParseDuration orig =
     (let neg = HasPrefix orig ''-''; s = (if neg \<or> HasPrefix orig ''+'' then drop 1 orig else orig) in
      if s = ''0'' then Inr 0
      else if s = [] then Inl (invalid_duration orig)
      else case parse_components orig s 0 of
        Inl err \<Rightarrow> Inl err
      | Inr d \<Rightarrow> if neg then Inr (- d) else if 2 ^ 63 - 1 < d then Inl (invalid_duration orig) else Inr d)"

subsection \<open>JSON\<close>

text \<open>\<open>json.Marshal\<close> and \<open>json.Unmarshal\<close> on strings are arguments.\<close>

definition Duration_MarshalJSON :: "(string \<Rightarrow> string) \<Rightarrow> Duration \<Rightarrow> string" where
  "Duration_MarshalJSON jsonMarshal d = jsonMarshal (Duration_String d)"

definition Duration_UnmarshalJSON :: "(string \<Rightarrow> string res) \<Rightarrow> string \<Rightarrow> Duration \<Rightarrow> Duration \<times> goerr option" where
  "Duration_UnmarshalJSON jsonUnmarshal input d =
     (case jsonUnmarshal input of
        Inl err \<Rightarrow> (d, Some err)
      | Inr txt \<Rightarrow>
          (case time_ParseDuration txt of
             Inl err \<Rightarrow> (d, Some err)
           | Inr v \<Rightarrow> (case MakeDuration v of Inl err \<Rightarrow> (\<lparr>D = 0\<rparr>, Some err) | Inr d' \<Rightarrow> (d', None))))"

subsection \<open>Reading back\<close>

lemma numeric_digit [simp]: "0 \<le> d \<Longrightarrow> d < 10 \<Longrightarrow> numeric (char_of (48 + d :: int))"
  by (simp add: numeric_def digit_char)

lemma digits_numeric: "0 \<le> n \<Longrightarrow> numeric (hd (digits n)) \<and> dec_value (hd (digits n)) \<noteq> None"
proof (induction n rule: digits.induct)
  case (1 n)
  then show ?case by (subst (1 2) digits.simps) (auto simp: digit_char numeric_def hd_append)
qed

lemma leadingInt_digits: "0 \<le> v \<Longrightarrow> v \<le> 2 ^ 63 \<Longrightarrow> leadingInt (digits v @ t) 0 = leadingInt t v"
proof (induction v arbitrary: t rule: digits.induct)
  case (1 v)
  show ?case
  proof (cases "v < 10")
    case True
    then show ?thesis using 1 by (subst digits.simps) (simp add: digit_char)
  next
    case False
    have "v div 10 \<le> 2 ^ 63 div 10" using 1 by (intro zdiv_mono1) simp_all
    then show ?thesis using 1 False digit_char(1) [of "v mod 10"] by (subst digits.simps) simp
  qed
qed

lemma leadingInt_stop: "t = [] \<or> dec_value (hd t) = None \<Longrightarrow> leadingInt t v = Some (v, t)"
  by (cases t) auto

lemma fl_pow10: "k \<le> 15 \<Longrightarrow> fl (10 ^ k) = Fin (10 ^ k)"
proof -
  assume "k \<le> 15"
  then have "(10 :: int) ^ k \<le> 10 ^ 15" by (intro power_increasing) auto
  then have "\<bar>(10 :: int) ^ k\<bar> < 2 ^ 53" by simp
  from float_of_int_exact [OF this] show ?thesis by (simp add: float_of_int_def)
qed

lemma leadingFraction_digits:
  assumes "parse_dec ds x = Some y" "0 \<le> x" "x < 10 ^ k" "k + length ds \<le> 15" "t = [] \<or> dec_value (hd t) = None"
  shows "leadingFraction (ds @ t) x (Fin (10 ^ k)) False = (y, Fin (10 ^ (k + length ds)), t)"
  using assms
proof (induction ds arbitrary: x k)
  case Nil
  then show ?case by (cases t) auto
next
  case (Cons c ds)
  obtain v where v: "dec_value c = Some v" using Cons.prems(1) by (auto split: option.splits)
  then have v10: "0 \<le> v" "v < 10" by (auto simp: dec_value_def Let_def split: if_splits)
  have "(10 :: int) ^ Suc k \<le> 10 ^ 15" using Cons.prems(4) by (intro power_increasing) auto
  moreover have x: "x * 10 + v < 10 ^ Suc k" using Cons.prems(3) v10 by simp
  ultimately have small: "x * 10 + v < 10 ^ 15" by linarith
  have "fmul (Fin (10 ^ k)) (Fin 10) = Fin (10 ^ Suc k)" using fl_pow10 [of "Suc k"] Cons.prems(4) by (simp add: mult.commute)
  then show ?case using Cons.IH [of "x * 10 + v" "Suc k"] Cons.prems v v10 x small by (simp add: mult.commute)
qed

lemma length_digits: "0 \<le> n \<Longrightarrow> n < 10 ^ Suc k \<Longrightarrow> length (digits n) \<le> Suc k"
proof (induction k arbitrary: n)
  case (Suc k)
  have "n div 10 < 10 ^ Suc k" using Suc.prems by (simp add: div_less_iff_less_mult)
  with Suc.IH [of "n div 10"] Suc.prems show ?case by (subst digits.simps) simp
qed (simp add: digits.simps)

lemma dec_value_zero [simp]: "dec_value (CHR ''0'') = Some 0"
  by (simp add: dec_value_def)

lemma parse_dec_zeros: "parse_dec (replicate k (CHR ''0'')) x = Some (x * 10 ^ k)"
  by (induction k arbitrary: x) simp_all

lemma trailing_split: "\<exists>z. p = rev (dropWhile (\<lambda>c. c = a) (rev p)) @ replicate z a"
proof (induction p rule: rev_induct)
  case (snoc x xs)
  show ?case
  proof (cases "x = a")
    case True
    from snoc obtain z where "xs = rev (dropWhile (\<lambda>c. c = a) (rev xs)) @ replicate z a" by blast
    then have "xs @ [x] = rev (dropWhile (\<lambda>c. c = a) (rev (xs @ [x]))) @ replicate (Suc z) a"
      using True by (simp add: replicate_append_same [symmetric] del: replicate_append_same)
    then show ?thesis by blast
  qed (auto intro: exI [of _ 0])
qed simp

lemma duration_frac_text:
  assumes "0 \<le> u"
  shows "duration_frac u (Suc k) = [] \<and> u mod 10 ^ Suc k = 0 \<or>
    (\<exists>ds y. duration_frac u (Suc k) = dot # ds \<and> ds \<noteq> [] \<and> parse_dec ds 0 = Some y \<and> length ds \<le> Suc k \<and> y * 10 ^ (Suc k - length ds) = u mod 10 ^ Suc k)"
proof -
  let ?f = "u mod 10 ^ Suc k"
  let ?p = "replicate (Suc k - length (digits ?f)) (CHR ''0'') @ digits ?f"
  define ds where "ds = rev (dropWhile (\<lambda>c. c = CHR ''0'') (rev ?p))"
  have f: "0 \<le> ?f" "?f < 10 ^ Suc k" by simp_all
  obtain z where p: "?p = ds @ replicate z (CHR ''0'')" using trailing_split [of ?p "CHR ''0''"] unfolding ds_def by blast
  have len: "length ?p = Suc k" using length_digits [OF f] by simp
  have "parse_dec ?p 0 = Some ?f" using parse_dec_digits [OF f(1)] by (simp add: parse_dec_append parse_dec_zeros)
  then obtain y where y: "parse_dec ds 0 = Some y" "y * 10 ^ z = ?f"
    unfolding p by (auto simp: parse_dec_append parse_dec_zeros split: option.splits)
  have z: "length ds + z = Suc k" using len unfolding p by simp
  have "duration_frac u (Suc k) = (if ds = [] then [] else dot # ds)"
    unfolding duration_frac_def Let_def ds_def [symmetric] by (simp add: dot_def)
  moreover have "z = Suc k - length ds" using z by simp
  ultimately show ?thesis using y z by (cases "ds = []") (auto simp: dot_def)
qed

lemma fraction_nanoseconds:
  assumes "y * 10 ^ (k - n) = f" "n \<le> k" "k \<le> 9" "0 \<le> f" "f < 10 ^ k" "0 \<le> y"
  shows "int64_of_float (fmul (float_of_int y) (fdiv (float_of_int (10 ^ k)) (Fin (10 ^ n)))) = f"
proof -
  have "(10 :: int) ^ k \<le> 10 ^ 9" using assms(3) by (intro power_increasing) auto
  then have f: "f < 10 ^ 9" using assms(5) by linarith
  have "y * 1 \<le> y * 10 ^ (k - n)" using assms(6) by (intro mult_left_mono) auto
  then have y: "y < 10 ^ 9" using f assms(1) by linarith
  have u: "float_of_int (10 ^ k) = Fin (10 ^ k)" using \<open>10 ^ k \<le> 10 ^ 9\<close> by (subst float_of_int_exact) simp_all
  have "(10 :: rat) ^ k / 10 ^ n = 10 ^ (k - n)" using assms(2) by (simp add: power_diff)
  then have d: "fdiv (float_of_int (10 ^ k)) (Fin (10 ^ n)) = Fin (10 ^ (k - n))" using fl_pow10 [of "k - n"] assms(3) by (simp add: u)
  have "fmul (float_of_int y) (Fin (10 ^ (k - n))) = float_of_int f"
    using y assms(1,6) by (subst float_of_int_exact) (auto simp: float_of_int_def simp flip: assms(1))
  then show ?thesis using f assms(4) by (simp add: d float_of_int_exact trunc_def)
qed

lemma parse_fraction_plain: "hd t \<noteq> dot \<Longrightarrow> parse_fraction t = (0, Fin 1, t, False)"
  by (cases t) (auto simp: parse_fraction_def)

lemma parse_dec_nonneg: "parse_dec ds x = Some y \<Longrightarrow> 0 \<le> x \<Longrightarrow> 0 \<le> y"
  by (induction ds x rule: parse_dec.induct) (auto simp: dec_value_def Let_def split: option.splits if_splits)

lemma parse_fraction_text:
  assumes u: "0 \<le> u" and k: "k = 0 \<or> U = 10 ^ k \<and> k \<le> 9" and t: "hd t \<noteq> dot" "dec_value (hd t) = None"
  obtains f sc post where "parse_fraction (duration_frac u k @ t) = (f, sc, t, post)" "0 \<le> f" "f = 0 \<longrightarrow> u mod 10 ^ k = 0"
    "0 < f \<longrightarrow> int64_of_float (fmul (float_of_int f) (fdiv (float_of_int U) sc)) = u mod 10 ^ k"
    "dec_value (hd (duration_frac u k @ t)) = None"
proof (cases "duration_frac u k")
  case Nil
  have "u mod 10 ^ k = 0" using Nil duration_frac_text [OF u, of "k - 1"] by (cases k) auto
  then show ?thesis using that [of 0 "Fin 1" False] Nil parse_fraction_plain t by simp
next
  case (Cons c ds)
  then have k0: "k = Suc (k - 1)" by (cases k) (simp_all add: duration_frac_def)
  obtain y where c: "c = dot" and y: "parse_dec ds 0 = Some y" "length ds \<le> k" "y * 10 ^ (k - length ds) = u mod 10 ^ k" and ds: "ds \<noteq> []"
    using duration_frac_text [OF u, of "k - 1"] Cons k0 by auto
  have U: "U = 10 ^ k" "k \<le> 9" using k k0 by auto
  have lead: "leadingFraction (ds @ t) 0 (Fin 1) False = (y, Fin (10 ^ length ds), t)"
    using leadingFraction_digits [OF y(1), of 0 t] y(2) U(2) t(2) by simp
  have y0: "0 \<le> y" using parse_dec_nonneg [OF y(1)] by simp
  have "int64_of_float (fmul (float_of_int y) (fdiv (float_of_int U) (Fin (10 ^ length ds)))) = u mod 10 ^ k"
    unfolding U(1) by (rule fraction_nanoseconds [OF y(3) y(2) U(2) _ _ y0]) simp_all
  moreover have "y = 0 \<longrightarrow> u mod 10 ^ k = 0" using y(3) by auto
  ultimately show ?thesis
    using that [of y "Fin (10 ^ length ds)" True] lead c Cons ds y y0 by (auto simp: parse_fraction_def dec_value_def dot_def)
qed

lemma parse_component_step:
  assumes v: "0 \<le> v" and u: "0 \<le> u" and k: "k = 0 \<or> U = 10 ^ k \<and> k \<le> 9"
    and ut: "unitMap ut = Some U" "0 < U" "ut \<noteq> []" "\<forall>c \<in> set ut. \<not> numeric c" and rest: "rest = [] \<or> numeric (hd rest)"
    and bound: "v * U + u mod 10 ^ k \<le> 2 ^ 63"
  shows "parse_component orig (digits v @ duration_frac u k @ ut @ rest) = Inr (v * U + u mod 10 ^ k, rest)"
proof -
  let ?t = "duration_frac u k @ ut @ rest"
  have vU: "v * U \<le> 2 ^ 63" using bound u by (smt (verit) pos_mod_sign zero_less_power)
  then have v63: "v \<le> 2 ^ 63 div U" using zdiv_mono1 [OF vU ut(2)] ut(2) by simp
  have "v * 1 \<le> v * U" using v ut(2) by (intro mult_left_mono) simp_all
  then have v63': "v \<le> 2 ^ 63" using vU by linarith
  have unit: "takeWhile (\<lambda>c. \<not> numeric c) (ut @ rest) = ut" "dropWhile (\<lambda>c. \<not> numeric c) (ut @ rest) = rest"
    using ut(4) rest by (cases rest; auto simp: takeWhile_append2 dropWhile_append2)+
  have hd_ut: "hd (ut @ rest) \<noteq> dot" "dec_value (hd (ut @ rest)) = None" using ut(3,4) by (auto simp: numeric_def hd_append)
  obtain f sc post where frac: "parse_fraction ?t = (f, sc, ut @ rest, post)"
    and f: "0 \<le> f" "f = 0 \<longrightarrow> u mod 10 ^ k = 0" "0 < f \<longrightarrow> int64_of_float (fmul (float_of_int f) (fdiv (float_of_int U) sc)) = u mod 10 ^ k"
    and stop: "dec_value (hd ?t) = None"
    by (rule parse_fraction_text [OF u k hd_ut])
  have lead: "leadingInt (digits v @ ?t) 0 = Some (v, ?t)"
    using leadingInt_digits [OF v v63'] leadingInt_stop stop by simp
  have wrap: "uint64 (v * U + u mod 10 ^ k) = v * U + u mod 10 ^ k"
    using bound v ut(2) by (simp add: uint64_def)
  have "hd (digits v @ ?t) = hd (digits v)" by simp
  then show ?thesis
    using digits_numeric [OF v] lead frac f wrap bound v63 vU ut(1,3)
    by (simp add: not_less parse_component_def Let_def unit)
qed

lemma parse_components_step:
  assumes "0 \<le> v" "0 \<le> u" "k = 0 \<or> U = 10 ^ k \<and> k \<le> 9" "unitMap ut = Some U" "0 < U" "ut \<noteq> []" "\<forall>c \<in> set ut. \<not> numeric c"
    "rest = [] \<or> numeric (hd rest)" "d + v * U + u mod 10 ^ k \<le> 2 ^ 63" "0 \<le> d"
  shows "parse_components orig (digits v @ duration_frac u k @ ut @ rest) d = parse_components orig rest (d + v * U + u mod 10 ^ k)"
proof -
  have "0 \<le> v * U" "0 \<le> u mod 10 ^ k" using assms(1,2,5) by simp_all
  then have "uint64 (d + (v * U + u mod 10 ^ k)) = d + v * U + u mod 10 ^ k" using assms(9,10) by (simp add: uint64_id add.assoc)
  moreover have "v * U + u mod 10 ^ k \<le> 2 ^ 63" using assms(9,10) by linarith
  ultimately show ?thesis
    using parse_component_step [OF assms(1-8), of orig] assms(9)
    by (subst parse_components.simps) simp
qed

lemma units [simp]:
  "unitMap ''ns'' = Some 1" "unitMap [char_of (194 :: nat), char_of (181 :: nat), CHR ''s''] = Some 1000" "unitMap ''ms'' = Some 1000000"
  "unitMap ''s'' = Some 1000000000" "unitMap ''m'' = Some 60000000000" "unitMap ''h'' = Some 3600000000000"
  by code_simp+

lemma unit_chars [simp]:
  "\<not> numeric (CHR ''n'')" "\<not> numeric (CHR ''s'')" "\<not> numeric (char_of (194 :: nat))" "\<not> numeric (char_of (181 :: nat))" "\<not> numeric (CHR ''m'')"
  "\<not> numeric (CHR ''h'')"
  by code_simp+

lemma frac_0 [simp]: "duration_frac u 0 = []"
  by (simp add: duration_frac_def)

lemma parse_last:
  assumes "0 \<le> v" "0 \<le> u" "k = 0 \<or> U = 10 ^ k \<and> k \<le> 9" "unitMap ut = Some U" "0 < U" "ut \<noteq> []" "\<forall>c \<in> set ut. \<not> numeric c"
    "d + v * U + u mod 10 ^ k \<le> 2 ^ 63" "0 \<le> d"
  shows "parse_components orig (digits v @ duration_frac u k @ ut) d = Inr (d + v * U + u mod 10 ^ k)"
  using parse_components_step [OF assms(1-7) _ assms(8,9), of "[]" orig] by (simp add: parse_components.simps [of _ "[]"])

lemma parse_seconds:
  assumes "0 \<le> u" "d + (u div 1000000000 mod 60) * 1000000000 + u mod 1000000000 \<le> 2 ^ 63" "0 \<le> d"
  shows "parse_components orig (digits (u div 1000000000 mod 60) @ duration_frac u 9 @ ''s'') d = Inr (d + (u div 1000000000 mod 60) * 1000000000 + u mod 1000000000)"
  using parse_last [of "u div 1000000000 mod 60" u 9 "10 ^ 9" "''s''" d orig] assms by simp

lemma seconds_numeric: "0 \<le> u \<Longrightarrow> numeric (hd (digits (u div a mod 60) @ t))"
  using digits_numeric [of "u div a mod 60"] by simp

lemma parse_long:
  assumes u: "1000000000 \<le> u" "u \<le> 2 ^ 63"
  shows "parse_components orig (duration_abs_string u) 0 = Inr u"
proof -
  define secs mins hours where "secs = u div 1000000000" and "mins = secs div 60" and "hours = mins div 60"
  have eqs: "u = secs * 1000000000 + u mod 1000000000" "secs = 60 * mins + secs mod 60" "mins = 60 * hours + mins mod 60"
    by (simp_all add: secs_def mins_def hours_def)
  have pos: "0 \<le> u mod 1000000000" "0 \<le> secs mod 60" "0 \<le> mins mod 60" "0 \<le> hours" "0 \<le> u"
    using u by (simp_all add: secs_def mins_def hours_def pos_imp_zdiv_nonneg_iff)
  let ?s = "digits (secs mod 60) @ duration_frac u 9 @ ''s''"
  have s: "parse_components orig ?s d = Inr (d + (secs mod 60) * 1000000000 + u mod 1000000000)"
    if "d + (secs mod 60) * 1000000000 + u mod 1000000000 \<le> 2 ^ 63" "0 \<le> d" for d
    using parse_seconds [OF pos(5), of d orig] that by (simp add: secs_def)
  have m: "parse_components orig (digits (mins mod 60) @ ''m'' @ ?s) d = Inr (d + (mins mod 60) * 60000000000 + (secs mod 60) * 1000000000 + u mod 1000000000)"
    if "d + (mins mod 60) * 60000000000 + (secs mod 60) * 1000000000 + u mod 1000000000 \<le> 2 ^ 63" "0 \<le> d" for d
  proof -
    have n: "numeric (hd ?s)" using digits_numeric [OF pos(2)] by simp
    have "d + (mins mod 60) * 60000000000 \<le> 2 ^ 63" using that pos by linarith
    then have "parse_components orig (digits (mins mod 60) @ duration_frac u 0 @ ''m'' @ ?s) d = parse_components orig ?s (d + (mins mod 60) * 60000000000 + u mod 10 ^ 0)"
      using that n pos by (intro parse_components_step) simp_all
    then show ?thesis using s [of "d + (mins mod 60) * 60000000000"] that pos by simp
  qed
  have h: "parse_components orig (digits hours @ ''h'' @ digits (mins mod 60) @ ''m'' @ ?s) 0 = Inr u"
  proof -
    let ?m = "digits (mins mod 60) @ ''m'' @ ?s"
    have n: "numeric (hd ?m)" using digits_numeric [OF pos(3)] by simp
    have total: "hours * 3600000000000 + (mins mod 60) * 60000000000 + (secs mod 60) * 1000000000 + u mod 1000000000 = u" using eqs by linarith
    then have "hours * 3600000000000 \<le> 2 ^ 63" using u pos by linarith
    then have "parse_components orig (digits hours @ duration_frac u 0 @ ''h'' @ ?m) 0 = parse_components orig ?m (0 + hours * 3600000000000 + u mod 10 ^ 0)"
      using n pos by (intro parse_components_step) simp_all
    then show ?thesis using m [of "hours * 3600000000000"] total u pos by simp
  qed
  have shape: "duration_abs_string u = (if mins = 0 then ?s else if hours = 0 then digits (mins mod 60) @ ''m'' @ ?s
      else digits hours @ ''h'' @ digits (mins mod 60) @ ''m'' @ ?s)"
    using u(1) by (simp add: duration_abs_string_def Let_def secs_def mins_def hours_def)
  consider "mins = 0" | "mins \<noteq> 0" "hours = 0" | "mins \<noteq> 0" "hours \<noteq> 0" by blast
  then show ?thesis
  proof cases
    case 1
    then show ?thesis using s [of 0] eqs u by (simp add: shape)
  next
    case 2
    then show ?thesis using m [of 0] eqs u by (simp add: shape)
  next
    case 3
    then show ?thesis using h by (simp add: shape)
  qed
qed

lemma parse_duration_text:
  assumes u: "0 \<le> u" "u \<le> 2 ^ 63"
  shows "parse_components orig (duration_abs_string u) 0 = Inr u"
proof -
  consider "u = 0" | "0 < u" "u < 1000" | "1000 \<le> u" "u < 1000000" | "1000000 \<le> u" "u < 1000000000" | "1000000000 \<le> u" using u(1) by linarith
  then show ?thesis
  proof cases
    case 1
    have "digits 0 = ''0''" by code_simp
    with 1 parse_last [of 0 0 0 "10 ^ 9" "''s''" 0 orig] show ?thesis by (simp add: duration_abs_string_def)
  next
    case 2
    with parse_last [of u 0 0 1 "''ns''" 0 orig] u show ?thesis by (simp add: duration_abs_string_def)
  next
    case 3
    with parse_last [of "u div 10 ^ 3" u 3 "10 ^ 3" "[char_of (194 :: nat), char_of (181 :: nat), CHR ''s'']" 0 orig] u
    show ?thesis by (simp add: duration_abs_string_def)
  next
    case 4
    with parse_last [of "u div 10 ^ 6" u 6 "10 ^ 6" "''ms''" 0 orig] u show ?thesis by (simp add: duration_abs_string_def)
  qed (use parse_long u in blast)
qed

lemma duration_abs_shape:
  assumes "0 \<le> u"
  shows "numeric (hd (duration_abs_string u))" "last (duration_abs_string u) = CHR ''s''" "duration_abs_string u \<noteq> []"
proof -
  have "numeric (CHR ''0'')" by (simp add: numeric_def)
  moreover have "numeric (hd (digits v @ t))" if "0 \<le> v" for v t using digits_numeric [OF that] by simp
  ultimately show "numeric (hd (duration_abs_string u))"
    using assms by (simp add: duration_abs_string_def Let_def pos_imp_zdiv_nonneg_iff del: hd_append2)
  show "last (duration_abs_string u) = CHR ''s''" "duration_abs_string u \<noteq> []" by (simp_all add: duration_abs_string_def Let_def)
qed

lemma ParseDuration_of_string:
  assumes "- (2 ^ 63) \<le> d" "d < 2 ^ 63"
  shows "time_ParseDuration (duration_string d) = Inr d"
proof -
  let ?t = "duration_abs_string \<bar>d\<bar>"
  have t: "numeric (hd ?t)" "last ?t = CHR ''s''" "?t \<noteq> []" by (rule duration_abs_shape, simp)+
  have parse: "parse_components orig ?t 0 = Inr \<bar>d\<bar>" for orig using assms by (intro parse_duration_text) auto
  have no: "?t \<noteq> ''0''" using t(2) by auto
  have sign: "\<not> HasPrefix ?t ''-''" "\<not> HasPrefix ?t ''+''"
    using t(1,3) by (cases ?t; auto simp: HasPrefix_def numeric_def dec_value_def dot_def)+
  have written: "duration_string d = (if d < 0 then ''-'' @ ?t else ?t)" by (simp add: duration_string_def)
  show ?thesis using parse no t(3) sign assms by (auto simp: time_ParseDuration_def written Let_def HasPrefix_def)
qed

interpretation duration_text: codec Duration_MarshalText "Duration_UnmarshalText time_ParseDuration" "\<lambda>d. 0 \<le> D d \<and> D d < 2 ^ 63"
  by unfold_locales (simp add: Duration_UnmarshalText_def Duration_MarshalText_def ParseDuration_of_string MakeDuration_def)

text \<open>
  C40. A duration written as text, as JSON or as a database value reads back as the same duration, for every duration the type
  can hold, different durations have different texts, and a negative duration is never read.
\<close>

theorem durations_roundtrip:
  assumes d: "0 \<le> D d" "D d < 2 ^ 63" and json: "\<And>txt. jsonUnmarshal (jsonMarshal txt) = Inr txt"
  shows "Duration_UnmarshalText time_ParseDuration (Duration_MarshalText d) = Inr d \<and>
    Duration_UnmarshalJSON jsonUnmarshal (Duration_MarshalJSON jsonMarshal d) d0 = (d, None) \<and>
    ParseDuration time_ParseDuration (Duration_String d) = Inr d \<and> Duration_Scan (Inr (Duration_Value d)) = Inr d \<and>
    (\<forall>e. 0 \<le> D e \<and> D e < 2 ^ 63 \<longrightarrow> (Duration_MarshalText e = Duration_MarshalText d) = (e = d)) \<and>
    (\<forall>input r. Duration_UnmarshalText time_ParseDuration input = Inr r \<or> Duration_UnmarshalJSON jsonUnmarshal input d0 = (r, None) \<longrightarrow> 0 \<le> D r)"
proof -
  have parse: "time_ParseDuration (duration_string (D d)) = Inr (D d)" using d by (intro ParseDuration_of_string) auto
  have make: "MakeDuration (D d) = Inr d" using d by (simp add: MakeDuration_def)
  have "0 \<le> D r" if "Duration_UnmarshalText time_ParseDuration input = Inr r \<or> Duration_UnmarshalJSON jsonUnmarshal input d0 = (r, None)" for input r
    using that by (auto simp: Duration_UnmarshalText_def Duration_UnmarshalJSON_def res_bind_Inr_iff MakeDuration_Inr_iff split: sum.splits)
  then show ?thesis
    using duration_text.dec_enc [of d] duration_text.enc_inj [of _ d] d
    by (simp add: Duration_UnmarshalJSON_def Duration_MarshalJSON_def ParseDuration_def
        Duration_String_def Duration_Duration_def Duration_Scan_def Duration_Value_def parse make json)
qed

theorem durations_roundtrip_witness:
  "Duration_UnmarshalText time_ParseDuration (Duration_MarshalText \<lparr>D = 5000000000\<rparr>) = Inr \<lparr>D = 5000000000\<rparr> \<and>
   Duration_UnmarshalJSON Inr (Duration_MarshalJSON (\<lambda>txt. txt) \<lparr>D = 5000000000\<rparr>) \<lparr>D = 0\<rparr> = (\<lparr>D = 5000000000\<rparr>, None)"
  using durations_roundtrip [of "\<lparr>D = 5000000000\<rparr>" Inr "\<lambda>txt. txt" "\<lparr>D = 0\<rparr>"] by simp

end
