(* ===== verification/Client_Builder.thy ===== *)
theory Client_Builder
  imports Config
begin

text \<open>
  The fluent builder of \<^verbatim>\<open>src/client_builder.go\<close>. A builder is the configuration it is
  filling in. Its \<open>Network\<close> pointer and the first entry of \<open>Networks\<close> point to the same
  object, and most methods write the same fields through both. Durations given to
  \<open>MustMakeDuration\<close> panic when negative.
\<close>

definition default_network :: Network where
  "default_network = \<lparr>netName = DefaultNetworkName, URLs = [], EIP1559DynamicFees = True,
     netGasPrice = 1000000000, netGasFeeCap = 100000000000, netGasTipCap = 50000000000, netGasLimit = 0,
     TxnTimeout = Some \<lparr>D = 300000000000\<rparr>, DialTimeout = Some \<lparr>D = DefaultDialTimeout\<rparr>,
     TransferGasFee = 21000, netPrivateKeys = [], GasPriceEstimationEnabled = True,
     GasPriceEstimationBlocks = 200, GasPriceEstimationTxPriority = Priority_Standard, netChainID = []\<rparr>"

definition NewClientBuilder :: Config where
  "NewClientBuilder = \<lparr>net_store = [default_network], revertedTransactionsFile = [], ephemeral = False,
     ArtifactsDir = ''seth_artifacts'', EphemeralAddrs = Some 0, RootKeyFundsBuffer = Some 0, ABIDir = [],
     BINDir = [], ContractMapFile = [], SaveDeployedContractsMap = False, cfgNetwork = Some 0,
     cfgNetworks = [0],
     cfgNonceManager = Some \<lparr>KeySyncRateLimitSec = 10, KeySyncTimeout = Some \<lparr>D = 60000000000\<rparr>,
       KeySyncRetries = 3, KeySyncRetryDelay = Some \<lparr>D = 5000000000\<rparr>\<rparr>,
     TracingLevel = TracingLevel_Reverted, TraceOutputs = [TraceOutput_Console, TraceOutput_DOT],
     PendingNonceProtectionEnabled = False, ConfigDir = [], ExperimentsEnabled = [],
     CheckRpcHealthOnStart = True, cfgBlockStats = Some \<lparr>RPCRateLimit = 10\<rparr>,
     GasBump = Some \<lparr>Retries = 10, MaxGasPrice = 0, StrategyFn = None\<rparr>\<rparr>"

text \<open>
  The body shared by the methods that set fields of the network: write through
  \<open>c.config.Network\<close>, then either register it as the only network or write the same fields
  through \<open>c.config.Networks[0]\<close>.
\<close>

definition with_net :: "(Network \<Rightarrow> Network) \<Rightarrow> Config \<Rightarrow> Config go" where
  "with_net f c =
     go_bind (deref c (cfgNetwork c)) (\<lambda>_.
       let p = the (cfgNetwork c); c1 = upd_net p f c
       in if cfgNetworks c1 = [] then Ret (c1\<lparr>cfgNetworks := [p]\<rparr>)
          else go_bind (deref c1 (Some (hd (cfgNetworks c1)))) (\<lambda>_.
            Ret (upd_net (hd (cfgNetworks c1)) f c1)))"

definition WithRpcUrl :: "string \<Rightarrow> Config \<Rightarrow> Config go" where
  "WithRpcUrl url = with_net (\<lambda>n. n\<lparr>URLs := [url]\<rparr>)"

definition WithPrivateKeys :: "string list \<Rightarrow> Config \<Rightarrow> Config go" where
  "WithPrivateKeys pks = with_net (\<lambda>n. n\<lparr>netPrivateKeys := pks\<rparr>)"

definition WithNetworkName :: "string \<Rightarrow> Config \<Rightarrow> Config go" where
  "WithNetworkName name = with_net (\<lambda>n. n\<lparr>netName := name\<rparr>)"

definition WithGasPriceEstimations :: "bool \<Rightarrow> int \<Rightarrow> string \<Rightarrow> Config \<Rightarrow> Config go" where
  "WithGasPriceEstimations enabled estimationBlocks txPriority =
     with_net (\<lambda>n. n\<lparr>GasPriceEstimationEnabled := enabled, GasPriceEstimationBlocks := estimationBlocks,
       GasPriceEstimationTxPriority := txPriority\<rparr>)"

definition WithEIP1559DynamicFees :: "bool \<Rightarrow> Config \<Rightarrow> Config go" where
  "WithEIP1559DynamicFees enabled = with_net (\<lambda>n. n\<lparr>EIP1559DynamicFees := enabled\<rparr>)"

definition WithLegacyGasPrice :: "int \<Rightarrow> Config \<Rightarrow> Config go" where
  "WithLegacyGasPrice gasPrice = with_net (\<lambda>n. n\<lparr>netGasPrice := gasPrice\<rparr>)"

definition WithDynamicGasPrices :: "int \<Rightarrow> int \<Rightarrow> Config \<Rightarrow> Config go" where
  "WithDynamicGasPrices gasFeeCap gasTipCap =
     with_net (\<lambda>n. n\<lparr>netGasFeeCap := gasFeeCap, netGasTipCap := gasTipCap\<rparr>)"

definition WithTransferGasFee :: "int \<Rightarrow> Config \<Rightarrow> Config go" where
  "WithTransferGasFee gasFee = with_net (\<lambda>n. n\<lparr>TransferGasFee := gasFee\<rparr>)"

definition WithGasBumping :: "int \<Rightarrow> int \<Rightarrow> GasBumpStrategyFn option \<Rightarrow> Config \<Rightarrow> Config go" where
  "WithGasBumping retries maxGasPrice customBumpingStrategy c =
     Ret (c\<lparr>GasBump := Some \<lparr>Retries = retries, MaxGasPrice = maxGasPrice, StrategyFn = customBumpingStrategy\<rparr>\<rparr>)"

definition WithTransactionTimeout :: "int \<Rightarrow> Config \<Rightarrow> Config go" where
  "WithTransactionTimeout timeout c =
     go_bind (MustMakeDuration timeout) (\<lambda>d. with_net (\<lambda>n. n\<lparr>TxnTimeout := Some d\<rparr>) c)"

definition WithRpcDialTimeout :: "int \<Rightarrow> Config \<Rightarrow> Config go" where
  "WithRpcDialTimeout timeout c =
     go_bind (MustMakeDuration timeout) (\<lambda>d. with_net (\<lambda>n. n\<lparr>DialTimeout := Some d\<rparr>) c)"

definition WithEphemeralAddresses :: "int \<Rightarrow> int \<Rightarrow> Config \<Rightarrow> Config go" where
  "WithEphemeralAddresses ephemeralAddressCount rootKeyBufferAmount c =
     Ret (c\<lparr>EphemeralAddrs := Some ephemeralAddressCount, RootKeyFundsBuffer := Some rootKeyBufferAmount\<rparr>)"

definition WithTracing :: "string \<Rightarrow> string list \<Rightarrow> Config \<Rightarrow> Config go" where
  "WithTracing level outputs c = Ret (c\<lparr>TracingLevel := level, TraceOutputs := outputs\<rparr>)"

definition WithProtections :: "bool \<Rightarrow> bool \<Rightarrow> Config \<Rightarrow> Config go" where
  "WithProtections pendingNonceProtection nodeHealthStartupCheck c =
     Ret (c\<lparr>PendingNonceProtectionEnabled := pendingNonceProtection, CheckRpcHealthOnStart := nodeHealthStartupCheck\<rparr>)"

definition WithArtifactsFolder :: "string \<Rightarrow> Config \<Rightarrow> Config go" where
  "WithArtifactsFolder folder c = Ret (c\<lparr>ArtifactsDir := folder\<rparr>)"

definition WithNonceManager_cfg :: "int \<Rightarrow> int \<Rightarrow> int \<Rightarrow> int \<Rightarrow> Config \<Rightarrow> Config go" where
  "WithNonceManager_cfg rateLimitSec retries timeout retryDelay c =
     go_bind (MustMakeDuration timeout) (\<lambda>t.
     go_bind (MustMakeDuration retryDelay) (\<lambda>d.
       Ret (c\<lparr>cfgNonceManager := Some \<lparr>KeySyncRateLimitSec = rateLimitSec, KeySyncTimeout = Some t,
                KeySyncRetries = retries, KeySyncRetryDelay = Some d\<rparr>\<rparr>)))"

subsection \<open>A chain of calls\<close>

datatype builder_op =
    RpcUrl string
  | PrivKeys "string list"
  | NetworkName string
  | Estimations bool int string
  | DynamicFees bool
  | LegacyGasPrice int
  | DynamicGasPrices int int
  | TransferFee int
  | GasBumping int int "GasBumpStrategyFn option"
  | TransactionTimeout int
  | RpcDialTimeout int
  | EphemeralAddresses int int
  | Tracing string "string list"
  | Protections bool bool
  | ArtifactsFolder string
  | NonceSettings int int int int

fun call :: "builder_op \<Rightarrow> Config \<Rightarrow> Config go" where
  "call (RpcUrl u) = WithRpcUrl u"
| "call (PrivKeys ks) = WithPrivateKeys ks"
| "call (NetworkName n) = WithNetworkName n"
| "call (Estimations e b t) = WithGasPriceEstimations e b t"
| "call (DynamicFees e) = WithEIP1559DynamicFees e"
| "call (LegacyGasPrice g) = WithLegacyGasPrice g"
| "call (DynamicGasPrices f t) = WithDynamicGasPrices f t"
| "call (TransferFee f) = WithTransferGasFee f"
| "call (GasBumping r m s) = WithGasBumping r m s"
| "call (TransactionTimeout t) = WithTransactionTimeout t"
| "call (RpcDialTimeout t) = WithRpcDialTimeout t"
| "call (EphemeralAddresses e b) = WithEphemeralAddresses e b"
| "call (Tracing l os) = WithTracing l os"
| "call (Protections a b) = WithProtections a b"
| "call (ArtifactsFolder f) = WithArtifactsFolder f"
| "call (NonceSettings a b t d) = WithNonceManager_cfg a b t d"

fun call_all :: "builder_op list \<Rightarrow> Config \<Rightarrow> Config go" where
  "call_all [] c = Ret c"
| "call_all (x # xs) c = go_bind (call x c) (call_all xs)"

text \<open>The configuration \<open>DefaultClient\<close> builds.\<close>

definition DefaultClient_config :: "string \<Rightarrow> string list \<Rightarrow> Config go" where
  "DefaultClient_config rpcUrl privateKeys =
     go_bind (WithRpcUrl rpcUrl NewClientBuilder) (WithPrivateKeys privateKeys)"

subsection \<open>What the calls mean for the one network\<close>

text \<open>The abstract effect of a call on a plain network value, with no pointers.\<close>

fun net_effect :: "builder_op \<Rightarrow> Network \<Rightarrow> Network" where
  "net_effect (RpcUrl u) n = n\<lparr>URLs := [u]\<rparr>"
| "net_effect (PrivKeys ks) n = n\<lparr>netPrivateKeys := ks\<rparr>"
| "net_effect (NetworkName m) n = n\<lparr>netName := m\<rparr>"
| "net_effect (Estimations e b t) n = n\<lparr>GasPriceEstimationEnabled := e, GasPriceEstimationBlocks := b,
     GasPriceEstimationTxPriority := t\<rparr>"
| "net_effect (DynamicFees e) n = n\<lparr>EIP1559DynamicFees := e\<rparr>"
| "net_effect (LegacyGasPrice g) n = n\<lparr>netGasPrice := g\<rparr>"
| "net_effect (DynamicGasPrices f t) n = n\<lparr>netGasFeeCap := f, netGasTipCap := t\<rparr>"
| "net_effect (TransferFee f) n = n\<lparr>TransferGasFee := f\<rparr>"
| "net_effect (TransactionTimeout t) n = n\<lparr>TxnTimeout := Some \<lparr>D = t\<rparr>\<rparr>"
| "net_effect (RpcDialTimeout t) n = n\<lparr>DialTimeout := Some \<lparr>D = t\<rparr>\<rparr>"
| "net_effect _ n = n"

fun durations_ok :: "builder_op \<Rightarrow> bool" where
  "durations_ok (TransactionTimeout t) = (0 \<le> t)"
| "durations_ok (RpcDialTimeout t) = (0 \<le> t)"
| "durations_ok (NonceSettings a b t d) = (0 \<le> t \<and> 0 \<le> d)"
| "durations_ok _ = True"

text \<open>The pointers of a builder: the current network is the only one in the list.\<close>

definition aliased :: "Config \<Rightarrow> bool" where
  "aliased c \<longleftrightarrow> cfgNetwork c = Some 0 \<and> cfgNetworks c = [0] \<and> length (net_store c) = 1"

definition the_net :: "Config \<Rightarrow> Network" where
  "the_net c = net_store c ! 0"

lemma aliased_new: "aliased NewClientBuilder" and the_net_new: "the_net NewClientBuilder = default_network"
  by (simp_all add: aliased_def the_net_def NewClientBuilder_def)

lemma with_net_aliased:
  assumes "aliased c" and "\<And>n. f (f n) = f n"
  shows "with_net f c = Ret (upd_net 0 f c)" and "aliased (upd_net 0 f c)"
    and "the_net (upd_net 0 f c) = f (the_net c)"
  using assms by (auto simp: with_net_def aliased_def the_net_def upd_net_def deref_def go_index_def Let_def)

lemmas builder_defs = WithRpcUrl_def WithPrivateKeys_def WithNetworkName_def WithGasPriceEstimations_def
  WithEIP1559DynamicFees_def WithLegacyGasPrice_def WithDynamicGasPrices_def WithTransferGasFee_def
  WithGasBumping_def WithTransactionTimeout_def WithRpcDialTimeout_def WithEphemeralAddresses_def
  WithTracing_def WithProtections_def WithArtifactsFolder_def WithNonceManager_cfg_def

lemma net_effect_idem: "net_effect x (net_effect x n) = net_effect x n"
  by (cases x) auto

lemma net_effect_fun:
  "net_effect (RpcUrl u) = (\<lambda>n. n\<lparr>URLs := [u]\<rparr>)"
  "net_effect (PrivKeys ks) = (\<lambda>n. n\<lparr>netPrivateKeys := ks\<rparr>)"
  "net_effect (NetworkName m) = (\<lambda>n. n\<lparr>netName := m\<rparr>)"
  "net_effect (Estimations e b t) = (\<lambda>n. n\<lparr>GasPriceEstimationEnabled := e, GasPriceEstimationBlocks := b,
     GasPriceEstimationTxPriority := t\<rparr>)"
  "net_effect (DynamicFees e) = (\<lambda>n. n\<lparr>EIP1559DynamicFees := e\<rparr>)"
  "net_effect (LegacyGasPrice g) = (\<lambda>n. n\<lparr>netGasPrice := g\<rparr>)"
  "net_effect (DynamicGasPrices f t') = (\<lambda>n. n\<lparr>netGasFeeCap := f, netGasTipCap := t'\<rparr>)"
  "net_effect (TransferFee f) = (\<lambda>n. n\<lparr>TransferGasFee := f\<rparr>)"
  "net_effect (TransactionTimeout d) = (\<lambda>n. n\<lparr>TxnTimeout := Some \<lparr>D = d\<rparr>\<rparr>)"
  "net_effect (RpcDialTimeout d) = (\<lambda>n. n\<lparr>DialTimeout := Some \<lparr>D = d\<rparr>\<rparr>)"
  by (simp_all add: fun_eq_iff)

text \<open>A call either writes the network or leaves the network and the pointers alone.\<close>

lemma call_shape:
  assumes "durations_ok x"
  shows "call x c = with_net (net_effect x) c \<or>
    (\<exists>c'. call x c = Ret c' \<and> net_store c' = net_store c \<and> cfgNetwork c' = cfgNetwork c \<and>
       cfgNetworks c' = cfgNetworks c \<and> net_effect x (the_net c) = the_net c)"
  using assms by (cases x) (simp_all add: builder_defs net_effect_fun)

lemma call_refines:
  assumes "aliased c" and "durations_ok x"
  shows "\<exists>c'. call x c = Ret c' \<and> aliased c' \<and> the_net c' = net_effect x (the_net c)"
  using call_shape [OF assms(2), of c]
proof
  assume "call x c = with_net (net_effect x) c"
  then show ?thesis
    using with_net_aliased [OF assms(1), of "net_effect x"] net_effect_idem by auto
next
  assume "\<exists>c'. call x c = Ret c' \<and> net_store c' = net_store c \<and> cfgNetwork c' = cfgNetwork c \<and>
       cfgNetworks c' = cfgNetworks c \<and> net_effect x (the_net c) = the_net c"
  with assms(1) show ?thesis by (auto simp: aliased_def the_net_def)
qed

lemma call_all_refines:
  "aliased c \<Longrightarrow> list_all durations_ok xs \<Longrightarrow>
   \<exists>c'. call_all xs c = Ret c' \<and> aliased c' \<and> the_net c' = fold net_effect xs (the_net c)"
proof (induction xs arbitrary: c)
  case Nil
  then show ?case by simp
next
  case (Cons x xs)
  obtain c1 where c1: "call x c = Ret c1" "aliased c1" "the_net c1 = net_effect x (the_net c)"
    using call_refines [of c x] Cons.prems by auto
  with Cons.IH [of c1] Cons.prems show ?case by auto
qed

subsection \<open>Properties\<close>

text \<open>
  C22. The double writes of the builder are harmless: after any chain of calls with
  non-negative durations the builder has not panicked, its current network is still the one
  and only entry of its list of networks, and that network is what the same assignments
  give on a plain record.
\<close>

theorem builder_refines_record:
  assumes "list_all durations_ok calls"
  shows "\<exists>c. call_all calls NewClientBuilder = Ret c \<and> cfgNetwork c = Some 0 \<and> cfgNetworks c = [0] \<and>
     net_store c = [fold net_effect calls default_network]"
proof -
  obtain c where "call_all calls NewClientBuilder = Ret c" "aliased c"
    "the_net c = fold net_effect calls default_network"
    using call_all_refines [OF aliased_new assms] the_net_new by auto
  then show ?thesis
    by (auto simp: aliased_def the_net_def length_Suc_conv)
qed

theorem builder_refines_record_witness:
  "\<exists>c. call_all [RpcUrl ''u'', TransactionTimeout 5, RpcUrl ''v''] NewClientBuilder = Ret c \<and>
     net_store c = [default_network\<lparr>URLs := [''v''], TxnTimeout := Some \<lparr>D = 5\<rparr>\<rparr>]"
  using builder_refines_record [of "[RpcUrl ''u'', TransactionTimeout 5, RpcUrl ''v'']"] by auto

text \<open>
  The configuration \<open>DefaultClient\<close> builds from any URL and keys passes validation
  unchanged, has exactly that URL and those keys, bumps gas up to ten times and does not
  limit the bumped price.
\<close>

theorem DefaultClient_config_valid:
  "\<exists>c. DefaultClient_config rpcUrl privateKeys = Ret c \<and> ValidateConfig c = Ret (c, None) \<and>
     FirstNetworkURL c = Ret rpcUrl \<and> netPrivateKeys (net_store c ! 0) = privateKeys \<and>
     GasBumpRetries c = 10 \<and> \<not> HasMaxBumpGasPrice c"
proof -
  have case_known: "ToLower Priority_Standard = Priority_Standard" "ToUpper TracingLevel_Reverted = TracingLevel_Reverted"
    "ToLower TraceOutput_Console = TraceOutput_Console" "ToLower TraceOutput_DOT = TraceOutput_DOT"
    "Priority_Standard \<noteq> []" "TracingLevel_Reverted \<noteq> []"
    by code_simp+
  let ?c = "NewClientBuilder\<lparr>net_store := [default_network\<lparr>URLs := [rpcUrl], netPrivateKeys := privateKeys\<rparr>]\<rparr>"
  have "DefaultClient_config rpcUrl privateKeys = Ret ?c"
    by (simp add: DefaultClient_config_def WithRpcUrl_def WithPrivateKeys_def with_net_def NewClientBuilder_def
        upd_net_def deref_def go_index_def Let_def)
  moreover have "ValidateConfig ?c = Ret (?c, None)"
    by (simp add: ValidateConfig_def NewClientBuilder_def default_network_def deref_def go_index_def
        validate_network_def upd_net_def Let_def case_known known_priority_def known_level_def known_output_def)
  ultimately show ?thesis
    by (simp add: FirstNetworkURL_def NewClientBuilder_def deref_def go_index_def GasBumpRetries_def HasMaxBumpGasPrice_def)
qed

end
