(* ===== verification/Nonce_Manager.thy ===== *)
theory Nonce_Manager
  imports Geth_Types
begin

text \<open>
  The nonce manager of \<^verbatim>\<open>src/nonce.go\<close>: the nonce it tracks for each address and the
  channel of synced keys from which \<open>anySyncedKey\<close> hands out key numbers. Taking a key starts
  a goroutine that polls the chain until the nonce of the key has advanced and then puts the
  key back; after its last failed attempt it records an error. The goroutines run
  concurrently with callers, refreshes and each other, so the manager is a step relation: one rule per atomic action.
  \<open>NonceAt\<close> is the RPC node's answer.
\<close>

record KeyNonce =
  KeyNum :: int
  kNonce :: int

record NonceManager =
  Addresses :: "address list"
  Nonces :: "(address, int) gomap"
  SyncedKeys :: "KeyNonce list"
  chanCap :: nat

definition ErrKeySync :: string where "ErrKeySync = ''failed to sync the key''"
definition ErrNonce :: string where "ErrNonce = ''failed to get nonce''"
definition TimeoutKeyNum :: int where "TimeoutKeyNum = -80001"

definition NewNonceManager :: "address list \<Rightarrow> NonceManager" where
  "NewNonceManager addrs =
     \<lparr>Addresses = addrs, Nonces = fold (\<lambda>addr m. gomap_put addr 0 m) addrs [], SyncedKeys = [], chanCap = length addrs\<rparr>"

text \<open>A read of an absent key of \<open>Nonces\<close> gives 0.\<close>

definition nonce_of :: "NonceManager \<Rightarrow> address \<Rightarrow> int" where
  "nonce_of m addr = (case map_of (Nonces m) addr of None \<Rightarrow> 0 | Some n \<Rightarrow> n)"

text \<open>The first loop of \<open>UpdateNonces\<close>: ask for every tracked address, stop at the first error.\<close>

fun query_nonces :: "(address \<Rightarrow> int res) \<Rightarrow> address list \<Rightarrow> (address, int) gomap \<Rightarrow> (address, int) gomap \<times> goerr option" where
  "query_nonces NonceAt [] m = (m, None)"
| "query_nonces NonceAt (a # as) m =
     (case NonceAt a of
        Inl err \<Rightarrow> (m, Some err)
      | Inr nonce \<Rightarrow> query_nonces NonceAt as (gomap_put a (int64 nonce) m))"

text \<open>The second loop: one entry per address after the root key.\<close>

fun key_entries :: "(address \<Rightarrow> int) \<Rightarrow> int \<Rightarrow> address list \<Rightarrow> KeyNonce list" where
  "key_entries nonce keyNum [] = []"
| "key_entries nonce keyNum (a # as) =
     \<lparr>KeyNum = keyNum + 1, kNonce = uint64 (nonce a)\<rparr> # key_entries nonce (keyNum + 1) as"

definition UpdateNonces :: "(address \<Rightarrow> int res) \<Rightarrow> NonceManager \<Rightarrow> (NonceManager \<times> goerr option) go" where
  "UpdateNonces NonceAt m =
     (case query_nonces NonceAt (map fst (Nonces m)) (Nonces m) of
        (nonces, Some err) \<Rightarrow> Ret (m\<lparr>Nonces := nonces\<rparr>, Some err)
      | (nonces, None) \<Rightarrow>
          (let m' = m\<lparr>Nonces := nonces\<rparr> in
           go_bind (go_slice (Addresses m') 1 (int (length (Addresses m')))) (\<lambda>rest.
             Ret (m'\<lparr>SyncedKeys := key_entries (nonce_of m') 0 rest, chanCap := length (Addresses m')\<rparr>, None))))"

definition NextNonce :: "NonceManager \<Rightarrow> address \<Rightarrow> NonceManager \<times> int" where
  "NextNonce m addr =
     (m\<lparr>Nonces := gomap_put addr (int64 (nonce_of m addr + 1)) (Nonces m)\<rparr>, nonce_of m addr)"

subsection \<open>Handing out synced keys\<close>

text \<open>
  The state that the callers and goroutines share: the manager with its current channel; the channels that refreshes
  have replaced, oldest first; the calls of \<open>anySyncedKey\<close> in progress, each with the channel its \<open>select\<close> reads; the
  goroutines that poll the chain for a key, with the attempts they have left; those that are about to put a synced key back, with
  the channel they send on; and the errors of the client. Channels are numbered by age, so the current one has
  the number of replaced ones. All have the same capacity, the number of addresses, which never changes.
\<close>

record pool =
  nm :: NonceManager
  retired :: "KeyNonce list list"
  callers :: "nat list"
  syncing :: "(KeyNonce \<times> nat) list"
  sending :: "(KeyNonce \<times> nat) list"
  clientErrors :: "goerr list"

abbreviation current_chan :: "pool \<Rightarrow> nat" where
  "current_chan s \<equiv> length (retired s)"

definition chan_of :: "pool \<Rightarrow> nat \<Rightarrow> KeyNonce list" where
  "chan_of s c = (if c < current_chan s then retired s ! c else SyncedKeys (nm s))"

definition set_chan :: "nat \<Rightarrow> KeyNonce list \<Rightarrow> pool \<Rightarrow> pool" where
  "set_chan c ks s = (if c < current_chan s then s\<lparr>retired := (retired s)[c := ks]\<rparr> else s\<lparr>nm := (nm s)\<lparr>SyncedKeys := ks\<rparr>\<rparr>)"

definition remove_at :: "nat \<Rightarrow> 'a list \<Rightarrow> 'a list" where
  "remove_at i xs = take i xs @ drop (Suc i) xs"

text \<open>
  A call of \<open>anySyncedKey\<close> enters its \<open>select\<close>; then either the timeout fires, or it receives a key and starts
  the goroutine that will sync it.
\<close>

definition anySyncedKey_select :: "pool \<Rightarrow> pool" where
  "anySyncedKey_select s = s\<lparr>callers := callers s @ [current_chan s]\<rparr>"

definition anySyncedKey_timeout :: "nat \<Rightarrow> pool \<Rightarrow> pool \<times> int" where
  "anySyncedKey_timeout j s =
     (s\<lparr>callers := remove_at j (callers s), clientErrors := clientErrors s @ [ErrNew ErrKeySync]\<rparr>, TimeoutKeyNum)"

definition anySyncedKey_take :: "nat \<Rightarrow> nat \<Rightarrow> pool \<Rightarrow> (pool \<times> int) option" where
  "anySyncedKey_take KeySyncRetries j s =
     (case chan_of s (callers s ! j) of
        [] \<Rightarrow> None
      | keyData # rest \<Rightarrow>
          Some ((set_chan (callers s ! j) rest s)\<lparr>callers := remove_at j (callers s), syncing := syncing s @ [(keyData, KeySyncRetries)]\<rparr>,
                KeyNum keyData))"

text \<open>One attempt of a goroutine, given the node's answer: synced, or not yet.\<close>

definition sync_attempt :: "int res \<Rightarrow> KeyNonce \<Rightarrow> goerr + KeyNonce" where
  "sync_attempt answer keyData =
     (case answer of
        Inl _ \<Rightarrow> Inl (ErrNew ErrNonce)
      | Inr nonce \<Rightarrow>
          if nonce = uint64 (kNonce keyData + 1) then Inr \<lparr>KeyNum = KeyNum keyData, kNonce = nonce\<rparr>
          else Inl (ErrNew ErrKeySync))"

text \<open>
  The goroutine at position \<open>i\<close> makes an attempt: on success it reads the field \<open>SyncedKeys\<close> and goes on to send the key there;
  on failure it tries again while attempts are left, and otherwise gives up and records the error. With 0 configured attempts
  the goroutine gives up at once, which is the step with a failing answer. The send is a step of its own, which waits while the
  channel is full.
\<close>

definition sync_step :: "int res \<Rightarrow> nat \<Rightarrow> pool \<Rightarrow> pool" where
  "sync_step answer i s =
     (let (keyData, attempts) = syncing s ! i in
      case sync_attempt answer keyData of
        Inr k \<Rightarrow> s\<lparr>syncing := remove_at i (syncing s), sending := sending s @ [(k, current_chan s)]\<rparr>
      | Inl _ \<Rightarrow>
          if 1 < attempts then s\<lparr>syncing := (syncing s)[i := (keyData, attempts - 1)]\<rparr>
          else s\<lparr>syncing := remove_at i (syncing s), clientErrors := clientErrors s @ [ErrNew ErrKeySync]\<rparr>)"

definition sync_send :: "nat \<Rightarrow> pool \<Rightarrow> pool option" where
  "sync_send i s =
     (let (k, c) = sending s ! i in
      if length (chan_of s c) < chanCap (nm s)
      then Some ((set_chan c (chan_of s c @ [k]) s)\<lparr>sending := remove_at i (sending s)\<rparr>) else None)"

text \<open>
  A refresh replaces the channel if it gets that far, and otherwise only some nonces. The goroutines and callers that
  have read the field before keep the channel they read. Filling the new channel is one step with replacing it.
\<close>

definition refresh :: "(address \<Rightarrow> int res) \<Rightarrow> pool \<Rightarrow> (pool \<times> goerr option) go" where
  "refresh NonceAt s =
     go_bind (UpdateNonces NonceAt (nm s)) (\<lambda>(m', err).
     Ret (s\<lparr>nm := m', retired := (if err = None then retired s @ [SyncedKeys (nm s)] else retired s)\<rparr>, err))"

inductive pool_step :: "nat \<Rightarrow> pool \<Rightarrow> pool \<Rightarrow> bool" for retries :: nat where
  select: "s' = anySyncedKey_select s \<Longrightarrow> pool_step retries s s'"
| take: "j < length (callers s) \<Longrightarrow> anySyncedKey_take retries j s = Some (s', k) \<Longrightarrow> pool_step retries s s'"
| timeout: "j < length (callers s) \<Longrightarrow> anySyncedKey_timeout j s = (s', k) \<Longrightarrow> pool_step retries s s'"
| sync: "i < length (syncing s) \<Longrightarrow> s' = sync_step answer i s \<Longrightarrow> pool_step retries s s'"
| send: "i < length (sending s) \<Longrightarrow> sync_send i s = Some s' \<Longrightarrow> pool_step retries s s'"
| refresh: "refresh NonceAt s = Ret (s', err) \<Longrightarrow> pool_step retries s s'"
| next_nonce: "s' = s\<lparr>nm := fst (NextNonce (nm s) addr)\<rparr> \<Longrightarrow> pool_step retries s s'"

inductive_cases pool_stepE: "pool_step retries s s'"

text \<open>
  A calm run replaces the channel only while nobody uses it: no call of \<open>anySyncedKey\<close> in progress and no key
  lent. Nothing in the code makes sure of that; it is what its callers have to keep to.
\<close>

definition unused :: "pool \<Rightarrow> bool" where
  "unused s \<longleftrightarrow> callers s = [] \<and> syncing s = [] \<and> sending s = []"

definition calm_step :: "nat \<Rightarrow> pool \<Rightarrow> pool \<Rightarrow> bool" where
  "calm_step retries s s' \<longleftrightarrow> pool_step retries s s' \<and> (current_chan s' \<noteq> current_chan s \<longrightarrow> unused s)"

definition start_pool :: "NonceManager \<Rightarrow> pool" where
  "start_pool m = \<lparr>nm = m, retired = [], callers = [], syncing = [], sending = [], clientErrors = []\<rparr>"

subsection \<open>A pool that lends and takes back\<close>

text \<open>
  What a user of the pool relies on, stated for any state type: as long as an invariant of the pool is kept, a step lends,
  returns, drops or keeps items, and a drop is recorded; or it starts afresh with all or some of the stock.
\<close>

locale lending_pool =
  fixes inv :: "'s \<Rightarrow> bool"
    and step :: "'s \<Rightarrow> 's \<Rightarrow> bool"
    and stock :: "'k list"
    and avail :: "'s \<Rightarrow> 'k list"
    and lent :: "'s \<Rightarrow> 'k list"
    and recorded :: "'s \<Rightarrow> nat"
  assumes inv_step: "inv s \<Longrightarrow> step s s' \<Longrightarrow> inv s'"
    and step_items: "inv s \<Longrightarrow> step s s' \<Longrightarrow>
      mset (avail s' @ lent s') \<subseteq># mset (avail s @ lent s) \<or> mset (avail s' @ lent s') \<subseteq># mset stock"
    and step_recorded: "inv s \<Longrightarrow> step s s' \<Longrightarrow>
      min (length stock) (length (avail s @ lent s) + recorded s) \<le> length (avail s' @ lent s') + recorded s'"
begin

lemma reach_inv: "step\<^sup>*\<^sup>* s s' \<Longrightarrow> inv s \<Longrightarrow> inv s'"
  by (induction rule: rtranclp_induct) (auto dest: inv_step)

lemma items_reach:
  assumes "step\<^sup>*\<^sup>* s s'" and "inv s" and "mset (avail s @ lent s) \<subseteq># mset stock"
  shows "mset (avail s' @ lent s') \<subseteq># mset stock"
  using assms
proof (induction rule: rtranclp_induct)
  case (step t t')
  then have "inv t" "mset (avail t @ lent t) \<subseteq># mset stock" by (auto dest: reach_inv)
  with step_items [OF \<open>inv t\<close> step.hyps(2)] show ?case by (auto intro: subset_mset.order_trans)
qed simp

lemma never_twice:
  assumes "step\<^sup>*\<^sup>* s s'" and "inv s" and "mset (avail s @ lent s) \<subseteq># mset stock" and dist: "distinct stock"
  shows "distinct (avail s' @ lent s')"
proof -
  have "count (mset (avail s' @ lent s')) x \<le> 1" for x
    using mset_subset_eq_count [OF items_reach [OF assms(1-3)], of x] distinct_count_atmost_1 [of stock] dist
    by (metis count_mset_0_iff le_trans order.refl set_mset_mset zero_le)
  then show ?thesis
    using distinct_count_atmost_1 [of "avail s' @ lent s'"] by (metis count_mset_0_iff le_antisym less_one not_le)
qed

lemma no_silent_loss:
  assumes "step\<^sup>*\<^sup>* s s'" and "inv s" and "length stock \<le> length (avail s @ lent s) + recorded s"
  shows "length stock \<le> length (avail s' @ lent s') + recorded s'"
  using assms
proof (induction rule: rtranclp_induct)
  case (step t t')
  then have "inv t" by (auto dest: reach_inv)
  with step_recorded [OF this step.hyps(2)] step show ?case by simp
qed simp

end

subsection \<open>Filling the pool\<close>

lemma KeyNum_key_entries: "map KeyNum (key_entries f k as) = map (\<lambda>i. k + 1 + int i) [0..<length as]"
proof (induction as arbitrary: k)
  case Nil
  then show ?case by simp
next
  case (Cons a as)
  have "[0..<length (a # as)] = 0 # map Suc [0..<length as]"
    by (simp add: upt_conv_Cons map_Suc_upt del: upt_Suc)
  with Cons show ?case by (simp del: upt_Suc)
qed

lemma key_entries_nth:
  "i < length as \<Longrightarrow> key_entries f k as ! i = \<lparr>KeyNum = k + 1 + int i, kNonce = uint64 (f (as ! i))\<rparr>"
proof (induction as arbitrary: k i)
  case Nil
  then show ?case by simp
next
  case (Cons a as)
  then show ?case by (cases i) simp_all
qed

lemma length_key_entries [simp]: "length (key_entries f k as) = length as"
  by (induction as arbitrary: k) auto

lemma query_nonces_ok:
  assumes "query_nonces NonceAt as m = (m', None)" and "a \<in> set as"
  shows "\<exists>n. NonceAt a = Inr n \<and> map_of m' a = Some (int64 n)"
  using assms
proof (induction as arbitrary: m)
  case Nil
  then show ?case by simp
next
  case (Cons b as)
  then obtain nb where nb: "NonceAt b = Inr nb"
    and rest: "query_nonces NonceAt as (gomap_put b (int64 nb) m) = (m', None)"
    by (auto split: sum.splits)
  have keep: "map_of m' b = Some (int64 nb)" if "b \<notin> set as" "query_nonces NonceAt as m1 = (m', None)"
    "map_of m1 b = Some (int64 nb)" for m1
    using that by (induction as arbitrary: m1) (auto simp: update_conv' split: sum.splits)
  show ?case
  proof (cases "a \<in> set as")
    case True
    then show ?thesis using Cons.IH rest by blast
  next
    case False
    with Cons.prems have "a = b" by simp
    then show ?thesis using keep [OF _ rest] False nb by (simp add: update_conv')
  qed
qed

lemma dom_NewNonceManager: "fst ` set (Nonces (NewNonceManager addrs)) = set addrs"
proof -
  have "fst ` set (fold (\<lambda>addr m. gomap_put addr (0 :: int) m) addrs m) = fst ` set m \<union> set addrs" for m
    by (induction addrs arbitrary: m) (auto simp: dom_update)
  then show ?thesis by (simp add: NewNonceManager_def)
qed

lemma UpdateNonces_okD:
  assumes "UpdateNonces NonceAt m = Ret (m', None)"
  obtains nonces where "query_nonces NonceAt (map fst (Nonces m)) (Nonces m) = (nonces, None)"
    and "Addresses m \<noteq> []"
    and "m' = m\<lparr>Nonces := nonces, chanCap := length (Addresses m),
           SyncedKeys := key_entries (nonce_of (m\<lparr>Nonces := nonces\<rparr>)) 0 (tl (Addresses m))\<rparr>"
proof -
  from assms show ?thesis
    by (cases "Addresses m")
      (auto simp: UpdateNonces_def Let_def go_slice_def split: prod.splits option.splits intro: that)
qed

subsection \<open>The pool of synced keys\<close>

abbreviation avail_keys :: "pool \<Rightarrow> int list" where
  "avail_keys s \<equiv> map KeyNum (SyncedKeys (nm s))"

abbreviation lent_keys :: "pool \<Rightarrow> int list" where
  "lent_keys s \<equiv> map (\<lambda>(k, n). KeyNum k) (syncing s @ sending s)"

text \<open>The key numbers that the pool is for: all but the root key.\<close>

definition pool_keys :: "address list \<Rightarrow> int list" where
  "pool_keys addrs = map (\<lambda>i. 1 + int i) [0..<length addrs - 1]"

lemma pool_keys_simps [simp]: "distinct (pool_keys addrs)" "set (pool_keys addrs) = {1 ..< int (length addrs)}"
  "length (pool_keys addrs) = length addrs - 1"
proof -
  show "set (pool_keys addrs) = {1 ..< int (length addrs)}"
  proof (intro equalityI subsetI)
    fix x assume "x \<in> {1 ..< int (length addrs)}"
    then have "x = 1 + int (nat (x - 1))" "nat (x - 1) < length addrs - 1" by auto
    then show "x \<in> set (pool_keys addrs)" by (force simp: pool_keys_def)
  qed (auto simp: pool_keys_def)
qed (simp_all add: pool_keys_def distinct_map inj_on_def)

lemma refreshed_keys:
  assumes "UpdateNonces NonceAt m = Ret (m', None)"
  shows "map KeyNum (SyncedKeys m') = pool_keys (Addresses m)" "Addresses m' = Addresses m" "chanCap m' = length (Addresses m)"
    "length (SyncedKeys m') < chanCap m'"
  using assms by (auto elim!: UpdateNonces_okD simp: KeyNum_key_entries pool_keys_def)

lemma UpdateNonces_err:
  assumes "UpdateNonces NonceAt m = Ret (m', Some err)"
  shows "\<exists>nonces. m' = m\<lparr>Nonces := nonces\<rparr>"
  using assms by (auto simp: UpdateNonces_def Let_def go_bind_Ret_iff split: prod.splits option.splits)

lemma mset_remove_at: "i < length xs \<Longrightarrow> mset xs = add_mset (xs ! i) (mset (remove_at i xs))"
  by (metis (no_types) add_mset_add_single id_take_nth_drop mset.simps(2) mset_append remove_at_def
      union_mset_add_mset_right)

lemma set_remove_at: "set (remove_at i xs) \<subseteq> set xs"
  by (auto simp: remove_at_def dest: in_set_takeD in_set_dropD)

lemma map_remove_at: "map f (remove_at i xs) = remove_at i (map f xs)"
  by (simp add: remove_at_def take_map drop_map)

lemma length_remove_at: "i < length xs \<Longrightarrow> length xs = Suc (length (remove_at i xs))"
  by (simp add: remove_at_def)

lemma sync_attempt_KeyNum: "sync_attempt answer k = Inr k' \<Longrightarrow> KeyNum k' = KeyNum k"
  by (auto simp: sync_attempt_def split: sum.splits if_splits)

subsubsection \<open>Every run\<close>

text \<open>All keys anywhere in the pool are keys of the manager but the root key, and no channel is overfull.\<close>

definition chan_ok :: "address list \<Rightarrow> KeyNonce list \<Rightarrow> bool" where
  "chan_ok addrs ks \<longleftrightarrow> length ks \<le> length addrs \<and> (\<forall>k \<in> set ks. KeyNum k \<in> set (pool_keys addrs))"

definition pool_ok :: "address list \<Rightarrow> pool \<Rightarrow> bool" where
  "pool_ok addrs s \<longleftrightarrow> Addresses (nm s) = addrs \<and> chanCap (nm s) = length addrs \<and> chan_ok addrs (SyncedKeys (nm s)) \<and>
     (\<forall>ks \<in> set (retired s). chan_ok addrs ks) \<and> (\<forall>(k, n) \<in> set (syncing s @ sending s). KeyNum k \<in> set (pool_keys addrs))"

lemma set_chan_fields [simp]:
  "callers (set_chan c ks s) = callers s" "syncing (set_chan c ks s) = syncing s" "sending (set_chan c ks s) = sending s"
  "clientErrors (set_chan c ks s) = clientErrors s"
  by (simp_all add: set_chan_def)

lemma refreshed_chan:
  assumes "UpdateNonces NonceAt m = Ret (m', None)"
  shows "chan_ok (Addresses m) (SyncedKeys m')"
proof -
  have "KeyNum ` set (SyncedKeys m') = set (pool_keys (Addresses m))"
    using arg_cong [OF refreshed_keys(1) [OF assms], of set] by simp
  then show ?thesis using refreshed_keys(3,4) [OF assms] by (auto simp: chan_ok_def)
qed

lemma pool_ok_chan: "pool_ok addrs s \<Longrightarrow> chan_ok addrs (chan_of s c)"
  by (simp add: pool_ok_def chan_of_def)

lemma pool_ok_set_chan: "pool_ok addrs s \<Longrightarrow> chan_ok addrs ks \<Longrightarrow> pool_ok addrs (set_chan c ks s)"
  by (auto simp: pool_ok_def set_chan_def dest: subsetD [OF set_update_subset_insert])

lemma pool_ok_step:
  assumes "pool_ok addrs s" and "pool_step retries s s'"
  shows "pool_ok addrs s'"
  using assms(2)
proof cases
  case (take j k)
  then obtain keyData rest where c: "chan_of s (callers s ! j) = keyData # rest"
    and s': "s' = (set_chan (callers s ! j) rest s)\<lparr>callers := remove_at j (callers s), syncing := syncing s @ [(keyData, retries)]\<rparr>"
    by (auto simp: anySyncedKey_take_def split: list.splits)
  have "pool_ok addrs (set_chan (callers s ! j) rest s)" "KeyNum keyData \<in> set (pool_keys addrs)"
    using pool_ok_chan [OF assms(1), of "callers s ! j"] c by (auto intro: pool_ok_set_chan [OF assms(1)] simp: chan_ok_def)
  then show ?thesis by (simp add: s' pool_ok_def)
next
  case (sync i answer)
  obtain k n where kn: "syncing s ! i = (k, n)" by (cases "syncing s ! i")
  have k: "KeyNum k \<in> set (pool_keys addrs)"
    using assms(1) nth_mem [OF sync(1)] kn by (auto simp: pool_ok_def simp del: pool_keys_simps)
  have same: "nm s' = nm s" "retired s' = retired s"
    using sync(2) by (simp_all add: sync_step_def kn Let_def split: sum.splits)
  have "set (syncing s' @ sending s') \<subseteq> set (syncing s @ sending s) \<union> {(k', c). KeyNum k' = KeyNum k}"
    using sync(2) set_remove_at [of i "syncing s"] set_update_subset_insert [of "syncing s" i "(k, n - 1)"]
    by (auto simp: sync_step_def kn Let_def sync_attempt_KeyNum split: sum.splits if_splits)
  then show ?thesis using assms(1) k same by (fastforce simp: pool_ok_def simp del: pool_keys_simps)
next
  case (send i)
  obtain k c where kc: "sending s ! i = (k, c)" by (cases "sending s ! i")
  have k: "KeyNum k \<in> set (pool_keys addrs)"
    using assms(1) nth_mem [OF send(1)] kc by (auto simp: pool_ok_def simp del: pool_keys_simps)
  have s': "s' = (set_chan c (chan_of s c @ [k]) s)\<lparr>sending := remove_at i (sending s)\<rparr>" "length (chan_of s c) < chanCap (nm s)"
    using send(2) kc by (auto simp: sync_send_def split: if_splits)
  have "pool_ok addrs (set_chan c (chan_of s c @ [k]) s)"
    using pool_ok_chan [OF assms(1), of c] k s'(2) assms(1)
    by (intro pool_ok_set_chan) (auto simp: pool_ok_def chan_ok_def)
  then show ?thesis using set_remove_at [of i "sending s"]
    by (fastforce simp: s'(1) pool_ok_def simp del: pool_keys_simps)
next
  case (refresh NonceAt err)
  then obtain m' where m': "UpdateNonces NonceAt (nm s) = Ret (m', err)"
    and s': "s' = s\<lparr>nm := m', retired := (if err = None then retired s @ [SyncedKeys (nm s)] else retired s)\<rparr>"
    by (auto simp: refresh_def go_bind_Ret_iff)
  show ?thesis
  proof (cases err)
    case None
    then show ?thesis using assms(1) refreshed_keys(2,3) [OF m' [unfolded None]] refreshed_chan [OF m' [unfolded None]]
      by (simp add: s' pool_ok_def)
  next
    case (Some e)
    then show ?thesis using assms(1) UpdateNonces_err m' by (fastforce simp: s' pool_ok_def)
  qed
qed (use assms(1) in \<open>auto simp: pool_ok_def anySyncedKey_select_def anySyncedKey_timeout_def NextNonce_def\<close>)

lemma pool_ok_reach: "(pool_step retries)\<^sup>*\<^sup>* s s' \<Longrightarrow> pool_ok addrs s \<Longrightarrow> pool_ok addrs s'"
  by (induction rule: rtranclp_induct) (auto dest: pool_ok_step)

lemma pool_ok_start: "UpdateNonces NonceAt m = Ret (m', None) \<Longrightarrow> pool_ok (Addresses m) (start_pool m')"
  using refreshed_keys [of NonceAt m m'] refreshed_chan [of NonceAt m m'] by (simp add: pool_ok_def start_pool_def)

subsubsection \<open>Calm runs\<close>

text \<open>In a calm run everybody uses the current channel.\<close>

definition calm :: "address list \<Rightarrow> pool \<Rightarrow> bool" where
  "calm addrs s \<longleftrightarrow> Addresses (nm s) = addrs \<and> chanCap (nm s) = length addrs \<and>
     set (callers s) \<subseteq> {current_chan s} \<and> snd ` set (sending s) \<subseteq> {current_chan s}"

lemma calm_step_refresh:
  assumes "calm addrs s" "calm_step retries s s'" and "refresh NonceAt s = Ret (s', err)"
  shows "calm addrs s' \<and> clientErrors s' = clientErrors s \<and>
    (avail_keys s' = avail_keys s \<and> lent_keys s' = lent_keys s \<or> avail_keys s' = pool_keys addrs \<and> lent_keys s' = [])"
proof -
  obtain m' where m': "UpdateNonces NonceAt (nm s) = Ret (m', err)"
    and s': "s' = s\<lparr>nm := m', retired := (if err = None then retired s @ [SyncedKeys (nm s)] else retired s)\<rparr>"
    using assms(3) by (auto simp: refresh_def go_bind_Ret_iff)
  show ?thesis
  proof (cases err)
    case None
    then have "unused s" using assms(2) s' by (simp add: calm_step_def)
    then show ?thesis using assms(1) refreshed_keys [OF m' [unfolded None]] by (simp add: s' None calm_def unused_def)
  next
    case (Some e)
    then obtain nonces where "m' = nm s\<lparr>Nonces := nonces\<rparr>" using UpdateNonces_err m' by blast
    then show ?thesis using assms(1) by (simp add: s' Some calm_def)
  qed
qed

lemma calm_sync_step:
  assumes "calm addrs s" and i: "i < length (syncing s)" and s'_def: "s' = sync_step answer i s"
  shows "calm addrs s'" and "mset (avail_keys s' @ lent_keys s') \<subseteq># mset (avail_keys s @ lent_keys s)"
    and "length (avail_keys s @ lent_keys s) + length (clientErrors s) \<le> length (avail_keys s' @ lent_keys s') + length (clientErrors s')"
proof -
  obtain k n where kn: "syncing s ! i = (k, n)" by (cases "syncing s ! i")
  have rem: "mset (map (\<lambda>(k, n). KeyNum k) (syncing s)) = add_mset (KeyNum k) (mset (map (\<lambda>(k, n). KeyNum k) (remove_at i (syncing s))))"
    using mset_remove_at [of i "map (\<lambda>(k, n). KeyNum k) (syncing s)"] i kn by (simp add: map_remove_at)
  have upd: "map (\<lambda>(k, n). KeyNum k) ((syncing s)[i := (k, j)]) = map (\<lambda>(k, n). KeyNum k) (syncing s)" for j
    using i kn by (simp add: map_update list_update_same_conv)
  have updm: "mset (map (\<lambda>(k, n). KeyNum k) ((syncing s)[i := (k, j)])) = mset (map (\<lambda>(k, n). KeyNum k) (syncing s))" for j
    by (simp only: upd)
  show "calm addrs s'" using assms(1) by (auto simp: s'_def sync_step_def kn Let_def calm_def split: sum.splits)
  show "mset (avail_keys s' @ lent_keys s') \<subseteq># mset (avail_keys s @ lent_keys s)"
    using rem updm by (auto simp: s'_def sync_step_def kn Let_def sync_attempt_KeyNum split: sum.splits)
  show "length (avail_keys s @ lent_keys s) + length (clientErrors s) \<le> length (avail_keys s' @ lent_keys s') + length (clientErrors s')"
    using length_remove_at [OF i] by (auto simp: s'_def sync_step_def kn Let_def split: sum.splits)
qed

lemma calm_sync_send:
  assumes "calm addrs s" and i: "i < length (sending s)" and s': "sync_send i s = Some s'"
  shows "calm addrs s' \<and> mset (avail_keys s' @ lent_keys s') = mset (avail_keys s @ lent_keys s) \<and> clientErrors s' = clientErrors s"
proof -
  obtain k c where kc: "sending s ! i = (k, c)" by (cases "sending s ! i")
  have "c = current_chan s" using assms(1) nth_mem [OF i] kc by (force simp: calm_def)
  with s' kc have s': "s' = s\<lparr>nm := (nm s)\<lparr>SyncedKeys := SyncedKeys (nm s) @ [k]\<rparr>, sending := remove_at i (sending s)\<rparr>"
    by (auto simp: sync_send_def set_chan_def chan_of_def split: if_splits)
  have "mset (map (\<lambda>(k, n). KeyNum k) (sending s)) = add_mset (KeyNum k) (mset (map (\<lambda>(k, n). KeyNum k) (remove_at i (sending s))))"
    using mset_remove_at [of i "map (\<lambda>(k, n). KeyNum k) (sending s)"] i kc by (simp add: map_remove_at)
  moreover have "calm addrs s'" using assms(1) set_remove_at [of i "sending s"] by (auto simp: s' calm_def)
  ultimately show ?thesis by (simp add: s')
qed

lemma calm_take:
  assumes "calm addrs s" and j: "j < length (callers s)" and s': "anySyncedKey_take retries j s = Some (s', k)"
  shows "calm addrs s' \<and> mset (avail_keys s' @ lent_keys s') = mset (avail_keys s @ lent_keys s) \<and> clientErrors s' = clientErrors s"
proof -
  have "callers s ! j = current_chan s" using assms(1) nth_mem [OF j] by (auto simp: calm_def)
  with s' obtain keyData rest where "SyncedKeys (nm s) = keyData # rest" and
    "s' = s\<lparr>nm := (nm s)\<lparr>SyncedKeys := rest\<rparr>, callers := remove_at j (callers s), syncing := syncing s @ [(keyData, retries)]\<rparr>"
    by (auto simp: anySyncedKey_take_def set_chan_def chan_of_def split: list.splits)
  then show ?thesis using assms(1) set_remove_at [of j "callers s"] by (auto simp: calm_def)
qed

lemma calm_step_laws:
  assumes "calm addrs s" and step: "calm_step retries s s'"
  shows "calm addrs s' \<and>
    (mset (avail_keys s' @ lent_keys s') \<subseteq># mset (avail_keys s @ lent_keys s) \<or>
     mset (avail_keys s' @ lent_keys s') \<subseteq># mset (pool_keys addrs)) \<and>
    min (length (pool_keys addrs)) (length (avail_keys s @ lent_keys s) + length (clientErrors s))
      \<le> length (avail_keys s' @ lent_keys s') + length (clientErrors s')"
proof -
  have same: "?thesis" if "calm addrs s' \<and> mset (avail_keys s' @ lent_keys s') = mset (avail_keys s @ lent_keys s) \<and> length (clientErrors s) \<le> length (clientErrors s')"
    using that mset_eq_length [of "avail_keys s' @ lent_keys s'" "avail_keys s @ lent_keys s"]
    by (auto simp del: pool_keys_simps mset_append mset_map length_append length_map)
  from step have "pool_step retries s s'" by (simp add: calm_step_def)
  then show ?thesis
  proof cases
    case (take j k)
    from calm_take [OF assms(1) this] show ?thesis by (intro same) simp
  next
    case (sync i answer)
    from calm_sync_step [OF assms(1) sync] show ?thesis by (simp del: mset_append mset_map length_append)
  next
    case (send i)
    from calm_sync_send [OF assms(1) this] show ?thesis by (intro same) simp
  next
    case (refresh NonceAt err)
    from calm_step_refresh [OF assms this]
    consider "calm addrs s'" "clientErrors s' = clientErrors s" "avail_keys s' = avail_keys s" "lent_keys s' = lent_keys s"
      | "calm addrs s'" "clientErrors s' = clientErrors s" "avail_keys s' = pool_keys addrs" "lent_keys s' = []" by blast
    then show ?thesis
    proof cases
      case 1
      then show ?thesis by (intro same) (simp del: mset_append mset_map map_append)
    next
      case 2
      then show ?thesis by (simp del: pool_keys_simps mset_map map_append length_map)
    qed
  qed (rule same, use assms(1) set_remove_at in \<open>fastforce simp: calm_def anySyncedKey_select_def anySyncedKey_timeout_def NextNonce_def\<close>)+
qed

interpretation key_pool: lending_pool "calm addrs" "calm_step retries" "pool_keys addrs" avail_keys lent_keys "\<lambda>s. length (clientErrors s)"
  for addrs retries
  by unfold_locales (use calm_step_laws in blast)+

lemma calm_sends:
  assumes "calm addrs s" and i: "i < length (sending s)" and "length (SyncedKeys (nm s)) < length addrs"
  shows "sync_send i s \<noteq> None"
proof -
  obtain k c where kc: "sending s ! i = (k, c)" by (cases "sending s ! i")
  have "c = current_chan s" using assms(1) nth_mem [OF i] kc by (force simp: calm_def)
  with assms kc show ?thesis by (simp add: sync_send_def chan_of_def calm_def)
qed

lemma calm_start: "UpdateNonces NonceAt m = Ret (m', None) \<Longrightarrow> calm (Addresses m) (start_pool m')"
  using refreshed_keys [of NonceAt m m'] by (simp add: calm_def start_pool_def)

lemma calm_reach_pool: "(calm_step retries)\<^sup>*\<^sup>* s s' \<Longrightarrow> (pool_step retries)\<^sup>*\<^sup>* s s'"
  by (induction rule: rtranclp_induct) (auto simp: calm_step_def intro: rtranclp.rtrancl_into_rtrancl)

subsection \<open>Properties\<close>

text \<open>
  C4. Whatever callers, goroutines, \<open>NextNonce\<close> and \<open>UpdateNonces\<close> do after the pool was filled, the keys in the channel
  and the lent ones are among 1 to n-1, so the root key 0 is never handed out, and the channel is never overfull. As long as
  \<open>UpdateNonces\<close> replaces the channel only while no call of \<open>anySyncedKey\<close> is in progress and no key is lent, keys are never
  shared: each is available or lent to one caller, never both and never twice; putting a key back never blocks; and keys
  disappear from the pool only together with an error recorded in the client. The condition is needed: the
  code does not check it, and \<open>refresh_while_lent_duplicates\<close> below reaches a state with a key twice without it. Appending
  to the client's errors is taken to be atomic, although the goroutines do it without the mutex.
\<close>

theorem synced_keys_exclusive:
  assumes filled: "UpdateNonces NonceAt m = Ret (m', None)"
  shows "((pool_step retries)\<^sup>*\<^sup>* (start_pool m') s \<longrightarrow>
       set (avail_keys s @ lent_keys s) \<subseteq> {1 ..< int (length (Addresses m))} \<and> length (SyncedKeys (nm s)) \<le> chanCap (nm s)) \<and>
     ((calm_step retries)\<^sup>*\<^sup>* (start_pool m') s \<longrightarrow>
       (pool_step retries)\<^sup>*\<^sup>* (start_pool m') s \<and>
       distinct (avail_keys s @ lent_keys s) \<and>
       (\<forall>i < length (sending s). sync_send i s \<noteq> None) \<and>
       int (length (Addresses m)) - 1 \<le> int (length (avail_keys s) + length (lent_keys s) + length (clientErrors s)))"
proof -
  let ?addrs = "Addresses m"
  have "set (avail_keys s @ lent_keys s) \<subseteq> {1 ..< int (length ?addrs)} \<and> length (SyncedKeys (nm s)) \<le> chanCap (nm s)"
    if "(pool_step retries)\<^sup>*\<^sup>* (start_pool m') s"
    using pool_ok_reach [OF that pool_ok_start [OF filled]] by (fastforce simp: pool_ok_def chan_ok_def)
  moreover {
    assume run: "(calm_step retries)\<^sup>*\<^sup>* (start_pool m') s"
    let ?s0 = "start_pool m'"
    have inv: "calm ?addrs ?s0" by (rule calm_start [OF filled])
    have keys: "avail_keys ?s0 @ lent_keys ?s0 = pool_keys ?addrs"
      using refreshed_keys(1) [OF filled] by (simp add: start_pool_def)
    have init: "mset (avail_keys ?s0 @ lent_keys ?s0) \<subseteq># mset (pool_keys ?addrs)" unfolding keys by simp
    note sub = key_pool.items_reach [OF run inv init]
    have "length (avail_keys s @ lent_keys s) \<le> length ?addrs - 1"
      using size_mset_mono [OF sub] by (simp del: mset_map mset_append)
    moreover have "?addrs \<noteq> []" using filled by (auto elim: UpdateNonces_okD)
    ultimately have "sync_send i s \<noteq> None" if i: "i < length (sending s)" for i
      using calm_sends [OF key_pool.reach_inv [OF run inv] i] i by (cases ?addrs) auto
    moreover have "distinct (avail_keys s @ lent_keys s)" by (rule key_pool.never_twice [OF run inv init]) simp
    moreover have "length (pool_keys ?addrs) \<le> length (avail_keys s @ lent_keys s) + length (clientErrors s)"
      by (rule key_pool.no_silent_loss [OF run inv]) (unfold keys, simp)
    ultimately have "(pool_step retries)\<^sup>*\<^sup>* ?s0 s \<and> distinct (avail_keys s @ lent_keys s) \<and> (\<forall>i < length (sending s). sync_send i s \<noteq> None) \<and>
       int (length ?addrs) - 1 \<le> int (length (avail_keys s) + length (lent_keys s) + length (clientErrors s))"
      using calm_reach_pool [OF run] by auto
  }
  ultimately show ?thesis by blast
qed

definition ex_addrs :: "address list" where
  "ex_addrs = [[1], [2], [3]]"

definition ex_manager :: NonceManager where
  "ex_manager = \<lparr>Addresses = ex_addrs, Nonces = [([1], 7), ([2], 7), ([3], 7)],
     SyncedKeys = [\<lparr>KeyNum = 1, kNonce = 7\<rparr>, \<lparr>KeyNum = 2, kNonce = 7\<rparr>], chanCap = 3\<rparr>"

lemma ex_UpdateNonces: "UpdateNonces (\<lambda>_. Inr 7) (NewNonceManager ex_addrs) = Ret (ex_manager, None)"
  by (simp add: UpdateNonces_def NewNonceManager_def ex_addrs_def ex_manager_def go_slice_def nonce_of_def
      int64_def uint64_def)

text \<open>Key 1 is handed out; it is synced and about to be put back.\<close>

definition ex_taken :: pool where
  "ex_taken = (start_pool (ex_manager\<lparr>SyncedKeys := [\<lparr>KeyNum = 2, kNonce = 7\<rparr>]\<rparr>))\<lparr>syncing := [(\<lparr>KeyNum = 1, kNonce = 7\<rparr>, 3)]\<rparr>"

definition ex_synced :: pool where
  "ex_synced = ex_taken\<lparr>syncing := [], sending := [(\<lparr>KeyNum = 1, kNonce = 8\<rparr>, 0)]\<rparr>"

lemma ex_calm_steps:
  "calm_step 3 (start_pool ex_manager) (anySyncedKey_select (start_pool ex_manager))"
  "calm_step 3 (anySyncedKey_select (start_pool ex_manager)) ex_taken"
  "calm_step 3 ex_taken ex_synced"
proof -
  show "calm_step 3 (start_pool ex_manager) (anySyncedKey_select (start_pool ex_manager))"
    by (simp add: calm_step_def pool_step.select anySyncedKey_select_def)
  have "pool_step 3 (anySyncedKey_select (start_pool ex_manager)) ex_taken"
    by (rule pool_step.take [where j = 0 and k = 1])
      (simp_all add: anySyncedKey_take_def anySyncedKey_select_def start_pool_def ex_manager_def ex_taken_def chan_of_def set_chan_def remove_at_def)
  then show "calm_step 3 (anySyncedKey_select (start_pool ex_manager)) ex_taken"
    by (simp add: calm_step_def ex_taken_def start_pool_def anySyncedKey_select_def)
  have "pool_step 3 ex_taken ex_synced"
    by (rule pool_step.sync [where i = 0 and answer = "Inr 8"])
      (simp_all add: ex_taken_def ex_synced_def sync_step_def sync_attempt_def start_pool_def remove_at_def uint64_def)
  then show "calm_step 3 ex_taken ex_synced" by (simp add: calm_step_def ex_taken_def ex_synced_def start_pool_def)
qed

lemma ex_calm: "(calm_step 3)\<^sup>*\<^sup>* (start_pool ex_manager) ex_synced"
  using ex_calm_steps by (meson converse_rtranclp_into_rtranclp rtranclp.rtrancl_refl)

theorem synced_keys_exclusive_witness:
  "(calm_step 3)\<^sup>*\<^sup>* (start_pool ex_manager) ex_synced \<and> distinct (avail_keys ex_synced @ lent_keys ex_synced) \<and>
     sync_send 0 ex_synced \<noteq> None"
proof -
  have "0 < length (sending ex_synced)" by (simp add: ex_synced_def)
  with ex_calm synced_keys_exclusive [OF ex_UpdateNonces, of 3 ex_synced] show ?thesis by blast
qed

text \<open>
  The protection does not survive a refresh while a key is lent: if \<open>UpdateNonces\<close> runs
  (without error) between the hand-out of key 1 and the end of its sync, the refill puts the
  key back at once and the goroutine then returns it a second time, so the same key number
  sits in the channel twice.
\<close>

theorem refresh_while_lent_duplicates:
  "\<exists>s. (pool_step 3)\<^sup>*\<^sup>* (start_pool ex_manager) s \<and> avail_keys s = [1, 2, 1]"
proof -
  define s1 where "s1 = ex_taken\<lparr>nm := ex_manager, retired := [[\<lparr>KeyNum = 2, kNonce = 7\<rparr>]]\<rparr>"
  define s2 where "s2 = s1\<lparr>syncing := [], sending := [(\<lparr>KeyNum = 1, kNonce = 8\<rparr>, 1)]\<rparr>"
  define s3 where "s3 = s2\<lparr>nm := ex_manager\<lparr>SyncedKeys := SyncedKeys ex_manager @ [\<lparr>KeyNum = 1, kNonce = 8\<rparr>]\<rparr>, sending := []\<rparr>"
  have r0: "(pool_step 3)\<^sup>*\<^sup>* (start_pool ex_manager) ex_taken"
    by (intro calm_reach_pool) (use ex_calm_steps in \<open>meson converse_rtranclp_into_rtranclp rtranclp.rtrancl_refl\<close>)
  have "UpdateNonces (\<lambda>_. Inr 7) (nm ex_taken) = Ret (ex_manager, None)"
    by (simp add: UpdateNonces_def ex_taken_def start_pool_def ex_addrs_def ex_manager_def go_slice_def nonce_of_def int64_def uint64_def)
  then have "refresh (\<lambda>_. Inr 7) ex_taken = Ret (s1, None)" by (simp add: refresh_def s1_def ex_taken_def start_pool_def)
  then have "pool_step 3 ex_taken s1" by (rule pool_step.refresh)
  moreover have "pool_step 3 s1 s2"
    by (rule pool_step.sync [where i = 0 and answer = "Inr 8"])
      (simp_all add: s1_def s2_def ex_taken_def start_pool_def sync_step_def sync_attempt_def remove_at_def uint64_def)
  moreover have "pool_step 3 s2 s3"
    by (rule pool_step.send [where i = 0])
      (simp_all add: s1_def s2_def s3_def ex_taken_def ex_manager_def sync_send_def chan_of_def set_chan_def remove_at_def)
  ultimately have "(pool_step 3)\<^sup>*\<^sup>* (start_pool ex_manager) s3" using r0 by (meson rtranclp.rtrancl_into_rtrancl)
  moreover have "avail_keys s3 = [1, 2, 1]" by (simp add: s3_def ex_manager_def)
  ultimately show ?thesis by (intro exI conjI)
qed

lemma UpdateNonces_tracks:
  assumes ok: "UpdateNonces NonceAt (NewNonceManager addrs) = Ret (m', None)" and a: "a \<in> set addrs"
  shows "\<exists>n. NonceAt a = Inr n \<and> nonce_of m' a = int64 n"
proof -
  obtain nonces where q: "query_nonces NonceAt (map fst (Nonces (NewNonceManager addrs))) (Nonces (NewNonceManager addrs)) = (nonces, None)"
    and m': "Nonces m' = nonces"
    using UpdateNonces_okD [OF ok] by force
  have "a \<in> set (map fst (Nonces (NewNonceManager addrs)))"
    using a dom_NewNonceManager [of addrs] by simp
  from query_nonces_ok [OF q this] show ?thesis by (auto simp: nonce_of_def m')
qed



fun next_nonces :: "NonceManager \<Rightarrow> address list \<Rightarrow> NonceManager \<times> (address \<times> int) list" where
  "next_nonces m [] = (m, [])"
| "next_nonces m (a # as) =
     (let (m1, n) = NextNonce m a; (m2, ns) = next_nonces m1 as in (m2, (a, n) # ns))"

lemma nonce_of_NextNonce:
  "nonce_of (fst (NextNonce m a)) b = (if a = b then int64 (nonce_of m a + 1) else nonce_of m b)"
  by (simp add: NextNonce_def nonce_of_def update_conv')

lemma next_nonces_seq:
  assumes "0 \<le> nonce_of m a" and "nonce_of m a + int (length as) < 2 ^ 63"
  shows "map snd (filter (\<lambda>(b, n). b = a) (snd (next_nonces m as))) =
    map (\<lambda>i. nonce_of m a + int i) [0..<count_list as a]"
  using assms
proof (induction as arbitrary: m)
  case Nil
  then show ?case by simp
next
  case (Cons b as)
  let ?m = "fst (NextNonce m b)"
  have step: "snd (next_nonces m (b # as)) = (b, nonce_of m b) # snd (next_nonces ?m as)"
    by (simp add: Let_def NextNonce_def split: prod.splits)
  show ?case
  proof (cases "b = a")
    case True
    have n: "nonce_of ?m a = nonce_of m a + 1"
      using Cons.prems True by (simp add: nonce_of_NextNonce int64_id)
    have "[0..<count_list (b # as) a] = 0 # map Suc [0..<count_list as a]"
      using True by (simp add: upt_conv_Cons map_Suc_upt del: upt_Suc)
    with Cons.IH [of ?m] Cons.prems n True show ?thesis
      unfolding step by (simp add: algebra_simps del: upt_Suc)
  next
    case False
    then have n: "nonce_of ?m a = nonce_of m a" by (simp add: nonce_of_NextNonce)
    with Cons.IH [of ?m] Cons.prems False show ?thesis
      unfolding step by simp
  qed
qed

text \<open>
  Consecutive calls of \<open>NextNonce\<close> for an address return consecutive nonces starting at
  the tracked one, and calls for other addresses in between do not disturb them.
\<close>

theorem NextNonce_consecutive:
  assumes "0 \<le> nonce_of m a" and "nonce_of m a + int (length calls) < 2 ^ 63"
  shows "map snd (filter (\<lambda>(b, n). b = a) (snd (next_nonces m calls))) =
    map (\<lambda>i. nonce_of m a + int i) [0..<count_list calls a]"
  by (rule next_nonces_seq [OF assms])

theorem NextNonce_consecutive_witness:
  "map snd (filter (\<lambda>(b, n). b = [1]) (snd (next_nonces ex_manager [[1], [2], [1]]))) = [7, 8]"
  using NextNonce_consecutive [of ex_manager "[1]" "[[1], [2], [1]]"]
  by (simp add: ex_manager_def nonce_of_def numeral_2_eq_2)

end
