(* ===== verification/Congestion.thy ===== *)
theory Congestion
  imports Header_Cache Go_Float
begin

text \<open>
  The network congestion metric of \<^verbatim>\<open>src/gas_adjuster.go\<close>: both metrics with the
  \<open>float64\<close> arithmetic they use, the classification, and
  \<open>CalculateNetworkCongestionMetric\<close> with its header cache and its goroutines. \<open>math.Log10\<close> is
  implemented per platform and is a parameter. The theorems bound the metrics and say which
  headers they are computed from, for every interleaving of the goroutines.
\<close>

definition Congestion_Low :: string where "Congestion_Low = ''low''"
definition Congestion_Medium :: string where "Congestion_Medium = ''medium''"
definition Congestion_High :: string where "Congestion_High = ''high''"
definition Congestion_VeryHigh :: string where "Congestion_VeryHigh = ''extreme''"
definition CongestionStrategy_Simple :: string where "CongestionStrategy_Simple = ''simple''"
definition CongestionStrategy_NewestFirst :: string where "CongestionStrategy_NewestFirst = ''newest_first''"
definition BlockFetchingErr :: string where
  "BlockFetchingErr = ''failed to fetch enough block headers for congestion calculation''"

subsection \<open>The metrics\<close>

definition gas_ratio :: "Header \<Rightarrow> float64" where
  "gas_ratio h = fdiv (float_of_int (hGasUsed h)) (float_of_int (hGasLimit h))"

fun gas_used_loop :: "Header list \<Rightarrow> float64 \<Rightarrow> float64" where
  "gas_used_loop [] totalRatio = totalRatio"
| "gas_used_loop (h # hs) totalRatio =
     (if hGasLimit h = 0 then gas_used_loop hs totalRatio
      else gas_used_loop hs (fadd totalRatio (gas_ratio h)))"

definition calculateGasUsedRatio :: "Header list \<Rightarrow> float64" where
  "calculateGasUsedRatio headers =
     (if headers = [] then Fin 0
      else fdiv (gas_used_loop headers (Fin 0)) (float_of_int (int (length headers))))"

definition calculateSimpleNetworkCongestionMetric :: "Header list \<Rightarrow> float64" where
  "calculateSimpleNetworkCongestionMetric headers = calculateGasUsedRatio headers"

fun newest_first_loop :: "(float64 \<Rightarrow> float64) \<Rightarrow> int \<Rightarrow> int \<Rightarrow> Header list \<Rightarrow> float64 \<times> float64 \<Rightarrow> float64 \<times> float64" where
  "newest_first_loop Log10 len i [] acc = acc"
| "newest_first_loop Log10 len i (h # hs) (weightedSum, totalWeight) =
     (let congestion = gas_ratio h;
          distance = float_of_int (len - 1 - i);
          weight = fdiv (Fin 1) (Log10 (fadd distance (Fin 10)))
      in newest_first_loop Log10 len (i + 1) hs
           (fadd weightedSum (fmul congestion weight), fadd totalWeight weight))"

text \<open>
  The headers are sorted by number first. The comparison subtracts \<open>uint64\<close> numbers and
  converts to \<open>int\<close>, which orders numbers less than \<open>2 ^ 63\<close> apart; equal numbers only occur
  for the newest block, which the caller passes twice.
\<close>

definition calculateNewestFirstNetworkCongestionMetric :: "(float64 \<Rightarrow> float64) \<Rightarrow> Header list \<Rightarrow> float64" where
  "calculateNewestFirstNetworkCongestionMetric Log10 headers =
     (let (weightedSum, totalWeight) =
            newest_first_loop Log10 (int (length headers)) 0 (sort_key hNumber headers) (Fin 0, Fin 0)
      in if feq totalWeight (Fin 0) then Fin 0 else fdiv weightedSum totalWeight)"

definition classifyCongestion :: "float64 \<Rightarrow> string" where
  "classifyCongestion congestionMetric =
     (if flt congestionMetric (fl (33 / 100)) then Congestion_Low
      else if fle congestionMetric (fl (66 / 100)) then Congestion_Medium
      else if fle congestionMetric (fl (75 / 100)) then Congestion_High
      else Congestion_VeryHigh)"

text \<open>What is assumed of \<open>math.Log10\<close>: from 10 on it is a number between 1 and 310 (all doubles are below \<open>10 ^ 309\<close>).\<close>

definition log10_spec :: "(float64 \<Rightarrow> float64) \<Rightarrow> bool" where
  "log10_spec Log10 \<longleftrightarrow> (\<forall>x. 10 \<le> x \<longrightarrow> (\<exists>y. Log10 (Fin x) = Fin y \<and> 1 \<le> y \<and> y \<le> 310))"

text \<open>A header as a chain produces it: gas used is at most a positive 64-bit limit.\<close>

definition sane_header :: "Header \<Rightarrow> bool" where
  "sane_header h \<longleftrightarrow> 0 \<le> hGasUsed h \<and> hGasUsed h \<le> hGasLimit h \<and> 0 < hGasLimit h \<and> hGasLimit h < 2 ^ 64"

lemma fl_unit: "0 \<le> x \<Longrightarrow> x \<le> 1 \<Longrightarrow> fl x = Fin (rnd64 x)"
  by (rule fl_small [of _ 1]) simp_all

lemma gas_ratio_unit:
  assumes "sane_header h"
  shows "\<exists>c. gas_ratio h = Fin c \<and> 0 \<le> c \<and> c \<le> 1"
proof -
  let ?u = "rnd64 (of_int (hGasUsed h))" and ?l = "rnd64 (of_int (hGasLimit h))"
  have u: "float_of_int (hGasUsed h) = Fin ?u" and l: "float_of_int (hGasLimit h) = Fin ?l"
    using assms by (auto simp: sane_header_def intro!: float_of_int_fin)
  have "rnd64 1 \<le> ?l" using assms by (intro f64.mono) (simp add: sane_header_def)
  then have l1: "0 < ?l" by (simp add: f64.one)
  have ul: "0 \<le> ?u" "?u \<le> ?l"
    using assms by (auto simp: sane_header_def intro!: f64.mono f64.nonneg)
  have "fl (?u / ?l) = Fin (rnd64 (?u / ?l))" using ul l1 by (intro fl_unit) simp_all
  with f64.ratio_unit [OF ul l1] u l l1 show ?thesis by (simp add: gas_ratio_def)
qed

text \<open>The loops keep the sums between 0 and the number of headers seen.\<close>

lemma add_unit:
  assumes "0 \<le> t" "t \<le> of_int k" "0 \<le> w" "w \<le> 1" "0 \<le> k" "k + 1 < 2 ^ 53"
  shows "fl (t + w) = Fin (rnd64 (t + w))" "rnd64 (t + w) \<le> of_int (k + 1)" "0 \<le> rnd64 (t + w)"
proof -
  have b: "\<bar>t + w\<bar> \<le> of_int (k + 1)" using assms by simp
  show "fl (t + w) = Fin (rnd64 (t + w))" using b assms by (intro fl_small [of _ "k + 1"]) simp_all
  show "rnd64 (t + w) \<le> of_int (k + 1)" using rnd64_le_pow [OF b] assms by simp
  show "0 \<le> rnd64 (t + w)" using assms by (intro f64.nonneg) simp
qed

lemma gas_used_loop_bounds:
  assumes "\<forall>h \<in> set hs. hGasLimit h = 0 \<or> sane_header h" "0 \<le> t" "t \<le> of_int k" "0 \<le> k" "k + int (length hs) < 2 ^ 53"
  shows "\<exists>r. gas_used_loop hs (Fin t) = Fin r \<and> 0 \<le> r \<and> r \<le> of_int (k + int (length hs))"
  using assms
proof (induction hs arbitrary: t k)
  case Nil
  then show ?case by simp
next
  case (Cons h hs)
  show ?case
  proof (cases "hGasLimit h = 0")
    case True
    have "t \<le> of_int (k + 1)" using Cons.prems(3) by simp
    with Cons.IH [of t "k + 1"] Cons.prems True show ?thesis by (simp add: add.assoc)
  next
    case False
    then obtain c where c: "gas_ratio h = Fin c" "0 \<le> c" "c \<le> 1" using Cons.prems(1) gas_ratio_unit by auto
    have k: "k + 1 < 2 ^ 53" using Cons.prems(5) by simp
    note step = add_unit [OF Cons.prems(2,3) c(2,3) Cons.prems(4) k]
    with Cons.IH [of "rnd64 (t + c)" "k + 1"] Cons.prems False c show ?thesis by (simp add: add.assoc)
  qed
qed

lemma weight_unit:
  assumes log: "log10_spec Log10" and d: "0 \<le> d" "d + 10 < 2 ^ 53"
  shows "\<exists>w. fdiv (Fin 1) (Log10 (fadd (float_of_int d) (Fin 10))) = Fin w \<and> 0 < w \<and> w \<le> 1 \<and> rnd64 w = w"
proof -
  have "float_of_int d = Fin (of_int d)" using d by (intro float_of_int_exact) simp
  moreover have "fl (of_int d + 10) = Fin (rnd64 (of_int d + 10))"
    using d by (intro fl_small [of _ "d + 10"]) simp_all
  moreover have ten: "rnd64 10 = 10" by code_simp
  have "10 \<le> rnd64 (of_int d + 10)" using d by (intro f64.fixed_le ten) simp
  ultimately obtain y where y: "Log10 (fadd (float_of_int d) (Fin 10)) = Fin y" "1 \<le> y" "y \<le> 310"
    using log by (force simp: log10_spec_def)
  have inv: "0 \<le> 1 / y" "1 / y \<le> 1" "1 / 310 \<le> 1 / y" using y by (simp_all add: field_simps)
  have "rnd64 (1 / 310) \<le> rnd64 (1 / y)" using inv(3) by (rule f64.mono)
  moreover have "0 < rnd64 (1 / 310)" by code_simp
  moreover have "rnd64 (1 / y) \<le> 1" using inv(2) by (rule f64.le_one)
  ultimately show ?thesis using y inv by (simp add: fl_unit f64.idem)
qed

lemma newest_first_loop_bounds:
  assumes log: "log10_spec Log10"
    and "\<forall>h \<in> set hs. sane_header h" "0 \<le> s" "s \<le> t" "t \<le> of_int i" "0 \<le> i"
    and "i + int (length hs) = len" "len + 10 < 2 ^ 53" "0 < t \<or> i = 0"
  shows "\<exists>s' t'. newest_first_loop Log10 len i hs (Fin s, Fin t) = (Fin s', Fin t') \<and> 0 \<le> s' \<and> s' \<le> t' \<and>
    (0 < t' \<or> len = 0)"
  using assms(2-)
proof (induction hs arbitrary: i s t)
  case Nil
  then show ?case by auto
next
  case (Cons h hs)
  obtain c where c: "gas_ratio h = Fin c" "0 \<le> c" "c \<le> 1" using Cons.prems(1) gas_ratio_unit by auto
  obtain w where w: "fdiv (Fin 1) (Log10 (fadd (float_of_int (len - 1 - i)) (Fin 10))) = Fin w"
    "0 < w" "w \<le> 1" "rnd64 w = w"
    using weight_unit [OF log, of "len - 1 - i"] Cons.prems(5-7) by auto
  have i: "i + 1 < 2 ^ 53" using Cons.prems(6,7) by simp
  have t0: "0 \<le> t" using Cons.prems(2,3) by simp
  note tw = add_unit [OF t0 Cons.prems(4) less_imp_le [OF w(2)] w(3) Cons.prems(5) i]
  note sw = f64.weighted_step [OF Cons.prems(2,3) c(2,3) less_imp_le [OF w(2)] w(4)]
  have cw: "0 \<le> c * w" "c * w \<le> 1" using c w(2,3) mult_mono [of c 1 w 1] by simp_all
  have ws_le: "s + rnd64 (c * w) \<le> t + 1" using Cons.prems(3) f64.le_one [OF cw(2)] by linarith
  have "fl (s + rnd64 (c * w)) = Fin (rnd64 (s + rnd64 (c * w)))"
  proof (rule fl_small)
    show "\<bar>s + rnd64 (c * w)\<bar> \<le> of_int (i + 1)"
      using ws_le Cons.prems(2,4) f64.nonneg [OF cw(1)] by simp
    show "\<bar>i + 1\<bar> < 2 ^ 53" using i Cons.prems(5) by simp
  qed
  then have step: "newest_first_loop Log10 len i (h # hs) (Fin s, Fin t) =
      newest_first_loop Log10 len (i + 1) hs (Fin (rnd64 (s + rnd64 (c * w))), Fin (rnd64 (t + w)))"
    using c w fl_unit [OF cw] tw(1) by (simp add: Let_def)
  have "w \<le> rnd64 (t + w)" using t0 w(4) by (intro f64.fixed_le) simp_all
  then have pos: "0 < rnd64 (t + w)" using w(2) by linarith
  show ?case unfolding step
    by (rule Cons.IH) (use Cons.prems sw tw pos in simp_all)
qed

text \<open>
  C19. Both congestion metrics are in the unit interval on headers whose gas used does not exceed their
  limit, with every intermediate result rounded as the hardware does: neither the weights nor
  the accumulated rounding errors can push them out, and NaN does not occur.
\<close>

theorem congestion_metrics_unit:
  assumes "log10_spec Log10" and "\<forall>h \<in> set headers. sane_header h" and "int (length headers) + 10 < 2 ^ 53"
  shows "\<exists>m m'. calculateNewestFirstNetworkCongestionMetric Log10 headers = Fin m \<and> 0 \<le> m \<and> m \<le> 1 \<and>
    calculateSimpleNetworkCongestionMetric headers = Fin m' \<and> 0 \<le> m' \<and> m' \<le> 1"
proof -
  have sorted: "\<forall>h \<in> set (sort_key hNumber headers). sane_header h" using assms(2) by simp
  obtain s t where st: "newest_first_loop Log10 (int (length headers)) 0 (sort_key hNumber headers) (Fin 0, Fin 0) = (Fin s, Fin t)"
    "0 \<le> s" "s \<le> t"
    using newest_first_loop_bounds [OF assms(1) sorted, of 0 0 0] assms(3) by auto
  have one: "\<exists>m. calculateNewestFirstNetworkCongestionMetric Log10 headers = Fin m \<and> 0 \<le> m \<and> m \<le> 1"
  proof (cases "t = 0")
    case True
    with st show ?thesis by (simp add: calculateNewestFirstNetworkCongestionMetric_def)
  next
    case False
    with st have "0 < t" by simp
    with st have "fl (s / t) = Fin (rnd64 (s / t))" by (intro fl_unit) simp_all
    with f64.ratio_unit [OF st(2,3) \<open>0 < t\<close>] st \<open>0 < t\<close> show ?thesis
      by (simp add: calculateNewestFirstNetworkCongestionMetric_def)
  qed
  have two: "\<exists>m. calculateSimpleNetworkCongestionMetric headers = Fin m \<and> 0 \<le> m \<and> m \<le> 1"
  proof (cases "headers = []")
    case False
    obtain r where r: "gas_used_loop headers (Fin 0) = Fin r" "0 \<le> r" "r \<le> of_int (int (length headers))"
      using gas_used_loop_bounds [of headers 0 0] assms(2,3) by auto
    have n: "float_of_int (int (length headers)) = Fin (of_int (int (length headers)))"
      using assms(3) by (intro float_of_int_exact) simp
    have pos: "(0 :: rat) < of_int (int (length headers))" using False by simp
    have "fl (r / of_int (int (length headers))) = Fin (rnd64 (r / of_int (int (length headers))))"
      using r pos by (intro fl_unit) (simp_all add: divide_le_eq)
    with f64.ratio_unit [OF r(2,3) pos] r n False show ?thesis
      by (simp add: calculateSimpleNetworkCongestionMetric_def calculateGasUsedRatio_def)
  qed (simp add: calculateSimpleNetworkCongestionMetric_def calculateGasUsedRatio_def)
  from one two show ?thesis by blast
qed

definition ex_log10 :: "float64 \<Rightarrow> float64" where
  "ex_log10 x = (if x = Fin 10 then Fin 1 else Fin 2)"

lemma ex_log10_spec: "log10_spec ex_log10"
  by (simp add: log10_spec_def ex_log10_def)

definition ex_headers :: "Header list" where
  "ex_headers = [\<lparr>hNumber = 8, hGasUsed = 5, hGasLimit = 10\<rparr>, \<lparr>hNumber = 7, hGasUsed = 10, hGasLimit = 10\<rparr>]"

theorem congestion_metrics_unit_witness:
  "\<exists>m m'. calculateNewestFirstNetworkCongestionMetric ex_log10 ex_headers = Fin m \<and> 0 \<le> m \<and> m \<le> 1 \<and>
    calculateSimpleNetworkCongestionMetric ex_headers = Fin m' \<and> 0 \<le> m' \<and> m' \<le> 1"
  by (rule congestion_metrics_unit [OF ex_log10_spec]) (simp_all add: ex_headers_def sane_header_def)

subsection \<open>Fetching the headers\<close>

text \<open>
  One request for a header: the cache first, then the node, whose answer is cached. The
  timeout of the request (3 to 6 seconds) is part of the node's answer.
\<close>

definition getHeaderData :: "(int \<Rightarrow> Header res) \<Rightarrow> LFUHeaderCache \<Rightarrow> int option \<Rightarrow> LFUHeaderCache \<times> Header res" where
  "getHeaderData HeaderByNumber c bn =
     (case bn of
        None \<Rightarrow> (c, Inl (ErrNew ''block number is nil''))
      | Some n \<Rightarrow>
          (case LFU_Get c (int64 n) of
             (c', Some cachedHeader) \<Rightarrow> (c', Inr cachedHeader)
           | (c', None) \<Rightarrow>
               (case HeaderByNumber n of
                  Inl err \<Rightarrow> (c', Inl err)
                | Inr h \<Rightarrow> (LFU_put c' h, Inr h))))"

text \<open>The block numbers the loop starts goroutines for; the bound is computed in \<open>uint64\<close> and can wrap.\<close>

function block_range :: "int \<Rightarrow> int \<Rightarrow> int list" where
  "block_range i stop = (if stop < i \<and> \<not> i \<le> 1 then i # block_range (i - 1) stop else [])"
  by pat_completeness auto
termination
  by (relation "measure (\<lambda>(i, stop). nat i)") auto

declare block_range.simps [simp del]

definition requested_blocks :: "int \<Rightarrow> int \<Rightarrow> int list" where
  "requested_blocks lastBlockNumber blocksNumber = block_range lastBlockNumber (uint64 (lastBlockNumber - blocksNumber))"

text \<open>
  A goroutine looks into the cache, asks the node, stores the answer and sends the header to the
  collecting goroutine; each access to the cache is atomic (its mutex). One that gets an error
  ends without telling anybody.
\<close>

datatype worker = Start int | Fetching int | Sending Header | Done | Failed

record fetch_state =
  fcache :: LFUHeaderCache
  workers :: "worker list"
  received :: "Header list"

inductive fetch_step :: "(int \<Rightarrow> Header res) \<Rightarrow> fetch_state \<Rightarrow> fetch_state \<Rightarrow> bool" for HeaderByNumber where
  hit: "i < length (workers s) \<Longrightarrow> workers s ! i = Start n \<Longrightarrow> LFU_Get (fcache s) (int64 n) = (c', Some h) \<Longrightarrow>
    fetch_step HeaderByNumber s (s\<lparr>fcache := c', workers := (workers s)[i := Sending h]\<rparr>)"
| miss: "i < length (workers s) \<Longrightarrow> workers s ! i = Start n \<Longrightarrow> LFU_Get (fcache s) (int64 n) = (c', None) \<Longrightarrow>
    fetch_step HeaderByNumber s (s\<lparr>fcache := c', workers := (workers s)[i := Fetching n]\<rparr>)"
| fetched: "i < length (workers s) \<Longrightarrow> workers s ! i = Fetching n \<Longrightarrow> HeaderByNumber n = Inr h \<Longrightarrow>
    fetch_step HeaderByNumber s (s\<lparr>fcache := LFU_put (fcache s) h, workers := (workers s)[i := Sending h]\<rparr>)"
| failed: "i < length (workers s) \<Longrightarrow> workers s ! i = Fetching n \<Longrightarrow> HeaderByNumber n = Inl err \<Longrightarrow>
    fetch_step HeaderByNumber s (s\<lparr>workers := (workers s)[i := Failed]\<rparr>)"
| deliver: "i < length (workers s) \<Longrightarrow> workers s ! i = Sending h \<Longrightarrow>
    fetch_step HeaderByNumber s (s\<lparr>workers := (workers s)[i := Done], received := received s @ [h]\<rparr>)"

inductive_cases fetch_stepE: "fetch_step HeaderByNumber s s'"

text \<open>\<open>wg.Wait\<close> returns when every goroutine that was started has been counted down.\<close>

abbreviation fetch_run :: "(int \<Rightarrow> Header res) \<Rightarrow> fetch_state \<Rightarrow> fetch_state \<Rightarrow> bool" where
  "fetch_run HeaderByNumber \<equiv> (fetch_step HeaderByNumber)\<^sup>*\<^sup>*"

definition wait_over :: "fetch_state \<Rightarrow> bool" where
  "wait_over s \<longleftrightarrow> list_all (\<lambda>w. w = Done) (workers s)"

definition start_fetch :: "LFUHeaderCache \<Rightarrow> Header \<Rightarrow> int list \<Rightarrow> fetch_state" where
  "start_fetch c lastBlock blocks = \<lparr>fcache = c, workers = map Start blocks, received = [lastBlock]\<rparr>"

text \<open>What follows the wait: the minimal number of headers and the chosen strategy.\<close>

definition minBlockCount :: "int \<Rightarrow> int" where
  "minBlockCount blocksNumber = int64_of_float (fmul (float_of_int blocksNumber) (fl (8 / 10)))"

definition congestion_result :: "(float64 \<Rightarrow> float64) \<Rightarrow> int \<Rightarrow> string \<Rightarrow> Header list \<Rightarrow> float64 res" where
  "congestion_result Log10 blocksNumber strategy headers =
     (if int (length headers) < minBlockCount blocksNumber
      then Inl (ErrNew (BlockFetchingErr @ ''. Wanted at least '' @ Itoa (minBlockCount blocksNumber) @
             '', got '' @ Itoa (int (length headers))))
      else if strategy = CongestionStrategy_Simple then Inr (calculateSimpleNetworkCongestionMetric headers)
      else if strategy = CongestionStrategy_NewestFirst then Inr (calculateNewestFirstNetworkCongestionMetric Log10 headers)
      else Inl (ErrNew (''unknown congestion strategy: '' @ strategy)))"

text \<open>
  The whole method, as a relation between the cache before and the cache and result after: it
  relates nothing when the call does not return.
\<close>

inductive CalculateNetworkCongestionMetric ::
  "(float64 \<Rightarrow> float64) \<Rightarrow> int res \<Rightarrow> (int \<Rightarrow> Header res) \<Rightarrow> LFUHeaderCache option \<Rightarrow> int \<Rightarrow> string \<Rightarrow>
   LFUHeaderCache option \<Rightarrow> float64 res \<Rightarrow> bool" for Log10 where
  nil_cache: "CalculateNetworkCongestionMetric Log10 bnum HeaderByNumber None blocksNumber strategy
     None (Inl (ErrNew ''header cache is nil''))"
| no_number: "CalculateNetworkCongestionMetric Log10 (Inl err) HeaderByNumber (Some c) blocksNumber strategy (Some c) (Inl err)"
| no_last: "getHeaderData HeaderByNumber c (Some (int64 lastBlockNumber)) = (c', Inl err) \<Longrightarrow>
     CalculateNetworkCongestionMetric Log10 (Inr lastBlockNumber) HeaderByNumber (Some c) blocksNumber strategy (Some c') (Inl err)"
| waited: "getHeaderData HeaderByNumber c (Some (int64 lastBlockNumber)) = (c', Inr lastBlock) \<Longrightarrow>
     fetch_run HeaderByNumber
       (start_fetch c' lastBlock (map int64 (requested_blocks lastBlockNumber blocksNumber))) s \<Longrightarrow>
     wait_over s \<Longrightarrow>
     CalculateNetworkCongestionMetric Log10 (Inr lastBlockNumber) HeaderByNumber (Some c) blocksNumber strategy
       (Some (fcache s)) (congestion_result Log10 blocksNumber strategy (received s))"

inductive_cases metricE:
  "CalculateNetworkCongestionMetric Log10 (Inr n) HeaderByNumber (Some c) blocksNumber strategy c' r"

subsection \<open>Which headers are collected\<close>

text \<open>
  \<open>chain\<close> is the history all answers agree with: the node returns the block it is asked for,
  and the cache holds blocks of the chain.
\<close>

definition node_of_chain :: "(int \<Rightarrow> Header option) \<Rightarrow> (int \<Rightarrow> Header res) \<Rightarrow> bool" where
  "node_of_chain chain HeaderByNumber \<longleftrightarrow>
     (\<forall>n h. HeaderByNumber n = Inr h \<longrightarrow> chain n = Some h) \<and> (\<forall>n h. chain n = Some h \<longrightarrow> hNumber h = n)"

fun worker_ok :: "(int \<Rightarrow> Header option) \<Rightarrow> int \<Rightarrow> worker \<Rightarrow> bool" where
  "worker_ok chain n (Start m) = (m = n)"
| "worker_ok chain n (Fetching m) = (m = n)"
| "worker_ok chain n (Sending h) = (chain n = Some h)"
| "worker_ok chain n Done = (chain n \<noteq> None)"
| "worker_ok chain n Failed = True"

definition done_workers :: "worker list \<Rightarrow> nat set" where
  "done_workers ws = {i. i < length ws \<and> ws ! i = Done}"

definition fetch_inv :: "(int \<Rightarrow> Header option) \<Rightarrow> int list \<Rightarrow> Header \<Rightarrow> fetch_state \<Rightarrow> bool" where
  "fetch_inv chain blocks lastBlock s \<longleftrightarrow>
     cached (fcache s) \<subseteq>\<^sub>m chain \<and> length (workers s) = length blocks \<and>
     (\<forall>i < length blocks. worker_ok chain (blocks ! i) (workers s ! i)) \<and>
     mset (received s) =
       add_mset lastBlock (image_mset (\<lambda>i. the (chain (blocks ! i))) (mset_set (done_workers (workers s))))"

lemma finite_done [simp]: "finite (done_workers ws)"
  by (simp add: done_workers_def)

lemma done_update:
  "i < length ws \<Longrightarrow> ws ! i \<noteq> Done \<Longrightarrow>
     done_workers (ws[i := w]) = (if w = Done then insert i (done_workers ws) else done_workers ws)"
  by (auto simp: done_workers_def nth_list_update)

lemma not_done: "ws ! i \<noteq> Done \<Longrightarrow> i \<notin> done_workers ws"
  by (simp add: done_workers_def)

lemma fetch_inv_update:
  assumes inv: "fetch_inv chain blocks lb s" and i: "i < length (workers s)" "workers s ! i \<noteq> Done"
    and w: "w \<noteq> Done" "worker_ok chain (blocks ! i) w" and c: "cached c \<subseteq>\<^sub>m chain"
  shows "fetch_inv chain blocks lb (s\<lparr>fcache := c, workers := (workers s)[i := w]\<rparr>)"
  using assms by (auto simp: fetch_inv_def done_update nth_list_update)

lemma fetch_inv_step:
  assumes node: "node_of_chain chain HeaderByNumber" and range: "\<forall>n \<in> set blocks. 0 \<le> n \<and> n < 2 ^ 63"
    and inv: "fetch_inv chain blocks lb s" and step: "fetch_step HeaderByNumber s s'"
  shows "fetch_inv chain blocks lb s'"
proof -
  have agrees: "cached (fcache s) \<subseteq>\<^sub>m chain" and len: "length (workers s) = length blocks"
    and ok: "\<And>i. i < length (workers s) \<Longrightarrow> worker_ok chain (blocks ! i) (workers s ! i)"
    using inv by (simp_all add: fetch_inv_def)
  have key: "int64 (blocks ! i) = blocks ! i" if "i < length (workers s)" for i
  proof -
    have "blocks ! i \<in> set blocks" using that len by simp
    with range have "0 \<le> blocks ! i \<and> blocks ! i < 2 ^ 63" by blast
    then show ?thesis by (intro int64_id) simp_all
  qed
  show ?thesis
    using step
  proof (cases rule: fetch_step.cases)
    case (hit i n c' h)
    have n: "n = blocks ! i" using ok [OF hit(2)] hit(3) by simp
    have "chain (blocks ! i) = Some h" "cached c' \<subseteq>\<^sub>m chain"
      using lfu.hit_sound [OF agrees, of "blocks ! i" h] lfu.get_agrees [OF agrees, of "blocks ! i"] hit(4) key [OF hit(2)] n by simp_all
    then show ?thesis unfolding hit(1) using hit by (intro fetch_inv_update [OF inv]) simp_all
  next
    case (miss i n c')
    have "cached c' \<subseteq>\<^sub>m chain" using lfu.get_agrees [OF agrees, of "int64 n"] miss(4) by simp
    then show ?thesis unfolding miss(1) using miss ok [OF miss(2)] by (intro fetch_inv_update [OF inv]) simp_all
  next
    case (fetched i n h)
    have h: "chain (blocks ! i) = Some h" "hNumber h = blocks ! i"
      using node ok [OF fetched(2)] fetched(3,4) by (auto simp: node_of_chain_def)
    have "cached (LFU_put (fcache s) h) \<subseteq>\<^sub>m chain"
      by (rule lfu.put_agrees [OF agrees]) (simp add: h key [OF fetched(2)])
    then show ?thesis unfolding fetched(1) using fetched h by (intro fetch_inv_update [OF inv]) simp_all
  next
    case (failed i n err)
    have "fetch_inv chain blocks lb (s\<lparr>fcache := fcache s, workers := (workers s)[i := Failed]\<rparr>)"
      using failed agrees by (intro fetch_inv_update [OF inv]) simp_all
    then show ?thesis unfolding failed(1) by simp
  next
    case (deliver i h)
    have h: "chain (blocks ! i) = Some h" using ok [OF deliver(2)] deliver(3) by simp
    have "i \<notin> done_workers (workers s)" using deliver(3) by (simp add: not_done)
    then show ?thesis
      unfolding deliver(1) using inv deliver h by (auto simp: fetch_inv_def done_update nth_list_update)
  qed
qed

lemma done_start: "done_workers (map Start blocks) = {}"
  by (auto simp: done_workers_def)

lemma fetch_inv_start:
  "cached c \<subseteq>\<^sub>m chain \<Longrightarrow> fetch_inv chain blocks lb (start_fetch c lb blocks)"
  using done_start by (simp add: fetch_inv_def start_fetch_def)

lemma fetch_inv_run:
  assumes "node_of_chain chain HeaderByNumber" and "\<forall>n \<in> set blocks. 0 \<le> n \<and> n < 2 ^ 63"
    and "fetch_run HeaderByNumber s s'" and "fetch_inv chain blocks lb s"
  shows "fetch_inv chain blocks lb s'"
  using assms(3,4) by (induction rule: rtranclp_induct) (use fetch_inv_step [OF assms(1,2)] in blast)+

lemma collected_headers:
  assumes inv: "fetch_inv chain blocks lb s" and over: "wait_over s"
  shows "mset (received s) = mset (lb # map (\<lambda>n. the (chain n)) blocks)"
proof -
  have "done_workers (workers s) = {..<length blocks}"
    using inv over by (auto simp: done_workers_def wait_over_def fetch_inv_def list_all_length)
  then have "mset (received s) = add_mset lb (image_mset (\<lambda>i. the (chain (blocks ! i))) (mset_set {..<length blocks}))"
    using inv by (simp add: fetch_inv_def)
  also have "image_mset (\<lambda>i. the (chain (blocks ! i))) (mset_set {..<length blocks}) =
      mset (map (\<lambda>i. the (chain (blocks ! i))) [0..<length blocks])"
    by (simp add: lessThan_atLeast0)
  also have "map (\<lambda>i. the (chain (blocks ! i))) [0..<length blocks] = map (\<lambda>n. the (chain n)) blocks"
    by (rule nth_equalityI) simp_all
  finally show ?thesis by simp
qed

text \<open>The window of requested blocks.\<close>

lemma block_range_eq:
  assumes "0 \<le> stop"
  shows "block_range i stop = rev [max 2 (stop + 1)..i]"
  using assms
proof (induction i stop rule: block_range.induct)
  case (1 i stop)
  show ?case
  proof (cases "stop < i \<and> \<not> i \<le> 1")
    case True
    then have "[max 2 (stop + 1)..i] = [max 2 (stop + 1)..i - 1] @ [i]" by (intro upto_rec2) simp
    then show ?thesis using 1 True by (subst block_range.simps) simp
  next
    case False
    then have "[max 2 (stop + 1)..i] = []" by (auto simp: upto_empty)
    then show ?thesis using False by (subst block_range.simps) auto
  qed
qed

lemma requested_range:
  assumes "0 \<le> newest" "newest < 2 ^ 63" "n \<in> set (requested_blocks newest b)"
  shows "0 \<le> n \<and> n < 2 ^ 63"
  using assms uint64_range [of "newest - b"] by (simp add: requested_blocks_def block_range_eq)

lemma requested_int64:
  assumes "0 \<le> newest" "newest < 2 ^ 63"
  shows "map int64 (requested_blocks newest b) = requested_blocks newest b"
  using requested_range [OF assms] by (intro map_idI int64_id) force+

text \<open>
  The window of blocks the metric asks for: with at most as many blocks as the chain is high, the
  newest \<open>blocksNumber\<close> blocks but never block 1 or 0; with more, the subtraction wraps around
  and nothing is requested, although the loop was written to stop at block 1.
\<close>

theorem congestion_window:
  assumes "0 \<le> newest" "newest < 2 ^ 63" "0 \<le> b" "b < 2 ^ 63"
  shows "requested_blocks newest b = (if b \<le> newest then rev [max 2 (newest - b + 1)..newest] else [])"
proof (cases "b \<le> newest")
  case True
  then show ?thesis using assms by (simp add: requested_blocks_def uint64_id block_range_eq)
next
  case False
  have "uint64 (newest - b) = newest - b + 2 ^ 64"
  proof -
    have "uint64 (newest - b) = (newest - b + 2 ^ 64) mod 2 ^ 64" by (simp add: uint64_def)
    also have "\<dots> = newest - b + 2 ^ 64" using False assms by (intro mod_pos_pos_trivial) simp_all
    finally show ?thesis .
  qed
  with False assms show ?thesis by (simp add: requested_blocks_def block_range_eq)
qed

theorem congestion_window_witness:
  "requested_blocks 5 3 = [5, 4, 3] \<and> requested_blocks 3 3 = [3, 2] \<and> requested_blocks 5 6 = []"
  using congestion_window [of 5 3] congestion_window [of 3 3] congestion_window [of 5 6]
  by (simp add: upto_rec1)

text \<open>Sorting makes the order of arrival irrelevant: equal numbers mean equal headers.\<close>

lemma sort_key_arrival:
  assumes "mset xs = mset ys" and "inj_on f (set ys)"
  shows "sort_key f xs = sort_key f ys"
proof -
  have "set xs = set ys" using assms(1) by (metis set_mset_mset)
  then show ?thesis
    using assms by (intro sort_key_inj_key_eq [of xs "sort_key f ys" f]) simp_all
qed

lemma getHeaderData_agrees:
  assumes "node_of_chain chain HeaderByNumber" and "cached c \<subseteq>\<^sub>m chain" and "0 \<le> n" "n < 2 ^ 63"
    and "getHeaderData HeaderByNumber c (Some n) = (c', Inr h)"
  shows "chain n = Some h \<and> cached c' \<subseteq>\<^sub>m chain"
proof -
  have n: "int64 n = n" using assms(3,4) by (intro int64_id) simp_all
  obtain c1 r where g: "LFU_Get c n = (c1, r)" by fastforce
  have c1: "cached c1 \<subseteq>\<^sub>m chain" using lfu.get_agrees [OF assms(2), of n] g by simp
  show ?thesis
  proof (cases r)
    case None
    then have H: "HeaderByNumber n = Inr h" "c' = LFU_put c1 h"
      using assms(5) g n by (auto simp: getHeaderData_def split: sum.splits)
    with assms(1) have "chain n = Some h" "hNumber h = n" by (auto simp: node_of_chain_def)
    with H n show ?thesis using lfu.put_agrees [OF c1, of h] by simp
  next
    case (Some h')
    with assms(5) g n have "h' = h" "c' = c1" by (simp_all add: getHeaderData_def)
    with Some g c1 lfu.hit_sound [OF assms(2), of n h] show ?thesis by simp
  qed
qed

lemma collected_inj:
  assumes node: "node_of_chain chain HeaderByNumber" and lb: "chain n = Some lb"
    and inv: "fetch_inv chain blocks lb s" and over: "wait_over s"
  shows "inj_on hNumber (set (lb # map (\<lambda>k. the (chain k)) blocks))"
proof -
  have "chain k \<noteq> None" if k: "k \<in> set blocks" for k
  proof -
    obtain i where "i < length blocks" "k = blocks ! i" using k by (auto simp: in_set_conv_nth)
    with inv over show ?thesis by (fastforce simp: fetch_inv_def wait_over_def list_all_length)
  qed
  then have mem: "\<exists>k. chain k = Some h" if "h \<in> set (lb # map (\<lambda>k. the (chain k)) blocks)" for h
    using that lb by auto
  have num: "hNumber h = k" if "chain k = Some h" for k h
    using that node by (simp add: node_of_chain_def)
  have key: "chain (hNumber h) = Some h" if h: "h \<in> set (lb # map (\<lambda>k. the (chain k)) blocks)" for h
  proof -
    obtain k where "chain k = Some h" using mem [OF h] by blast
    with num [OF this] show ?thesis by simp
  qed
  show ?thesis
  proof (rule inj_onI)
    fix x y assume x: "x \<in> set (lb # map (\<lambda>k. the (chain k)) blocks)"
      and y: "y \<in> set (lb # map (\<lambda>k. the (chain k)) blocks)" and eq: "hNumber x = hNumber y"
    have "Some x = Some y" using key [OF x] key [OF y] unfolding eq by (rule trans [OF sym])
    then show "x = y" by (rule option.inject [THEN iffD1])
  qed
qed

definition ex_h2 :: Header where
  "ex_h2 = \<lparr>hNumber = 2, hGasUsed = 5, hGasLimit = 10\<rparr>"

definition ex_chain :: "int \<Rightarrow> Header option" where
  "ex_chain n = (if n = 2 then Some ex_h2 else None)"

definition ex_node :: "int \<Rightarrow> Header res" where
  "ex_node n = (if n = 2 then Inr ex_h2 else Inl ErrNotFound)"

definition ex_cached :: LFUHeaderCache where
  "ex_cached = LFU_put (NewLFUBlockCache 10) ex_h2"

lemma ex_node_of_chain: "node_of_chain ex_chain ex_node"
  by (simp add: node_of_chain_def ex_node_def ex_chain_def ex_h2_def)

lemma ex_requested: "requested_blocks 2 1 = [2]"
  by code_simp

lemma ex_min: "minBlockCount 200 = 160"
proof -
  let ?c = "3602879701896397 / 4503599627370496 :: rat"
  have c: "fl (8 / 10) = Fin (rnd64 (8 / 10))" by (rule fl_unit) simp_all
  have r: "rnd64 (8 / 10) = ?c" "rnd64 (200 * ?c) = 160" by code_simp+
  have p: "fl (200 * ?c) = Fin 160" unfolding r(2) [symmetric] by (rule fl_small [of _ 200]) simp_all
  have n: "float_of_int 200 = Fin 200" using float_of_int_exact [of 200] by simp
  have "minBlockCount 200 = int64_of_float (Fin 160)" unfolding minBlockCount_def c r(1) n fmul.simps p ..
  also have "\<dots> = 160" by code_simp
  finally show ?thesis .
qed

lemma ex_empty: "cached (NewLFUBlockCache 10) \<subseteq>\<^sub>m ex_chain"
proof -
  have "cached (NewLFUBlockCache 10) = Map.empty" by (simp add: fun_eq_iff cached_def NewLFUBlockCache_def)
  then show ?thesis by simp
qed

text \<open>
  When the wait is over, for every interleaving of the goroutines and whatever was cached beforehand, the collected headers are those
  of the window, with the newest block counted twice, and the newest-first metric does not depend on their order. The cache
  agrees with the chain before and after.
\<close>

lemma waited_headers:
  assumes node: "node_of_chain chain HeaderByNumber" and agrees: "cached c \<subseteq>\<^sub>m chain" and n: "0 \<le> n" "n < 2 ^ 63"
    and first: "getHeaderData HeaderByNumber c (Some n) = (c1, Inr lastBlock)"
    and run: "fetch_run HeaderByNumber (start_fetch c1 lastBlock (requested_blocks n b)) s" and over: "wait_over s"
  shows "chain n = Some lastBlock" and "cached (fcache s) \<subseteq>\<^sub>m chain"
    and "mset (received s) = mset (lastBlock # map (\<lambda>k. the (chain k)) (requested_blocks n b))"
    and "congestion_result Log10 b CongestionStrategy_NewestFirst (received s) =
      congestion_result Log10 b CongestionStrategy_NewestFirst (lastBlock # map (\<lambda>k. the (chain k)) (requested_blocks n b))"
proof -
  let ?blocks = "requested_blocks n b"
  show lb: "chain n = Some lastBlock" using getHeaderData_agrees [OF node agrees n first] by simp
  have c1: "cached c1 \<subseteq>\<^sub>m chain" using getHeaderData_agrees [OF node agrees n first] by simp
  have inv: "fetch_inv chain ?blocks lastBlock s"
    by (rule fetch_inv_run [OF node _ run fetch_inv_start [OF c1]]) (use requested_range [OF n] in blast)
  then show "cached (fcache s) \<subseteq>\<^sub>m chain" by (simp add: fetch_inv_def)
  show headers: "mset (received s) = mset (lastBlock # map (\<lambda>k. the (chain k)) ?blocks)"
    by (rule collected_headers [OF inv over])
  have len: "length (received s) = length (lastBlock # map (\<lambda>k. the (chain k)) ?blocks)"
    using headers by (metis size_mset)
  have "sort_key hNumber (received s) = sort_key hNumber (lastBlock # map (\<lambda>k. the (chain k)) ?blocks)"
    by (rule sort_key_arrival [OF headers collected_inj [OF node lb inv over]])
  then show "congestion_result Log10 b CongestionStrategy_NewestFirst (received s) =
      congestion_result Log10 b CongestionStrategy_NewestFirst (lastBlock # map (\<lambda>k. the (chain k)) ?blocks)"
    using len by (simp add: congestion_result_def calculateNewestFirstNetworkCongestionMetric_def
        CongestionStrategy_Simple_def CongestionStrategy_NewestFirst_def)
qed

lemma congestion_deterministic:
  assumes node: "node_of_chain chain HeaderByNumber" and answers: "\<And>k h. chain k = Some h \<Longrightarrow> HeaderByNumber k = Inr h"
    and agrees: "cached c \<subseteq>\<^sub>m chain" and n: "0 \<le> n" "n < 2 ^ 63" and newest: "chain n = Some newestBlock"
    and call: "CalculateNetworkCongestionMetric Log10 (Inr n) HeaderByNumber (Some c) b
      CongestionStrategy_NewestFirst c' r"
  shows "r = congestion_result Log10 b CongestionStrategy_NewestFirst
      (newestBlock # map (\<lambda>k. the (chain k)) (requested_blocks n b)) \<and>
    (\<exists>c''. c' = Some c'' \<and> cached c'' \<subseteq>\<^sub>m chain)"
  using call
proof (cases rule: CalculateNetworkCongestionMetric.cases)
  case (no_last c1 err)
  have "int64 n = n" using n by (intro int64_id) simp_all
  with no_last answers [OF newest] show ?thesis by (auto simp: getHeaderData_def split: prod.splits option.splits)
next
  case (waited c1 lastBlock s)
  have n64: "int64 n = n" using n by (intro int64_id) simp_all
  have first: "getHeaderData HeaderByNumber c (Some n) = (c1, Inr lastBlock)"
    and run: "fetch_run HeaderByNumber (start_fetch c1 lastBlock (requested_blocks n b)) s"
    using waited n64 requested_int64 [OF n, of b] by simp_all
  show ?thesis using waited_headers [OF node agrees n first run waited(5)] waited(1,2) newest by auto
qed

text \<open>Termination: a measure that every step decreases.\<close>

fun work_left :: "worker \<Rightarrow> nat" where
  "work_left (Start n) = 3"
| "work_left (Fetching n) = 2"
| "work_left (Sending h) = 1"
| "work_left w = 0"

definition total_work :: "fetch_state \<Rightarrow> nat" where
  "total_work s = sum_list (map work_left (workers s))"

lemma total_work_update:
  "i < length ws \<Longrightarrow> work_left w < work_left (ws ! i) \<Longrightarrow>
     sum_list (map work_left (ws[i := w])) < sum_list (map work_left ws)"
proof (induction ws arbitrary: i)
  case (Cons v ws)
  then show ?case by (cases i) auto
qed simp

lemma step_decreases: "fetch_step HeaderByNumber s s' \<Longrightarrow> total_work s' < total_work s"
  by (cases rule: fetch_step.cases, assumption) (auto simp: total_work_def intro!: total_work_update)

lemma step_exists:
  assumes "\<not> wait_over s" and "Failed \<notin> set (workers s)"
  shows "\<exists>s'. fetch_step HeaderByNumber s s'"
proof -
  obtain i where i: "i < length (workers s)" "workers s ! i \<noteq> Done" using assms(1) by (auto simp: wait_over_def list_all_length)
  show ?thesis
  proof (cases "workers s ! i")
    case (Start n)
    obtain c r where "LFU_Get (fcache s) (int64 n) = (c, r)" by fastforce
    with Start i show ?thesis by (cases r) (auto intro: fetch_step.hit fetch_step.miss)
  next
    case (Fetching n)
    with i show ?thesis by (cases "HeaderByNumber n") (auto intro: fetch_step.fetched fetch_step.failed)
  next
    case (Sending h)
    with i show ?thesis by (auto intro: fetch_step.deliver)
  next
    case Done
    with i show ?thesis by simp
  next
    case Failed
    with i assms(2) show ?thesis by (metis nth_mem)
  qed
qed

lemma no_failure:
  assumes "\<And>n. n \<in> set blocks \<Longrightarrow> \<exists>h. HeaderByNumber n = Inr h"
    and "fetch_run HeaderByNumber (start_fetch c lb blocks) s"
  shows "set (workers s) \<subseteq> Start ` set blocks \<union> Fetching ` set blocks \<union> range Sending \<union> {Done}"
  using assms(2)
proof (induction rule: rtranclp_induct)
  case base
  then show ?case by (auto simp: start_fetch_def)
next
  case (step s s')
  let ?ok = "Start ` set blocks \<union> Fetching ` set blocks \<union> range Sending \<union> {Done}"
  have ok: "workers s ! i \<in> ?ok" if "i < length (workers s)" for i
    using step.IH that by (meson nth_mem subsetD)
  have upd: "set ((workers s)[i := w]) \<subseteq> ?ok" if "w \<in> ?ok" for i w
    using step.IH set_update_subset_insert [of "workers s" i w] that by blast
  from step.hyps(2) show ?case
  proof (cases rule: fetch_step.cases)
    case (failed i n err)
    with ok [of i] assms(1) [of n] show ?thesis by auto
  next
    case (miss i n c')
    with ok [of i] upd [of "Fetching n" i] show ?thesis by auto
  qed (use upd in auto)
qed

text \<open>
  C17. When the node answers for every requested block, the wait cannot get stuck: from every state a run can
  reach, the remaining goroutines can finish, and no run takes more than three steps per block.
\<close>

theorem congestion_wait_ends:
  assumes "\<And>n. n \<in> set blocks \<Longrightarrow> \<exists>h. HeaderByNumber n = Inr h"
    and "(fetch_step HeaderByNumber ^^ k) (start_fetch c lb blocks) s"
  shows "k \<le> 3 * length blocks \<and> (\<exists>s'. fetch_run HeaderByNumber s s' \<and> wait_over s')"
proof
  have "k + total_work s \<le> total_work (start_fetch c lb blocks)"
    using assms(2) by (induction k arbitrary: s) (fastforce dest: step_decreases)+
  moreover have "total_work (start_fetch c lb blocks) = 3 * length blocks"
    by (simp add: total_work_def start_fetch_def comp_def sum_list_triv)
  ultimately show "k \<le> 3 * length blocks" by simp
  have "fetch_run HeaderByNumber (start_fetch c lb blocks) s"
    using assms(2) by (rule relpowp_imp_rtranclp)
  then show "\<exists>s'. fetch_run HeaderByNumber s s' \<and> wait_over s'"
  proof (induction "total_work s" arbitrary: s rule: less_induct)
    case less
    show ?case
    proof (cases "wait_over s")
      case False
      have "Failed \<notin> set (workers s)" using no_failure [OF assms(1) less.prems] by blast
      from step_exists [OF False this] obtain s1 where s1: "fetch_step HeaderByNumber s s1" by blast
      with less.hyps [OF step_decreases [OF s1]] less.prems show ?thesis
        by (meson converse_rtranclp_into_rtranclp rtranclp.rtrancl_into_rtrancl)
    qed blast
  qed
qed

theorem congestion_wait_ends_witness:
  "\<exists>s'. fetch_run ex_node (start_fetch ex_cached ex_h2 [2]) s' \<and> wait_over s'"
  using congestion_wait_ends [of "[2]" ex_node 0 ex_cached ex_h2 "start_fetch ex_cached ex_h2 [2]"]
  by (simp add: ex_node_def)

text \<open>
  One failed request is enough for the call never to return: the goroutine ends without counting down,
  so the wait is not over in any state reachable afterwards.
\<close>

lemma congestion_failed_fetch_hangs:
  assumes "Failed \<in> set (workers s)" and "fetch_run HeaderByNumber s s'"
  shows "Failed \<in> set (workers s') \<and> \<not> wait_over s'"
proof -
  have "Failed \<in> set (workers s')"
    using assms(2,1)
  proof (induction rule: rtranclp_induct)
    case (step s1 s2)
    then obtain j where j: "j < length (workers s1)" "workers s1 ! j = Failed" by (auto simp: in_set_conv_nth)
    have "Failed \<in> set ((workers s1)[i := w])" if "i < length (workers s1)" "workers s1 ! i \<noteq> Failed" for i w
      using j that by (metis in_set_conv_nth length_list_update nth_list_update_neq)
    with step.hyps(2) show ?case by (cases rule: fetch_step.cases) simp_all
  qed
  then show ?thesis by (auto simp: wait_over_def list_all_iff)
qed

end
