(* ===== verification/Gas_Bump.thy ===== *)
theory Gas_Bump
  imports Config Go_Float Geth_Types
begin

text \<open>
  Gas bumping (\<^verbatim>\<open>src/retry.go\<close>): the bump strategies and the construction of a replacement
  transaction. The node (looking up, sending) and go-ethereum's signing functions are the
  fields of \<open>tx_env\<close>; the transaction accessors are the fields of \<open>Transaction\<close>. The theorems
  bound the bumped price with the rounding the code really does, and say what a replacement
  keeps of the transaction it replaces.
\<close>

subsection \<open>Bump strategies\<close>

definition NoOpGasBumpStrategyFn :: GasBumpStrategyFn where
  "NoOpGasBumpStrategyFn previousGasPrice = Ret previousGasPrice"

text \<open>The three percentage strategies: \<open>float64\<close>, a product at 53 bits, then \<open>Int64\<close>.\<close>

definition bump_by :: "float64 \<Rightarrow> GasBumpStrategyFn" where
  "bump_by factor gasPrice =
     go_bind (big_NewFloat (float_of_int gasPrice)) (\<lambda>a.
     go_bind (big_NewFloat factor) (\<lambda>b.
     go_bind (big_Mul 53 a b) (\<lambda>newGasPriceFloat.
     Ret (big_Int64 newGasPriceFloat))))"

definition PriorityBasedGasBumpingStrategyFn :: "string \<Rightarrow> GasBumpStrategyFn" where
  "PriorityBasedGasBumpingStrategyFn priority =
     (if priority = Priority_Degen then (\<lambda>gasPrice. Ret (gasPrice * 2))
      else if priority = Priority_Fast then bump_by (fl (13 / 10))
      else if priority = Priority_Standard then bump_by (fl (115 / 100))
      else if priority = Priority_Slow then bump_by (fl (105 / 100))
      else (\<lambda>gasPrice. Ret gasPrice))"

lemma rnd64_factors:
  "rnd64 (13 / 10) = 5854679515581645 / 4503599627370496"
  "rnd64 (115 / 100) = 2589569785738035 / 2251799813685248"
  "rnd64 (105 / 100) = 4728779608739021 / 4503599627370496"
  by code_simp+

lemma fl_factors:
  "fl (13 / 10) = Fin (5854679515581645 / 4503599627370496)"
  "fl (115 / 100) = Fin (2589569785738035 / 2251799813685248)"
  "fl (105 / 100) = Fin (4728779608739021 / 4503599627370496)"
proof -
  have "fl x = Fin (rnd64 x)" if "\<bar>x\<bar> \<le> 2" for x
    using that by (intro fl_small [of _ 2]) simp_all
  from this [of "13 / 10"] this [of "115 / 100"] this [of "105 / 100"]
  show "fl (13 / 10) = Fin (5854679515581645 / 4503599627370496)"
    "fl (115 / 100) = Fin (2589569785738035 / 2251799813685248)"
    "fl (105 / 100) = Fin (4728779608739021 / 4503599627370496)"
    unfolding rnd64_factors by simp_all
qed

text \<open>What a multiplication by a factor above 1 does to a price in the \<open>int64\<close> range.\<close>

lemma rnd_int_ge1: "1 \<le> n \<Longrightarrow> (1 :: rat) \<le> rnd64 (of_int n)"
  using f64.mono [of 1 "of_int n"] by (simp add: f64.one)

lemma bump_by_value:
  assumes "0 \<le> n" and "n \<le> 2 ^ 64" and "0 \<le> c"
  shows "bump_by (Fin c) n = Ret (saturate64 \<lfloor>rnd 53 None (rnd64 (of_int n) * c)\<rfloor>)"
proof -
  have "0 \<le> rnd 53 None (rnd64 (of_int n) * c)"
    using assms by (intro big53.nonneg mult_nonneg_nonneg f64.nonneg) simp_all
  then show ?thesis
    by (simp add: bump_by_def float_of_int_fin [OF assms(1,2)] trunc_nonneg)
qed

lemma product_error:
  assumes n: "1 \<le> n" and c: "1 \<le> c"
  shows "of_int n * c * (1 - 3 / 2 ^ 53) \<le> rnd 53 None (rnd64 (of_int n) * c)"
    and "rnd 53 None (rnd64 (of_int n) * c) \<le> of_int n * c * (1 + 3 / 2 ^ 53)"
proof -
  let ?e = "1 / 2 ^ 53 :: rat"
  let ?f = "rnd64 (of_int n)" and ?x = "of_int n :: rat"
  have f: "\<bar>?f - ?x\<bar> \<le> ?x * ?e" using rnd_relative [of ?x "Some (-1074)" 53] n by simp
  have f1: "1 \<le> ?f" using rnd_int_ge1 [OF n] .
  have fc: "1 \<le> ?f * c" using mult_mono [of 1 ?f 1 c] f1 c by simp
  have g: "\<bar>rnd 53 None (?f * c) - ?f * c\<bar> \<le> ?f * c * ?e"
    using rnd_relative [OF fc, of None 53] by simp
  have lo: "?x * (1 - ?e) \<le> ?f" and up: "?f \<le> ?x * (1 + ?e)" using f unfolding abs_le_iff right_diff_distrib distrib_left by linarith+
  have lo2: "?x * (1 - ?e) * c \<le> ?f * c" and up2: "?f * c \<le> ?x * (1 + ?e) * c"
    using lo up c by (simp_all add: mult_right_mono)
  have x0: "0 \<le> ?x * c" using n c by simp
  have "?x * c * (1 - 3 * ?e) \<le> ?x * c * ((1 - ?e) * (1 - ?e))"
    by (intro mult_left_mono x0) simp
  also have "\<dots> = ?x * (1 - ?e) * c * (1 - ?e)" by (simp only: mult.assoc mult.commute mult.left_commute)
  also have "\<dots> \<le> ?f * c * (1 - ?e)" by (rule mult_right_mono [OF lo2]) simp
  also have "\<dots> = ?f * c - ?f * c * ?e" by (simp only: right_diff_distrib mult_1_right)
  also have "\<dots> \<le> rnd 53 None (?f * c)" using g unfolding abs_le_iff by linarith
  finally show "?x * c * (1 - 3 / 2 ^ 53) \<le> rnd 53 None (?f * c)" by simp
  have "rnd 53 None (?f * c) \<le> ?f * c + ?f * c * ?e" using g unfolding abs_le_iff by linarith
  also have "\<dots> = ?f * c * (1 + ?e)" by (simp only: distrib_left mult_1_right)
  also have "\<dots> \<le> ?x * (1 + ?e) * c * (1 + ?e)" by (rule mult_right_mono [OF up2]) simp
  also have "\<dots> = ?x * c * ((1 + ?e) * (1 + ?e))" by (simp only: mult.assoc mult.commute mult.left_commute)
  also have "\<dots> \<le> ?x * c * (1 + 3 * ?e)" by (intro mult_left_mono x0) simp
  finally show "rnd 53 None (?f * c) \<le> ?x * c * (1 + 3 / 2 ^ 53)" by simp
qed

lemma percentage_strategies:
  "PriorityBasedGasBumpingStrategyFn Priority_Fast = bump_by (Fin (5854679515581645 / 4503599627370496))"
  "PriorityBasedGasBumpingStrategyFn Priority_Standard = bump_by (Fin (2589569785738035 / 2251799813685248))"
  "PriorityBasedGasBumpingStrategyFn Priority_Slow = bump_by (Fin (4728779608739021 / 4503599627370496))"
  unfolding fl_factors [symmetric]
  by (simp_all add: PriorityBasedGasBumpingStrategyFn_def Priority_Degen_def Priority_Fast_def
      Priority_Standard_def Priority_Slow_def)

lemma bump_by_bounds:
  assumes n: "0 \<le> n" "n \<le> 7 * 10 ^ 18" and c: "104 / 100 \<le> c" "c \<le> 131 / 100"
  shows "\<exists>q. bump_by (Fin c) n = Ret q \<and> of_int n * c * (1 - 3 / 2 ^ 53) - 1 < of_int q \<and>
    of_int q \<le> of_int n * c * (1 + 3 / 2 ^ 53)"
proof -
  let ?v = "rnd 53 None (rnd64 (of_int n) * c)" and ?x = "of_int n :: rat"
  have range: "?x * c * (1 - 3 / 2 ^ 53) \<le> ?v \<and> ?v \<le> ?x * c * (1 + 3 / 2 ^ 53)"
    using product_error [of n c] c(1) n(1) by (cases "n = 0") simp_all
  have "(of_int n :: rat) \<le> of_int (7 * 10 ^ 18)" using n(2) by (simp only: of_int_le_iff)
  then have x: "0 \<le> ?x" "?x \<le> 7 * 10 ^ 18" using n(1) by simp_all
  have "?x * c \<le> 7 * 10 ^ 18 * (131 / 100)" using mult_mono [OF x(2) c(2)] x(1) c(1) by simp
  then have "?x * c * (1 + 3 / 2 ^ 53) \<le> 7 * 10 ^ 18 * (131 / 100) * (1 + 3 / 2 ^ 53)"
    by (rule mult_right_mono) simp
  also have "\<dots> < 2 ^ 63" by simp
  finally have "?v < 2 ^ 63" using range by linarith
  then have up: "\<lfloor>?v\<rfloor> < 2 ^ 63" by (simp add: floor_less_iff)
  have "0 \<le> ?x * c * (1 - 3 / 2 ^ 53)" using x(1) c(1) by simp
  then have "0 \<le> ?v" using range by linarith
  then have "0 \<le> \<lfloor>?v\<rfloor>" by simp
  with up have "saturate64 \<lfloor>?v\<rfloor> = \<lfloor>?v\<rfloor>" by (simp add: saturate64_def)
  moreover have "bump_by (Fin c) n = Ret (saturate64 \<lfloor>?v\<rfloor>)"
    using n c by (intro bump_by_value) simp_all
  moreover have "?x * c * (1 - 3 / 2 ^ 53) - 1 < of_int \<lfloor>?v\<rfloor>" "of_int \<lfloor>?v\<rfloor> \<le> ?x * c * (1 + 3 / 2 ^ 53)"
    using range by linarith+
  ultimately show ?thesis by (intro exI [of _ "\<lfloor>?v\<rfloor>"] conjI) simp_all
qed

lemma priority_bump_raises:
  assumes priority: "(priority, percent) \<in> {(Priority_Fast, 130), (Priority_Standard, 115), (Priority_Slow, 105)}"
    and price: "0 \<le> price" "price \<le> 7 * 10 ^ 18"
  shows "\<exists>newPrice. PriorityBasedGasBumpingStrategyFn priority price = Ret newPrice \<and> price \<le> newPrice \<and>
    (20 < price \<longrightarrow> price < newPrice) \<and>
    \<bar>of_int newPrice - of_int price * percent / 100\<bar> \<le> (1 :: rat) + of_int price / 2 ^ 50"
proof -
  obtain c where c: "PriorityBasedGasBumpingStrategyFn priority = bump_by (Fin c)"
    and c_near: "percent / 100 - 1 / 2 ^ 52 \<le> c" "c \<le> percent / 100 + 1 / 2 ^ 52"
    and p: "105 \<le> percent" "percent \<le> 130"
    using priority by (auto simp: percentage_strategies)
  have range: "104 / 100 \<le> c" "c \<le> 131 / 100" using c_near p by simp_all
  obtain q where q: "bump_by (Fin c) price = Ret q"
    and lo: "of_int price * c * (1 - 3 / 2 ^ 53) - 1 < of_int q"
    and up: "of_int q \<le> of_int price * c * (1 + 3 / 2 ^ 53)"
    using bump_by_bounds [OF price range] by blast
  let ?x = "of_int price :: rat"
  have x: "0 \<le> ?x" using price by simp
  have "percent / 100 - 1 / 2 ^ 50 \<le> c * (1 - 3 / 2 ^ 53)" "c * (1 + 3 / 2 ^ 53) \<le> percent / 100 + 1 / 2 ^ 50"
    using c_near range p by (simp_all add: algebra_simps)
  from mult_left_mono [OF this(1) x] mult_left_mono [OF this(2) x]
  have lo': "?x * percent / 100 - ?x / 2 ^ 50 - 1 < of_int q" and up': "of_int q \<le> ?x * percent / 100 + ?x / 2 ^ 50"
    using lo up by (simp_all add: algebra_simps)
  have "?x * 105 \<le> ?x * percent" using p(1) x by (rule mult_left_mono)
  with lo' x have gt: "?x - 1 + ?x / 100 * 4 < of_int q" by simp
  then have "of_int (price - 1) < (of_int q :: rat)" using x by simp
  then have le: "price \<le> q" by (simp only: of_int_less_iff)
  have less: "price < q" if "20 < price"
  proof -
    have "21 \<le> price" using that by simp
    then have "of_int 21 \<le> ?x" by (simp only: of_int_le_iff)
    moreover have "?x / 2 ^ 50 \<le> ?x / 1000" using x by simp
    ultimately have "?x < of_int q"
      using lo' \<open>?x * 105 \<le> ?x * percent\<close> unfolding of_int_numeral by linarith
    then show ?thesis by (simp only: of_int_less_iff)
  qed
  have "\<bar>of_int q - ?x * percent / 100\<bar> \<le> 1 + ?x / 2 ^ 50"
    using lo' up' unfolding abs_le_iff by linarith
  with le less q show ?thesis by (simp add: c)
qed

text \<open>
  C28. On every price up to 7 ether per unit of gas the percentage strategies do what their comments
  say: the result is within 1 wei and a relative error of \<open>2 ^ -50\<close> of the price plus 30, 15
  or 5 percent, in spite of the conversions through floating point, and it is never below the
  old price. It is above the old price as soon as that is over 20 wei.
\<close>

theorem priority_bump_bounds:
  assumes priority: "(priority, percent) \<in> {(Priority_Fast, 130), (Priority_Standard, 115), (Priority_Slow, 105)}"
    and price: "0 \<le> price" "price \<le> 7 * 10 ^ 18"
  shows "\<exists>newPrice. PriorityBasedGasBumpingStrategyFn priority price = Ret newPrice \<and> price \<le> newPrice \<and>
    (20 < price \<longrightarrow> price < newPrice) \<and>
    \<bar>of_int newPrice - of_int price * percent / 100\<bar> \<le> (1 :: rat) + of_int price / 2 ^ 50"
  by (rule priority_bump_raises [OF assms])

theorem priority_bump_bounds_witness:
  "PriorityBasedGasBumpingStrategyFn Priority_Fast 1000000000 = Ret 1300000000 \<and>
   (\<exists>newPrice. PriorityBasedGasBumpingStrategyFn Priority_Fast 1000000000 = Ret newPrice \<and> 1000000000 < newPrice)"
proof
  show "PriorityBasedGasBumpingStrategyFn Priority_Fast 1000000000 = Ret 1300000000"
    unfolding percentage_strategies by (subst bump_by_value) (simp_all, code_simp)
  show "\<exists>newPrice. PriorityBasedGasBumpingStrategyFn Priority_Fast 1000000000 = Ret newPrice \<and> 1000000000 < newPrice"
    using priority_bump_bounds [of Priority_Fast 130 1000000000] by auto
qed

subsection \<open>Transactions\<close>

text \<open>What the accessors of \<open>types.Transaction\<close> return, and the transaction data the code builds.\<close>

type_synonym AccessList = "(address \<times> hash list) list"

definition LegacyTxType :: int where "LegacyTxType = 0"
definition AccessListTxType :: int where "AccessListTxType = 1"
definition DynamicFeeTxType :: int where "DynamicFeeTxType = 2"
definition BlobTxType :: int where "BlobTxType = 3"

record Transaction =
  txType :: int
  txHash :: hash
  txChainId :: int
  txNonce :: int
  txTo :: "address option"
  txValue :: int
  txGas :: int
  txGasPrice :: int
  txGasFeeCap :: int
  txGasTipCap :: int
  txBlobGasFeeCap :: int
  txData :: "byte list"
  txAccessList :: AccessList
  txBlobHashes :: "hash list"

record TxCommon =
  dNonce :: int
  dTo :: "address option"
  dValue :: int
  dGas :: int
  dData :: "byte list"

text \<open>The four kinds of transaction data: the common fields, then the prices (nil when left out) and lists.\<close>

datatype TxData =
    LegacyTx TxCommon "int option"
  | DynamicFeeTx TxCommon int int
  | BlobTx TxCommon int int int "hash list"
  | AccessListTx TxCommon "int option" AccessList

record 'pk tx_env =
  TransactionByHash :: "hash \<Rightarrow> bool res"
  Sender :: "Transaction \<Rightarrow> address res"
  SignNewTx :: "'pk \<Rightarrow> int \<Rightarrow> TxData \<Rightarrow> Transaction res"
  SendTransaction :: "Transaction \<Rightarrow> goerr option"

definition call_strategy :: "Config \<Rightarrow> int \<Rightarrow> int go" where
  "call_strategy cfg price = (case GasBump cfg of
      None \<Rightarrow> Panic ''nil pointer dereference''
    | Some g \<Rightarrow> (case StrategyFn g of None \<Rightarrow> Panic ''nil pointer dereference'' | Some f \<Rightarrow> f price))"

definition checkMaxPrice :: "Config \<Rightarrow> int \<Rightarrow> int \<Rightarrow> goerr option" where
  "checkMaxPrice cfg gasPrice maxGasPrice =
     (if \<not> HasMaxBumpGasPrice cfg then None
      else if gasPrice > maxGasPrice
        then Some (ErrNew (''bumped gas price '' @ Itoa gasPrice @ '' is higher than max gas price '' @ Itoa maxGasPrice))
      else None)"

definition common_of :: "Transaction \<Rightarrow> TxCommon" where
  "common_of tx = \<lparr>dNonce = txNonce tx, dTo = txTo tx, dValue = txValue tx, dGas = txGas tx, dData = txData tx\<rparr>"

text \<open>The four cases of the type switch: the data of the replacement, or why there is none.\<close>

definition legacy_case :: "Config \<Rightarrow> int \<Rightarrow> Transaction \<Rightarrow> TxData res go" where
  "legacy_case cfg maxGasPrice tx =
     go_bind (call_strategy cfg (txGasPrice tx)) (\<lambda>gasPrice.
     Ret (case checkMaxPrice cfg gasPrice maxGasPrice of
         Some err \<Rightarrow> Inl err
       | None \<Rightarrow> Inr (LegacyTx (common_of tx) (Some gasPrice))))"

definition dynamic_case :: "Config \<Rightarrow> int \<Rightarrow> Transaction \<Rightarrow> TxData res go" where
  "dynamic_case cfg maxGasPrice tx =
     go_bind (call_strategy cfg (txGasFeeCap tx)) (\<lambda>gasFeeCap.
     go_bind (call_strategy cfg (txGasTipCap tx)) (\<lambda>gasTipCap.
     Ret (case checkMaxPrice cfg (gasFeeCap + gasTipCap) maxGasPrice of
         Some err \<Rightarrow> Inl err
       | None \<Rightarrow> Inr (DynamicFeeTx (common_of tx) gasFeeCap gasTipCap))))"

definition blob_case :: "Config \<Rightarrow> int \<Rightarrow> Transaction \<Rightarrow> TxData res go" where
  "blob_case cfg maxGasPrice tx =
     (if txTo tx = None then Ret (Inl (ErrNew ''blob tx with nil recipient is not supported''))
      else
        go_bind (call_strategy cfg (txGasFeeCap tx)) (\<lambda>gasFeeCap.
        go_bind (call_strategy cfg (txGasTipCap tx)) (\<lambda>gasTipCap.
        go_bind (call_strategy cfg (txBlobGasFeeCap tx)) (\<lambda>blobFeeCap.
        Ret (case checkMaxPrice cfg (gasFeeCap + (gasTipCap + blobFeeCap)) maxGasPrice of
            Some err \<Rightarrow> Inl err
          | None \<Rightarrow> Inr (BlobTx ((common_of tx)\<lparr>dValue := uint64 (txValue tx)\<rparr>)
                        (uint64 gasFeeCap) (uint64 gasTipCap) (uint64 blobFeeCap) (txBlobHashes tx)))))))"

definition access_list_case :: "Config \<Rightarrow> int \<Rightarrow> Transaction \<Rightarrow> TxData res go" where
  "access_list_case cfg maxGasPrice tx =
     go_bind (call_strategy cfg (txGasPrice tx)) (\<lambda>gasPrice.
     Ret (case checkMaxPrice cfg gasPrice maxGasPrice of
         Some err \<Rightarrow> Inl err
       | None \<Rightarrow> Inr (AccessListTx (common_of tx) None (txAccessList tx))))"

definition replacement_data :: "Config \<Rightarrow> int \<Rightarrow> Transaction \<Rightarrow> TxData res go" where
  "replacement_data cfg maxGasPrice tx =
     (if txType tx = LegacyTxType then legacy_case cfg maxGasPrice tx
      else if txType tx = DynamicFeeTxType then dynamic_case cfg maxGasPrice tx
      else if txType tx = BlobTxType then blob_case cfg maxGasPrice tx
      else if txType tx = AccessListTxType then access_list_case cfg maxGasPrice tx
      else Ret (Inl (ErrNew (''unsupported tx type '' @ Itoa (txType tx)))))"

fun index_of :: "'a \<Rightarrow> 'a list \<Rightarrow> nat option" where
  "index_of x [] = None"
| "index_of x (y # ys) = (if y = x then Some 0 else map_option Suc (index_of x ys))"

definition quote_char :: string where
  "quote_char = [char_of (39 :: nat)]"

text \<open>The end of every case: sign with the sender's key, send, return.\<close>

fun sign_and_send :: "'pk tx_env \<Rightarrow> 'pk \<Rightarrow> int \<Rightarrow> TxData res \<Rightarrow> Transaction option \<times> Transaction res" where
  "sign_and_send env privateKey chainId (Inl err) = (None, Inl err)"
| "sign_and_send env privateKey chainId (Inr newData) =
     (case SignNewTx env privateKey chainId newData of
        Inl err \<Rightarrow> (None, Inl err)
      | Inr replacementTx \<Rightarrow>
          (case SendTransaction env replacementTx of
             Some err \<Rightarrow> (Some replacementTx, Inl err)
           | None \<Rightarrow> (Some replacementTx, Inr replacementTx)))"

text \<open>
  \<open>prepareReplacementTransaction\<close> returns the transaction it handed to the node, if any, and
  its result.
\<close>

definition prepareReplacementTransaction ::
  "'pk tx_env \<Rightarrow> (address \<Rightarrow> string) \<Rightarrow> Config \<Rightarrow> address list \<Rightarrow> 'pk list \<Rightarrow> Transaction \<Rightarrow>
   (Transaction option \<times> Transaction res) go" where
  "prepareReplacementTransaction env addrString cfg addrs pks tx =
     go_bind (deref cfg (cfgNetwork cfg)) (\<lambda>net.
     if TxnTimeout net = None then Panic ''nil pointer dereference''
     else case TransactionByHash env (txHash tx) of
       Inl err \<Rightarrow> Ret (None, Inl err)
     | Inr isPending \<Rightarrow>
         if \<not> isPending then Ret (None, Inl (ErrNew ''transaction was confirmed before bumping gas''))
         else case Sender env tx of
           Inl err \<Rightarrow> Ret (None, Inl err)
         | Inr sender \<Rightarrow>
             (case index_of sender addrs of
                None \<Rightarrow> Ret (None, Inl (ErrNew (''sender address '' @ quote_char @ addrString sender @ quote_char @ '' not found in loaded private keys'')))
              | Some senderPkIdx \<Rightarrow>
                  (case GasBump cfg of
                     None \<Rightarrow> Panic ''nil pointer dereference''
                   | Some g \<Rightarrow>
                       go_bind (go_index pks (int senderPkIdx)) (\<lambda>privateKey.
                       go_bind (replacement_data cfg (MaxGasPrice g) tx) (\<lambda>d.
                       Ret (sign_and_send env privateKey (txChainId tx) d))))))"

subsection \<open>What a replacement keeps and what it bids\<close>

fun data_common :: "TxData \<Rightarrow> TxCommon" where
  "data_common (LegacyTx c p) = c"
| "data_common (DynamicFeeTx c f t) = c"
| "data_common (BlobTx c f t b h) = c"
| "data_common (AccessListTx c p a) = c"

text \<open>The price the code compares with the maximum; nothing when the data has no price at all.\<close>

fun bid :: "TxData \<Rightarrow> int option" where
  "bid (LegacyTx c p) = p"
| "bid (DynamicFeeTx c f t) = Some (f + t)"
| "bid (BlobTx c f t b h) = Some (f + (t + b))"
| "bid (AccessListTx c p a) = p"

lemmas replacement_cases =
  replacement_data_def legacy_case_def dynamic_case_def blob_case_def access_list_case_def

lemma index_of_Some: "index_of x ys = Some i \<Longrightarrow> i < length ys \<and> ys ! i = x"
  by (induction ys arbitrary: i) (auto split: if_splits)

lemma checked_iff [simp]:
  "(case checkMaxPrice cfg p m of None \<Rightarrow> Inr x | Some err \<Rightarrow> Inl err) = Inr d \<longleftrightarrow>
     d = x \<and> (HasMaxBumpGasPrice cfg \<longrightarrow> p \<le> m)"
  by (auto simp: checkMaxPrice_def)

lemma sign_and_send_Inr:
  "sign_and_send env k c d = (sent, Inr r) \<longleftrightarrow>
     (\<exists>newData. d = Inr newData \<and> SignNewTx env k c newData = Inr r \<and> SendTransaction env r = None \<and> sent = Some r)"
  by (cases d) (auto split: sum.splits option.splits)

lemma replacement_data_keeps:
  assumes "replacement_data cfg m tx = Ret (Inr d)"
  shows "dNonce (data_common d) = txNonce tx" "dTo (data_common d) = txTo tx"
    "dGas (data_common d) = txGas tx" "dData (data_common d) = txData tx"
    "dValue (data_common d) = (if txType tx = BlobTxType then uint64 (txValue tx) else txValue tx)"
    "bid d = None \<longleftrightarrow> txType tx = AccessListTxType"
  using assms
  by (auto simp: replacement_cases go_bind_Ret_iff common_of_def LegacyTxType_def DynamicFeeTxType_def
      BlobTxType_def AccessListTxType_def split: if_splits)

lemma uint64_le: "0 \<le> x \<Longrightarrow> uint64 x \<le> x"
  by (simp add: uint64_def zmod_le_nonneg_dividend)

lemma replacement_data_capped:
  assumes d: "replacement_data cfg m tx = Ret (Inr d)" and bid: "bid d = Some b" and cap: "HasMaxBumpGasPrice cfg"
    and nonneg: "\<And>p q. call_strategy cfg p = Ret q \<Longrightarrow> 0 \<le> q"
  shows "b \<le> m"
proof -
  have blob: "uint64 f + (uint64 t + uint64 b) \<le> m" if "f + (t + b) \<le> m" "0 \<le> f" "0 \<le> t" "0 \<le> b" for f t b
    using that uint64_le [of f] uint64_le [of t] uint64_le [of b] by linarith
  show ?thesis
    using d bid nonneg
    by (auto simp: replacement_cases go_bind_Ret_iff cap intro!: blob split: if_splits)
qed

text \<open>
  C8. A replacement that \<open>prepareReplacementTransaction\<close> returns was handed to the node, is
  signed with the key of the original sender for the same chain, and keeps nonce, recipient, gas limit,
  call data and value of the original (a blob transaction keeps its value modulo \<open>2 ^ 64\<close>). When a maximum
  price is configured, what it bids does not exceed it. An access list transaction is the one
  kind whose replacement carries no price.
\<close>

theorem replacement_faithful:
  assumes run: "prepareReplacementTransaction env addrString cfg addrs pks tx = Ret (sent, Inr r)"
    and gb: "GasBump cfg = Some g"
    and nonneg: "\<And>p q. call_strategy cfg p = Ret q \<Longrightarrow> 0 \<le> q"
  shows "\<exists>i d. i < length addrs \<and> Sender env tx = Inr (addrs ! i) \<and> i < length pks \<and>
    SignNewTx env (pks ! i) (txChainId tx) d = Inr r \<and> sent = Some r \<and> SendTransaction env r = None \<and>
    TransactionByHash env (txHash tx) = Inr True \<and>
    dNonce (data_common d) = txNonce tx \<and> dTo (data_common d) = txTo tx \<and>
    dGas (data_common d) = txGas tx \<and> dData (data_common d) = txData tx \<and>
    dValue (data_common d) = (if txType tx = BlobTxType then uint64 (txValue tx) else txValue tx) \<and>
    (bid d = None \<longleftrightarrow> txType tx = AccessListTxType) \<and>
    (\<forall>b. bid d = Some b \<and> HasMaxBumpGasPrice cfg \<longrightarrow> b \<le> MaxGasPrice g)"
proof -
  from run gb obtain sender i d pk where
    s: "Sender env tx = Inr sender" and i: "index_of sender addrs = Some i"
    and pk: "go_index pks (int i) = Ret pk" and d: "replacement_data cfg (MaxGasPrice g) tx = Ret (Inr d)"
    and sign: "SignNewTx env pk (txChainId tx) d = Inr r" and sent: "sent = Some r" "SendTransaction env r = None"
    and pending: "TransactionByHash env (txHash tx) = Inr True"
    by (auto simp: prepareReplacementTransaction_def go_bind_Ret_iff sign_and_send_Inr
        split: if_splits sum.splits option.splits)
  from pk have "i < length pks" "pk = pks ! i" by (simp_all add: go_index_def split: if_splits)
  with s index_of_Some [OF i] sign sent pending replacement_data_keeps [OF d] replacement_data_capped [OF d _ _ nonneg]
  show ?thesis by (intro exI [of _ i] exI [of _ d]) simp
qed

definition ex_tx :: Transaction where
  "ex_tx = \<lparr>txType = 0, txHash = [1], txChainId = 1337, txNonce = 5, txTo = Some [2], txValue = 10,
     txGas = 21000, txGasPrice = 1000, txGasFeeCap = 1000, txGasTipCap = 1000, txBlobGasFeeCap = 0,
     txData = [], txAccessList = [], txBlobHashes = []\<rparr>"

definition ex_env :: "nat tx_env" where
  "ex_env = \<lparr>TransactionByHash = (\<lambda>h. Inr True), Sender = (\<lambda>tx. Inr [7]),
     SignNewTx = (\<lambda>k c d. Inr ex_tx), SendTransaction = (\<lambda>tx. None)\<rparr>"

definition ex_bump :: GasBumpConfig where
  "ex_bump = \<lparr>Retries = 3, MaxGasPrice = 0, StrategyFn = Some (\<lambda>p. Ret \<bar>2 * p\<bar>)\<rparr>"

lemma ex_call_strategy: "call_strategy (ex_cfg\<lparr>GasBump := Some ex_bump\<rparr>) p = Ret \<bar>2 * p\<bar>"
  by (simp add: call_strategy_def ex_bump_def)

lemma ex_replacement:
  "prepareReplacementTransaction ex_env (\<lambda>a. []) (ex_cfg\<lparr>GasBump := Some ex_bump\<rparr>) [[8], [7]] [1, 2] ex_tx =
     Ret (Some ex_tx, Inr ex_tx)"
  by (simp add: prepareReplacementTransaction_def replacement_cases call_strategy_def ex_env_def ex_tx_def
      ex_cfg_def ex_net_def deref_def go_index_def checkMaxPrice_def HasMaxBumpGasPrice_def ex_bump_def LegacyTxType_def)

theorem replacement_faithful_witness:
  "\<exists>i d. i < 2 \<and> SignNewTx ex_env ([1, 2] ! i) 1337 d = Inr ex_tx \<and> dNonce (data_common d) = 5"
proof -
  have "\<exists>i d. i < length [[8], [7]] \<and> SignNewTx ex_env ([1, 2] ! i) (txChainId ex_tx) d = Inr ex_tx \<and>
    dNonce (data_common d) = txNonce ex_tx"
    using replacement_faithful [OF ex_replacement] by (fastforce simp: ex_call_strategy)
  then show ?thesis by (simp add: ex_tx_def numeral_2_eq_2)
qed

lemma known_strategy_raises:
  assumes "known_priority priority" and "20 < price" and "price \<le> 7 * 10 ^ 18"
    and "PriorityBasedGasBumpingStrategyFn priority price = Ret newPrice"
  shows "price < newPrice"
proof (cases "priority = Priority_Degen")
  case True
  then show ?thesis using assms by (simp add: PriorityBasedGasBumpingStrategyFn_def)
next
  case False
  then obtain percent where "(priority, percent) \<in> {(Priority_Fast, 130), (Priority_Standard, 115), (Priority_Slow, 105 :: rat)}"
    using assms(1) by (auto simp: known_priority_def)
  from priority_bump_raises [OF this, of price] assms(2-) show ?thesis by auto
qed


definition ex_bump_std :: GasBumpConfig where
  "ex_bump_std = ex_bump\<lparr>StrategyFn := Some (PriorityBasedGasBumpingStrategyFn Priority_Degen)\<rparr>"


text \<open>
  The percentage strategies saturate: a price above the largest \<open>int64\<close> is not raised but
  cut down to \<open>2 ^ 63 - 1\<close>.
\<close>

theorem priority_bump_saturates:
  assumes "priority \<in> {Priority_Fast, Priority_Standard, Priority_Slow}"
    and price: "2 ^ 63 \<le> price" "price \<le> 2 ^ 64"
  shows "PriorityBasedGasBumpingStrategyFn priority price = Ret (2 ^ 63 - 1)"
proof -
  obtain c where c: "PriorityBasedGasBumpingStrategyFn priority = bump_by (Fin c)" "1 \<le> c"
    using assms(1) by (auto simp: percentage_strategies)
  let ?v = "rnd 53 None (rnd64 (of_int price) * c)"
  have pow: "rnd64 (2 ^ 63) = 2 ^ 63" "rnd 53 None (2 ^ 63) = 2 ^ 63" by code_simp+
  have "(of_int (2 ^ 63) :: rat) \<le> of_int price" using price(1) by (simp only: of_int_le_iff)
  then have "2 ^ 63 \<le> rnd64 (of_int price)" using f64.fixed_le [OF _ pow(1)] by simp
  from mult_mono [OF this c(2)] this have "2 ^ 63 \<le> rnd64 (of_int price) * c" by simp
  then have "2 ^ 63 \<le> ?v" using big53.fixed_le [OF _ pow(2)] by simp
  then have "2 ^ 63 \<le> \<lfloor>?v\<rfloor>" by (simp add: le_floor_iff)
  moreover have "bump_by (Fin c) price = Ret (saturate64 \<lfloor>?v\<rfloor>)"
    using price c(2) by (intro bump_by_value) simp_all
  ultimately show ?thesis by (simp add: c saturate64_def)
qed

theorem priority_bump_saturates_witness:
  "PriorityBasedGasBumpingStrategyFn Priority_Slow (10 ^ 19) = Ret (2 ^ 63 - 1)"
  using priority_bump_saturates [of Priority_Slow "10 ^ 19"] by simp

end
