(* ===== verification/Congestion_Run.thy ===== *)
theory Congestion_Run
  imports Congestion
begin

text \<open>
  \<open>CalculateNetworkCongestionMetric\<close> as a function, for its callers: the schedule of the goroutines is an argument, a list
  of goroutine numbers, each of which takes its next step; goroutines that are not finished after it continue in turn. A
  call whose wait is never over is \<open>Hangs\<close>. The schedules give exactly the outcomes of the step relation of theory
  \<^verbatim>\<open>Congestion\<close>, and what the call does is determined by which blocks are cached or answered by the node, whatever the schedule.
\<close>

definition worker_step :: "(int \<Rightarrow> Header res) \<Rightarrow> nat \<Rightarrow> fetch_state \<Rightarrow> fetch_state" where
  "worker_step HeaderByNumber i s =
     (if i < length (workers s) then
        (case workers s ! i of
           Start n \<Rightarrow>
             (case LFU_Get (fcache s) (int64 n) of
                (c', Some h) \<Rightarrow> s\<lparr>fcache := c', workers := (workers s)[i := Sending h]\<rparr>
              | (c', None) \<Rightarrow> s\<lparr>fcache := c', workers := (workers s)[i := Fetching n]\<rparr>)
         | Fetching n \<Rightarrow>
             (case HeaderByNumber n of
                Inr h \<Rightarrow> s\<lparr>fcache := LFU_put (fcache s) h, workers := (workers s)[i := Sending h]\<rparr>
              | Inl err \<Rightarrow> s\<lparr>workers := (workers s)[i := Failed]\<rparr>)
         | Sending h \<Rightarrow> s\<lparr>workers := (workers s)[i := Done], received := received s @ [h]\<rparr>
         | Done \<Rightarrow> s
         | Failed \<Rightarrow> s)
      else s)"

definition run_schedule :: "(int \<Rightarrow> Header res) \<Rightarrow> nat list \<Rightarrow> fetch_state \<Rightarrow> fetch_state" where
  "run_schedule HeaderByNumber sched s = fold (worker_step HeaderByNumber) sched s"

text \<open>Three more turns for everybody: no goroutine has more steps than that.\<close>

definition run_all :: "(int \<Rightarrow> Header res) \<Rightarrow> nat list \<Rightarrow> fetch_state \<Rightarrow> fetch_state" where
  "run_all HeaderByNumber sched s =
     (let turn = [0..<length (workers s)] in run_schedule HeaderByNumber (sched @ turn @ turn @ turn) s)"

definition congestion_run ::
  "(float64 \<Rightarrow> float64) \<Rightarrow> int res \<Rightarrow> (int \<Rightarrow> Header res) \<Rightarrow> LFUHeaderCache option \<Rightarrow> int \<Rightarrow> string \<Rightarrow> nat list \<Rightarrow>
   (LFUHeaderCache option \<times> float64 res) go" where
  "congestion_run Log10 bnum HeaderByNumber hc blocksNumber strategy sched =
     (case hc of
        None \<Rightarrow> Ret (None, Inl (ErrNew ''header cache is nil''))
      | Some c \<Rightarrow>
          (case bnum of
             Inl err \<Rightarrow> Ret (Some c, Inl err)
           | Inr lastBlockNumber \<Rightarrow>
               (case getHeaderData HeaderByNumber c (Some (int64 lastBlockNumber)) of
                  (c', Inl err) \<Rightarrow> Ret (Some c', Inl err)
                | (c', Inr lastBlock) \<Rightarrow>
                    (let s = run_all HeaderByNumber sched
                           (start_fetch c' lastBlock (map int64 (requested_blocks lastBlockNumber blocksNumber))) in
                     if wait_over s then Ret (Some (fcache s), congestion_result Log10 blocksNumber strategy (received s))
                     else Hangs))))"

subsection \<open>Schedules and the step relation\<close>

lemma worker_step_sound:
  "worker_step HeaderByNumber i s = s \<or> fetch_step HeaderByNumber s (worker_step HeaderByNumber i s)"
proof (cases "i < length (workers s)")
  case i: True
  show ?thesis
  proof (cases "workers s ! i")
    case (Start n)
    obtain c' r where g: "LFU_Get (fcache s) (int64 n) = (c', r)" by fastforce
    with i Start show ?thesis
      by (cases r) (auto simp: worker_step_def intro: fetch_step.hit fetch_step.miss)
  next
    case (Fetching n)
    with i show ?thesis
      by (cases "HeaderByNumber n") (auto simp: worker_step_def intro: fetch_step.fetched fetch_step.failed)
  qed (use i in \<open>auto simp: worker_step_def intro: fetch_step.deliver\<close>)
qed (simp add: worker_step_def)

lemma worker_step_complete:
  assumes "fetch_step HeaderByNumber s s'"
  obtains i where "s' = worker_step HeaderByNumber i s"
proof -
  obtain i where "i < length (workers s)" "s' = worker_step HeaderByNumber i s"
    using assms by (cases rule: fetch_step.cases) (force simp: worker_step_def)+
  with that show ?thesis by blast
qed

lemma run_schedule_sound: "fetch_run HeaderByNumber s (run_schedule HeaderByNumber sched s)"
proof (induction sched arbitrary: s)
  case (Cons i sched)
  have "fetch_run HeaderByNumber s (worker_step HeaderByNumber i s)"
    using worker_step_sound [of HeaderByNumber i s] by auto
  with Cons [of "worker_step HeaderByNumber i s"] show ?case
    by (simp add: run_schedule_def)
qed (simp add: run_schedule_def)

lemma run_schedule_complete:
  "fetch_run HeaderByNumber s s' \<Longrightarrow> \<exists>sched. s' = run_schedule HeaderByNumber sched s"
proof (induction rule: rtranclp_induct)
  case base
  show ?case by (rule exI [of _ "[]"]) (simp add: run_schedule_def)
next
  case (step s1 s2)
  then obtain sched where "s1 = run_schedule HeaderByNumber sched s" by blast
  moreover obtain i where "s2 = worker_step HeaderByNumber i s1" by (rule worker_step_complete [OF step.hyps(2)])
  ultimately show ?case by (intro exI [of _ "sched @ [i]"]) (simp add: run_schedule_def)
qed

lemma run_all_sound: "fetch_run HeaderByNumber s (run_all HeaderByNumber sched s)"
  by (simp add: run_all_def Let_def run_schedule_sound)

lemma run_schedule_over: "wait_over s \<Longrightarrow> run_schedule HeaderByNumber sched s = s"
proof (induction sched)
  case (Cons i sched)
  then have "worker_step HeaderByNumber i s = s"
    by (auto simp: worker_step_def wait_over_def list_all_length)
  with Cons show ?case by (simp add: run_schedule_def)
qed (simp add: run_schedule_def)

lemma run_schedule_append:
  "run_schedule HeaderByNumber (xs @ ys) s = run_schedule HeaderByNumber ys (run_schedule HeaderByNumber xs s)"
  by (simp add: run_schedule_def)

lemma run_all_complete:
  assumes "fetch_run HeaderByNumber s s'" and "wait_over s'"
  shows "\<exists>sched. run_all HeaderByNumber sched s = s'"
proof -
  obtain sched where "s' = run_schedule HeaderByNumber sched s" using run_schedule_complete [OF assms(1)] by blast
  then show ?thesis
    using run_schedule_over [OF assms(2)] by (intro exI [of _ sched]) (simp add: run_all_def Let_def run_schedule_append)
qed

text \<open>The function returns what the relation allows, and every outcome of the relation has its schedule.\<close>

lemma congestion_run_sound:
  assumes "congestion_run Log10 bnum HeaderByNumber hc b strategy sched = Ret (hc', r)"
  shows "CalculateNetworkCongestionMetric Log10 bnum HeaderByNumber hc b strategy hc' r"
proof (cases hc)
  case None
  then show ?thesis using assms by (auto simp: congestion_run_def intro: CalculateNetworkCongestionMetric.nil_cache)
next
  case hc: (Some c)
  show ?thesis
  proof (cases bnum)
    case (Inl err)
    then show ?thesis using assms hc by (auto simp: congestion_run_def intro: CalculateNetworkCongestionMetric.no_number)
  next
    case (Inr n)
    obtain c' g where g: "getHeaderData HeaderByNumber c (Some (int64 n)) = (c', g)" by fastforce
    show ?thesis
    proof (cases g)
      case (Inl err)
      then show ?thesis
        using assms hc Inr g by (auto simp: congestion_run_def intro: CalculateNetworkCongestionMetric.no_last)
    next
      case last: (Inr h)
      let ?s = "run_all HeaderByNumber sched (start_fetch c' h (map int64 (requested_blocks n b)))"
      have "wait_over ?s" "hc' = Some (fcache ?s)" "r = congestion_result Log10 b strategy (received ?s)"
        using assms hc Inr g last by (auto simp: congestion_run_def Let_def split: if_splits)
      with hc Inr g last run_all_sound show ?thesis
        by (auto intro: CalculateNetworkCongestionMetric.waited)
    qed
  qed
qed

lemma congestion_run_complete:
  assumes "CalculateNetworkCongestionMetric Log10 bnum HeaderByNumber hc b strategy hc' r"
  shows "\<exists>sched. congestion_run Log10 bnum HeaderByNumber hc b strategy sched = Ret (hc', r)"
  using assms
proof (cases rule: CalculateNetworkCongestionMetric.cases)
  case (waited c n c' h s)
  from run_all_complete [OF waited(6,7)] obtain sched where
    "run_all HeaderByNumber sched (start_fetch c' h (map int64 (requested_blocks n b))) = s" by blast
  with waited show ?thesis by (intro exI [of _ sched]) (simp add: congestion_run_def Let_def)
qed (auto simp: congestion_run_def)

subsection \<open>When the call hangs\<close>

lemma worker_step_length [simp]: "length (workers (worker_step HeaderByNumber i s)) = length (workers s)"
  by (simp add: worker_step_def split: worker.splits sum.splits prod.splits option.splits)

lemma run_schedule_length [simp]: "length (workers (run_schedule HeaderByNumber sched s)) = length (workers s)"
  by (induction sched arbitrary: s) (simp_all add: run_schedule_def)

lemma worker_step_work:
  "j < length (workers s) \<Longrightarrow>
     work_left (workers (worker_step HeaderByNumber i s) ! j) \<le> work_left (workers s ! j) - (if j = i then 1 else 0)"
  by (simp add: worker_step_def nth_list_update split: worker.splits sum.splits prod.splits option.splits)

lemma turn_work:
  "j < length (workers s) \<Longrightarrow>
     work_left (workers (run_schedule HeaderByNumber [0..<k] s) ! j) \<le> work_left (workers s ! j) - (if j < k then 1 else 0)"
proof (induction k)
  case (Suc k)
  let ?s = "run_schedule HeaderByNumber [0..<k] s"
  have "work_left (workers (worker_step HeaderByNumber k ?s) ! j) \<le> work_left (workers ?s ! j) - (if j = k then 1 else 0)"
    using Suc.prems by (intro worker_step_work) simp
  with Suc show ?case by (cases "j < k"; cases "j = k") (simp_all add: run_schedule_def)
qed (simp add: run_schedule_def)

lemma run_all_idle:
  assumes "w \<in> set (workers (run_all HeaderByNumber sched s))"
  shows "w = Done \<or> w = Failed"
proof -
  let ?turn = "run_schedule HeaderByNumber [0..<length (workers s)]"
  define s0 where "s0 = run_schedule HeaderByNumber sched s"
  have len: "length (workers s0) = length (workers s)" by (simp add: s0_def)
  have all: "run_all HeaderByNumber sched s = ?turn (?turn (?turn s0))"
    by (simp add: run_all_def Let_def run_schedule_append s0_def)
  obtain j where j: "j < length (workers s)" "w = workers (?turn (?turn (?turn s0))) ! j"
    using assms len by (auto simp: all in_set_conv_nth)
  have le3: "work_left v \<le> 3" for v by (cases v) simp_all
  have one: "work_left (workers (?turn t) ! j) \<le> work_left (workers t ! j) - 1" if "length (workers t) = length (workers s)" for t
    using turn_work [of j t HeaderByNumber "length (workers s)"] that j(1) by simp
  have "work_left w = 0"
    using one [of s0] one [of "?turn s0"] one [of "?turn (?turn s0)"] le3 [of "workers s0 ! j"] len j(2) by simp
  then show ?thesis by (cases w) simp_all
qed

lemma getHeaderData_known:
  assumes "HeaderByNumber n = Inr h"
  shows "\<exists>c' h'. getHeaderData HeaderByNumber c (Some n) = (c', Inr h')"
  using assms by (simp add: getHeaderData_def split: prod.splits option.splits)

text \<open>
  Whatever the goroutines' schedule, the call hangs exactly when a block of the window cannot be had from the
  node (\<open>chain\<close> is what the node answers): the goroutine of a failed request ends without counting down.
  Otherwise it returns.
\<close>

lemma congestion_hangs_iff:
  assumes node: "node_of_chain chain HeaderByNumber" and answers: "\<And>k h. chain k = Some h \<Longrightarrow> HeaderByNumber k = Inr h"
    and agrees: "cached c \<subseteq>\<^sub>m chain" and n: "0 \<le> n" "n < 2 ^ 63" and newest: "chain n = Some newestBlock"
  shows "congestion_run Log10 (Inr n) HeaderByNumber (Some c) b strategy sched = Hangs \<longleftrightarrow>
    (\<exists>k \<in> set (requested_blocks n b). chain k = None)"
proof -
  let ?blocks = "requested_blocks n b"
  have n64: "int64 n = n" using n by (intro int64_id) simp_all
  obtain c' lb where first: "getHeaderData HeaderByNumber c (Some n) = (c', Inr lb)"
    using getHeaderData_known [of HeaderByNumber n newestBlock c] answers [OF newest] by blast
  have lb: "chain n = Some lb" "cached c' \<subseteq>\<^sub>m chain"
    using getHeaderData_agrees [OF node agrees n first] by simp_all
  define s where "s = run_all HeaderByNumber sched (start_fetch c' lb ?blocks)"
  have run: "fetch_run HeaderByNumber (start_fetch c' lb ?blocks) s" by (simp add: s_def run_all_sound)
  have inv: "fetch_inv chain ?blocks lb s"
    by (rule fetch_inv_run [OF node _ run fetch_inv_start [OF lb(2)]]) (use requested_range [OF n] in blast)
  have "wait_over s \<longleftrightarrow> (\<forall>k \<in> set ?blocks. chain k \<noteq> None)"
  proof
    assume "wait_over s"
    with inv show "\<forall>k \<in> set ?blocks. chain k \<noteq> None"
      by (fastforce simp: fetch_inv_def wait_over_def list_all_length in_set_conv_nth)
  next
    assume "\<forall>k \<in> set ?blocks. chain k \<noteq> None"
    then have "\<exists>h. HeaderByNumber k = Inr h" if "k \<in> set ?blocks" for k using that answers by fastforce
    from no_failure [OF this run] have "Failed \<notin> set (workers s)" by blast
    then show "wait_over s" using run_all_idle by (auto simp: wait_over_def list_all_iff s_def)
  qed
  then show ?thesis
    using first n64 requested_int64 [OF n, of b] by (auto simp: congestion_run_def s_def Let_def)
qed

text \<open>What the call does, independently of schedule and cache.\<close>

lemma congestion_run_value:
  assumes node: "node_of_chain chain HeaderByNumber" and answers: "\<And>k h. chain k = Some h \<Longrightarrow> HeaderByNumber k = Inr h"
    and agrees: "cached c \<subseteq>\<^sub>m chain" and n: "0 \<le> n" "n < 2 ^ 63" and newest: "chain n = Some newestBlock"
  shows "\<exists>c'. cached c' \<subseteq>\<^sub>m chain \<and>
    congestion_run Log10 (Inr n) HeaderByNumber (Some c) b CongestionStrategy_NewestFirst sched =
      (if \<exists>k \<in> set (requested_blocks n b). chain k = None then Hangs
       else Ret (Some c', congestion_result Log10 b CongestionStrategy_NewestFirst
              (newestBlock # map (\<lambda>k. the (chain k)) (requested_blocks n b))))"
proof (cases "congestion_run Log10 (Inr n) HeaderByNumber (Some c) b CongestionStrategy_NewestFirst sched")
  case Hangs
  with congestion_hangs_iff [OF assms, of Log10 b CongestionStrategy_NewestFirst sched] agrees show ?thesis by auto
next
  case (Panic msg)
  then show ?thesis by (auto simp: congestion_run_def Let_def split: prod.splits sum.splits if_splits)
next
  case (Ret p)
  obtain hc' r where p: "p = (hc', r)" by (cases p)
  have known: "\<not> (\<exists>k \<in> set (requested_blocks n b). chain k = None)"
    using congestion_hangs_iff [OF assms, of Log10 b CongestionStrategy_NewestFirst sched] Ret by simp
  have call: "CalculateNetworkCongestionMetric Log10 (Inr n) HeaderByNumber (Some c) b CongestionStrategy_NewestFirst hc' r"
    using congestion_run_sound Ret p by simp
  have "r = congestion_result Log10 b CongestionStrategy_NewestFirst
      (newestBlock # map (\<lambda>k. the (chain k)) (requested_blocks n b)) \<and> (\<exists>c'. hc' = Some c' \<and> cached c' \<subseteq>\<^sub>m chain)"
    by (rule congestion_deterministic [OF node answers agrees n newest call])
  with Ret p known show ?thesis by auto
qed

text \<open>
  The same for a node that does not answer every request for a block of the chain: \<open>available\<close> are the blocks that are cached before
  the call or answered by the node.
\<close>

definition available :: "(int \<Rightarrow> Header res) \<Rightarrow> LFUHeaderCache \<Rightarrow> int \<Rightarrow> bool" where
  "available HeaderByNumber c k \<longleftrightarrow> cached c k \<noteq> None \<or> (\<exists>h. HeaderByNumber k = Inr h)"

lemma getHeaderData_cases:
  assumes n: "0 \<le> n" "n < 2 ^ 63"
  obtains (missing) c' err where "cached c n = None" "HeaderByNumber n = Inl err" "getHeaderData HeaderByNumber c (Some n) = (c', Inl err)"
    "cached c' = cached c"
  | (found) c' h where "available HeaderByNumber c n" "getHeaderData HeaderByNumber c (Some n) = (c', Inr h)"
proof -
  have n64: "int64 n = n" using n by (intro int64_id) simp_all
  obtain c1 r where g: "LFU_Get c n = (c1, r)" by fastforce
  have r: "r = cached c n" and c1: "cached c1 = cached c"
    using lfu.get_result [of c n] lfu.get_contents [of c n] g by simp_all
  show ?thesis
  proof (cases r)
    case (Some h)
    then show ?thesis using found g n64 r by (simp add: getHeaderData_def available_def)
  next
    case None
    then show ?thesis using missing [of _ c1] found g n64 r c1
      by (cases "HeaderByNumber n") (simp_all add: getHeaderData_def available_def)
  qed
qed

text \<open>The chain as far as it is available; the node and the cache agree with it too.\<close>

definition available_chain :: "(int \<Rightarrow> Header option) \<Rightarrow> (int \<Rightarrow> Header res) \<Rightarrow> LFUHeaderCache \<Rightarrow> int \<Rightarrow> Header option" where
  "available_chain chain HeaderByNumber c k = (if available HeaderByNumber c k then chain k else None)"

lemma available_chain_agrees:
  assumes "node_of_chain chain HeaderByNumber" and "cached c \<subseteq>\<^sub>m chain"
  shows "node_of_chain (available_chain chain HeaderByNumber c) HeaderByNumber"
    and "cached c \<subseteq>\<^sub>m available_chain chain HeaderByNumber c"
  using assms by (auto simp: node_of_chain_def available_chain_def available_def map_le_def dom_def)

lemma congestion_run_started:
  assumes n: "0 \<le> n" "n < 2 ^ 63" and first: "getHeaderData HeaderByNumber c (Some n) = (c', Inr lb)"
  shows "congestion_run Log10 (Inr n) HeaderByNumber (Some c) b strategy sched =
    (let s = run_all HeaderByNumber sched (start_fetch c' lb (requested_blocks n b)) in
     if wait_over s then Ret (Some (fcache s), congestion_result Log10 b strategy (received s)) else Hangs)"
proof -
  have "int64 n = n" using n by (intro int64_id) simp_all
  with first requested_int64 [OF n, of b] show ?thesis by (simp add: congestion_run_def)
qed

lemma congestion_returns:
  assumes n: "0 \<le> n" "n < 2 ^ 63" and first: "getHeaderData HeaderByNumber c (Some n) = (c', Inr lb)"
    and fetchable: "\<forall>k \<in> set (requested_blocks n b). \<exists>h. HeaderByNumber k = Inr h"
  shows "congestion_run Log10 (Inr n) HeaderByNumber (Some c) b strategy sched \<noteq> Hangs"
proof -
  let ?s = "run_all HeaderByNumber sched (start_fetch c' lb (requested_blocks n b))"
  have "Failed \<notin> set (workers ?s)" using no_failure [OF _ run_all_sound] fetchable by blast
  then have "wait_over ?s" using run_all_idle by (auto simp: wait_over_def list_all_iff)
  then show ?thesis by (simp add: congestion_run_started [OF n first] Let_def)
qed

lemma congestion_hangs:
  assumes node: "node_of_chain chain HeaderByNumber" and agrees: "cached c \<subseteq>\<^sub>m chain"
    and n: "0 \<le> n" "n < 2 ^ 63" and first: "getHeaderData HeaderByNumber c (Some n) = (c', Inr lb)"
    and k: "k \<in> set (requested_blocks n b)" "\<not> available HeaderByNumber c k"
  shows "congestion_run Log10 (Inr n) HeaderByNumber (Some c) b strategy sched = Hangs"
proof -
  let ?chain = "available_chain chain HeaderByNumber c" and ?s = "run_all HeaderByNumber sched (start_fetch c' lb (requested_blocks n b))"
  note av = available_chain_agrees [OF node agrees]
  have "fetch_inv ?chain (requested_blocks n b) lb ?s"
    using getHeaderData_agrees [OF av n first] requested_range [OF n]
    by (intro fetch_inv_run [OF av(1) _ run_all_sound fetch_inv_start]) blast+
  moreover have "?chain k = None" using k(2) by (simp add: available_chain_def)
  ultimately have "\<not> wait_over ?s"
    using k(1) by (fastforce simp: fetch_inv_def wait_over_def list_all_length in_set_conv_nth)
  then show ?thesis by (simp add: congestion_run_started [OF n first] Let_def)
qed



text \<open>
  A window whose blocks are all cached or answered can still be waited for in vain: in a cache for one header, storing
  the newest block evicts the older one, which the node does not answer for.
\<close>

definition ex_h3 :: Header where
  "ex_h3 = \<lparr>hNumber = 3, hGasUsed = 5, hGasLimit = 10\<rparr>"

definition ex_node3 :: "int \<Rightarrow> Header res" where
  "ex_node3 n = (if n = 3 then Inr ex_h3 else Inl ErrNotFound)"

theorem evicted_block_hangs:
  "(\<forall>k \<in> set (requested_blocks 3 2). available ex_node3 (LFU_put (NewLFUBlockCache 1) ex_h2) k) \<and>
   congestion_run ex_log10 (Inr 3) ex_node3 (Some (LFU_put (NewLFUBlockCache 1) ex_h2)) 2 CongestionStrategy_NewestFirst [0, 1] = Hangs"
proof
  have r: "requested_blocks 3 2 = [3, 2]" by code_simp
  have "cached (LFU_put (NewLFUBlockCache 1) ex_h2) 2 = Some ex_h2" by code_simp
  then show "\<forall>k \<in> set (requested_blocks 3 2). available ex_node3 (LFU_put (NewLFUBlockCache 1) ex_h2) k"
    by (simp add: r available_def ex_node3_def)
  show "congestion_run ex_log10 (Inr 3) ex_node3 (Some (LFU_put (NewLFUBlockCache 1) ex_h2)) 2 CongestionStrategy_NewestFirst [0, 1] = Hangs"
    by code_simp
qed

end
