(* ===== verification/Gas_Adjuster.thy ===== *)
theory Gas_Adjuster
  imports Config Congestion_Run
begin

text \<open>
  The gas estimator (\<^verbatim>\<open>src/gas.go\<close>) and the fee suggestions (\<^verbatim>\<open>src/gas_adjuster.go\<close>). The
  node's answers are the fields of \<open>fee_node\<close>, with the schedule of the goroutines that fetch headers, and the
  statistics library is \<open>stats_lib\<close>. The suggestions run the congestion metric (theory \<^verbatim>\<open>Congestion_Run\<close>) on the
  client's header cache and return the cache it leaves. Logging is left out. The theorems
  show that every accepted priority has its factors, that fees are ordered by priority, that
  suggestions from standard priority on cover the data they are based on, and that they depend neither on the
  schedule nor on what is cached.
\<close>

definition ZeroGasSuggestedErr :: string where
  "ZeroGasSuggestedErr = ''either base fee or suggested tip is 0''"
definition Experiment_Eip1559FeeEqualier :: string where
  "Experiment_Eip1559FeeEqualier = ''eip_1559_fee_equalizer''"

subsection \<open>Gas estimator\<close>

record FeeHistory =
  BaseFee :: "int option list"
  Reward :: "int option list list"

record fee_node =
  BlockNumber :: "int res"
  FeeHistoryOf :: "int \<Rightarrow> int \<Rightarrow> rat list \<Rightarrow> FeeHistory res"
  SuggestGasPrice :: "int res"
  SuggestGasTipCap :: "int res"
  HeaderByNum :: "int \<Rightarrow> Header res"
  Schedule :: "nat list"

record stats_lib =
  stats_Max :: "float64 list \<Rightarrow> float64 res"
  stats_Percentile :: "float64 list \<Rightarrow> rat \<Rightarrow> float64 res"

record GasPercentiles =
  gpMax :: float64
  Perc99 :: float64
  Perc75 :: float64
  Perc50 :: float64
  Perc25 :: float64

record GasSuggestions =
  gsGasPrice :: GasPercentiles
  gsTipCap :: GasPercentiles
  SuggestedGasPrice :: int
  SuggestedGasTipCap :: int

definition quantilesFromFloatArray :: "stats_lib \<Rightarrow> float64 list \<Rightarrow> GasPercentiles res" where
  "quantilesFromFloatArray lib fa =
     res_bind (stats_Max lib fa) (\<lambda>perMax.
     res_bind (stats_Percentile lib fa 99) (\<lambda>perc99.
     res_bind (stats_Percentile lib fa 75) (\<lambda>perc75.
     res_bind (stats_Percentile lib fa 50) (\<lambda>perc50.
     res_bind (stats_Percentile lib fa 25) (\<lambda>perc25.
     Inr \<lparr>gpMax = perMax, Perc99 = perc99, Perc75 = perc75, Perc50 = perc50, Perc25 = perc25\<rparr>)))))"

text \<open>A fee of the history as a \<open>float64\<close>; a nil fee counts as 0.\<close>

definition fee_float :: "int option \<Rightarrow> float64" where
  "fee_float bf = big_Float64 (big_SetInt (case bf of None \<Rightarrow> 0 | Some n \<Rightarrow> n))"

definition base_fees :: "FeeHistory \<Rightarrow> float64 list" where
  "base_fees hist = map fee_float (BaseFee hist)"

definition reward_tips :: "FeeHistory \<Rightarrow> float64 list" where
  "reward_tips hist = map (\<lambda>bf. fee_float (hd bf)) (filter (\<lambda>bf. bf \<noteq> []) (Reward hist))"

definition GasEstimator_Stats :: "stats_lib \<Rightarrow> fee_node \<Rightarrow> int \<Rightarrow> rat \<Rightarrow> GasSuggestions res" where
  "GasEstimator_Stats lib nd fromNumber priorityPerc =
     res_bind (BlockNumber nd) (\<lambda>bn.
     res_bind (FeeHistoryOf nd fromNumber (int64 bn) [priorityPerc]) (\<lambda>hist.
     res_bind (quantilesFromFloatArray lib (base_fees hist)) (\<lambda>gasPercs.
     res_bind (quantilesFromFloatArray lib (reward_tips hist)) (\<lambda>tipPercs.
     res_bind (SuggestGasPrice nd) (\<lambda>suggestedGasPrice.
     res_bind (SuggestGasTipCap nd) (\<lambda>suggestedGasTipCap.
     Inr \<lparr>gsGasPrice = gasPercs, gsTipCap = tipPercs,
          SuggestedGasPrice = suggestedGasPrice, SuggestedGasTipCap = suggestedGasTipCap\<rparr>))))))"

subsection \<open>Factors and historical data\<close>

definition getAdjustmentFactor :: "string \<Rightarrow> float64 res" where
  "getAdjustmentFactor priority =
     (if priority = Priority_Degen then Inr (fl (15 / 10))
      else if priority = Priority_Fast then Inr (fl (12 / 10))
      else if priority = Priority_Standard then Inr (fl 1)
      else if priority = Priority_Slow then Inr (fl (8 / 10))
      else Inl (ErrNew (''unknown priority: '' @ priority)))"

definition getCongestionFactor :: "string \<Rightarrow> float64 res" where
  "getCongestionFactor congestionClassification =
     (if congestionClassification = Congestion_Low then Inr (fl (110 / 100))
      else if congestionClassification = Congestion_Medium then Inr (fl (120 / 100))
      else if congestionClassification = Congestion_High then Inr (fl (130 / 100))
      else if congestionClassification = Congestion_VeryHigh then Inr (fl (140 / 100))
      else Inl (ErrNew (''unknown congestion classification: '' @ congestionClassification)))"

definition HistoricalFeeData :: "stats_lib \<Rightarrow> fee_node \<Rightarrow> Network \<Rightarrow> string \<Rightarrow> (float64 \<times> float64) res" where
  "HistoricalFeeData lib nd net priority =
     (case GasEstimator_Stats lib nd (GasPriceEstimationBlocks net) 99 of
        Inl err \<Rightarrow> Inl err
      | Inr stats \<Rightarrow>
          (if priority = Priority_Degen then Inr (gpMax (gsGasPrice stats), gpMax (gsTipCap stats))
           else if priority = Priority_Fast then Inr (Perc99 (gsGasPrice stats), Perc99 (gsTipCap stats))
           else if priority = Priority_Standard then Inr (Perc50 (gsGasPrice stats), Perc50 (gsTipCap stats))
           else if priority = Priority_Slow then Inr (Perc25 (gsGasPrice stats), Perc25 (gsTipCap stats))
           else Inl (ErrNew (''unknown priority: '' @ priority))))"

fun ffloor :: "float64 \<Rightarrow> float64" where
  "ffloor (Fin x) = Fin (of_int \<lfloor>x\<rfloor>)"
| "ffloor x = x"

fun fceil :: "float64 \<Rightarrow> float64" where
  "fceil (Fin x) = Fin (of_int \<lceil>x\<rceil>)"
| "fceil x = x"

fun fabs :: "float64 \<Rightarrow> float64" where
  "fabs (Fin x) = Fin \<bar>x\<bar>"
| "fabs NInf = PInf"
| "fabs x = x"

definition calculateMagnitudeDifference :: "(float64 \<Rightarrow> float64) \<Rightarrow> bigfloat \<Rightarrow> bigfloat \<Rightarrow> int \<times> string" where
  "calculateMagnitudeDifference Log10 first second =
     (let firstFloat = big_Float64 first; secondFloat = big_Float64 second in
      if feq firstFloat (Fin 0) then (0, ''infinite orders of magnitude smaller'')
      else if feq secondFloat (Fin 0) then (0, ''infinite orders of magnitude larger'')
      else
        (let diff = fsub (Log10 firstFloat) (Log10 secondFloat) in
         if flt diff (Fin 0) then
           (let intDiff = ffloor diff in
            (int64_of_float intDiff, Itoa (int64_of_float (fabs intDiff)) @ '' orders of magnitude smaller''))
         else if flt (Fin 0) diff \<and> fle diff (Fin 1) then (0, ''the same order of magnitude'')
         else
           (let intDiff = int64_of_float (fceil diff) in
            (intDiff, Itoa intDiff @ '' orders of magnitude larger''))))"

subsection \<open>Suggestions\<close>

text \<open>
  A product of a factor and a \<open>float64\<close>, or of an integer and a factor, cut to an integer (nil
  when infinite), and the use of an integer that may be nil.
\<close>

definition float_scale :: "float64 \<Rightarrow> float64 \<Rightarrow> int option go" where
  "float_scale factor x =
     go_bind (big_NewFloat factor) (\<lambda>a. go_bind (big_NewFloat x) (\<lambda>b.
     go_bind (big_Mul 0 a b) (\<lambda>p. Ret (big_Int p))))"

definition need_int :: "int option \<Rightarrow> int go" where
  "need_int n = (case n of None \<Rightarrow> Panic ''nil pointer dereference'' | Some v \<Rightarrow> Ret v)"

definition int_scale :: "int option \<Rightarrow> float64 \<Rightarrow> int option go" where
  "int_scale n factor =
     go_bind (need_int n) (\<lambda>v. go_bind (big_NewFloat factor) (\<lambda>b.
     go_bind (big_Mul 0 (big_SetInt v) b) (\<lambda>p. Ret (big_Int p))))"

text \<open>The experiment that brings base fee and tip to the same order of magnitude.\<close>

definition fee_equalizer :: "(float64 \<Rightarrow> float64) \<Rightarrow> float64 \<Rightarrow> int \<Rightarrow> (float64 \<times> int) go" where
  "fee_equalizer Log10 baseFee64 currentGasTip =
     go_bind (big_NewFloat baseFee64) (\<lambda>bf.
     let diff = fst (calculateMagnitudeDifference Log10 bf (big_SetInt currentGasTip)) in
     Ret (if diff = 0 then
            (if feq baseFee64 (Fin 0) then (float_of_int (int64 currentGasTip), currentGasTip)
             else (baseFee64, int64_of_float baseFee64))
          else if diff < 3 then (float_of_int (int64 currentGasTip), currentGasTip)
          else if diff > 3 then (baseFee64, int64_of_float baseFee64)
          else (baseFee64, currentGasTip)))"

text \<open>The congestion buffer: what the metric's outcome does to a list of amounts.\<close>

definition congestion_buffer :: "float64 res \<Rightarrow> (float64 option) res" where
  "congestion_buffer metric =
     (case metric of
        Inr congestionMetric \<Rightarrow>
          (case getCongestionFactor (classifyCongestion congestionMetric) of
             Inl err \<Rightarrow> Inl err
           | Inr bufferAdjustment \<Rightarrow> Inr (Some bufferAdjustment))
      | Inl err \<Rightarrow> (if \<not> Contains (errorText err) BlockFetchingErr then Inl err else Inr None))"

definition buffered :: "float64 option \<Rightarrow> int option \<Rightarrow> int option go" where
  "buffered buffer n = (case buffer of None \<Rightarrow> Ret n | Some bufferAdjustment \<Rightarrow> int_scale n bufferAdjustment)"

text \<open>The call of the congestion metric that both suggestions make.\<close>

definition network_congestion ::
  "(float64 \<Rightarrow> float64) \<Rightarrow> fee_node \<Rightarrow> Network \<Rightarrow> LFUHeaderCache option \<Rightarrow> (LFUHeaderCache option \<times> float64 res) go" where
  "network_congestion Log10 nd net hc =
     congestion_run Log10 (BlockNumber nd) (HeaderByNum nd) hc (GasPriceEstimationBlocks net) CongestionStrategy_NewestFirst (Schedule nd)"

text \<open>The second half of \<open>GetSuggestedEIP1559Fees\<close>: factors and buffer applied to base fee and tip.\<close>

definition adjust_fees ::
  "(float64 \<Rightarrow> float64) \<Rightarrow> fee_node \<Rightarrow> Network \<Rightarrow> LFUHeaderCache option \<Rightarrow> string \<Rightarrow> float64 \<Rightarrow> int \<Rightarrow>
   (LFUHeaderCache option \<times> (int \<times> int) res) go" where
  "adjust_fees Log10 nd net hc priority baseFee64 currentGasTip =
     (if feq baseFee64 (Fin 0) then Ret (hc, Inl (ErrNew ZeroGasSuggestedErr))
      else case getAdjustmentFactor priority of
        Inl err \<Rightarrow> Ret (hc, Inl err)
      | Inr adjustmentFactor \<Rightarrow>
          go_bind (float_scale adjustmentFactor (float_of_int (int64 currentGasTip))) (\<lambda>adjustedTipCap.
          go_bind (float_scale adjustmentFactor baseFee64) (\<lambda>adjustedBaseFee.
          go_bind (network_congestion Log10 nd net hc) (\<lambda>(hc', metric).
          case congestion_buffer metric of
            Inl err \<Rightarrow> Ret (hc', Inl err)
          | Inr buffer \<Rightarrow>
              go_bind (buffered buffer adjustedBaseFee) (\<lambda>finalBaseFee.
              go_bind (buffered buffer adjustedTipCap) (\<lambda>finalTipCap.
              go_bind (need_int finalBaseFee) (\<lambda>b.
              go_bind (need_int finalTipCap) (\<lambda>t. Ret (hc', Inr (b + t, t))))))))))"

definition GetSuggestedEIP1559Fees ::
  "(float64 \<Rightarrow> float64) \<Rightarrow> stats_lib \<Rightarrow> fee_node \<Rightarrow> fee_node \<Rightarrow> Config \<Rightarrow> Network \<Rightarrow> LFUHeaderCache option \<Rightarrow> string \<Rightarrow>
   (LFUHeaderCache option \<times> (int \<times> int) res) go" where
  "GetSuggestedEIP1559Fees Log10 lib nd nd_hist cfg net hc priority =
     (case SuggestGasTipCap nd of
        Inl err \<Rightarrow> Ret (hc, Inl err)
      | Inr suggestedGasTip \<Rightarrow>
          (case HistoricalFeeData lib nd_hist net priority of
             Inl err \<Rightarrow> Ret (hc, Inl err)
           | Inr (baseFee64, historicalSuggestedTip64) \<Rightarrow>
               go_bind (big_NewFloat historicalSuggestedTip64) (\<lambda>ht.
               let currentGasTip = (if int64_of_float historicalSuggestedTip64 > suggestedGasTip
                                    then int64_of_float historicalSuggestedTip64 else suggestedGasTip) in
               go_bind (if IsExperimentEnabled cfg Experiment_Eip1559FeeEqualier
                        then fee_equalizer Log10 baseFee64 currentGasTip
                        else Ret (baseFee64, currentGasTip)) (\<lambda>(baseFee, tip).
               adjust_fees Log10 nd net hc priority baseFee tip))))"

definition GetSuggestedLegacyFees ::
  "(float64 \<Rightarrow> float64) \<Rightarrow> fee_node \<Rightarrow> Network \<Rightarrow> LFUHeaderCache option \<Rightarrow> string \<Rightarrow> (LFUHeaderCache option \<times> int res) go" where
  "GetSuggestedLegacyFees Log10 nd net hc priority =
     (case SuggestGasPrice nd of
        Inl err \<Rightarrow> Ret (hc, Inl err)
      | Inr suggestedGasPrice \<Rightarrow>
          if int64 suggestedGasPrice = 0 then Ret (hc, Inl (ErrNew ''suggested gas price is 0''))
          else case getAdjustmentFactor priority of
            Inl err \<Rightarrow> Ret (hc, Inl err)
          | Inr adjustmentFactor \<Rightarrow>
              go_bind (float_scale adjustmentFactor (float_of_int (int64 suggestedGasPrice))) (\<lambda>adjustedGasPrice.
              go_bind (network_congestion Log10 nd net hc) (\<lambda>(hc', metric).
              case congestion_buffer metric of
                Inl err \<Rightarrow> Ret (hc', Inl err)
              | Inr buffer \<Rightarrow>
                  go_bind (buffered buffer adjustedGasPrice) (\<lambda>finalGasPrice.
                  go_bind (need_int finalGasPrice) (\<lambda>p. Ret (hc', Inr p))))))"

text \<open>A client that has a header cache keeps one.\<close>

lemma congestion_keeps_cache: "network_congestion Log10 nd net (Some c) = Ret (hc', r) \<Longrightarrow> hc' \<noteq> None"
  by (auto simp: network_congestion_def congestion_run_def Let_def split: sum.splits prod.splits if_splits)

lemma suggestions_keep_cache:
  "GetSuggestedEIP1559Fees Log10 lib nd nd_hist cfg net (Some c) priority = Ret (hc', r) \<Longrightarrow> hc' \<noteq> None"
  "GetSuggestedLegacyFees Log10 nd net (Some c) priority = Ret (hc', r') \<Longrightarrow> hc' \<noteq> None"
  by (auto simp: GetSuggestedEIP1559Fees_def GetSuggestedLegacyFees_def adjust_fees_def go_bind_Ret_iff case_sum_eq Let_def
      dest: congestion_keeps_cache split: if_splits)

subsection \<open>Factors\<close>

lemma fl_factor: "0 \<le> x \<Longrightarrow> x \<le> 2 \<Longrightarrow> fl x = Fin (rnd64 x)"
  by (rule fl_small [of _ 2]) simp_all

lemma adjustment_factor_cases:
  "known_priority priority \<Longrightarrow> getAdjustmentFactor priority \<in> Inr ` fl ` {15 / 10, 12 / 10, 1, 8 / 10}"
  by (simp add: known_priority_def getAdjustmentFactor_def) blast

lemma getAdjustmentFactor_ge1:
  assumes "priority \<in> {Priority_Degen, Priority_Fast, Priority_Standard}"
  shows "\<exists>c. getAdjustmentFactor priority = Inr (Fin c) \<and> 1 \<le> c"
proof -
  have ge: "1 \<le> rnd64 x" if "1 \<le> x" for x using f64.mono [OF that] by (simp add: f64.one)
  have "getAdjustmentFactor priority \<in> Inr ` fl ` {15 / 10, 12 / 10, 1}"
    using assms by (simp add: getAdjustmentFactor_def) blast
  then obtain x where x: "getAdjustmentFactor priority = Inr (fl x)" "1 \<le> x" "x \<le> 2" by auto
  then show ?thesis using fl_factor [of x] ge [OF x(2)] by simp
qed

lemma congestion_factor_cases:
  "getCongestionFactor (classifyCongestion m) \<in> Inr ` fl ` {110 / 100, 120 / 100, 130 / 100, 140 / 100}"
  by (simp add: classifyCongestion_def getCongestionFactor_def Congestion_Low_def Congestion_Medium_def
      Congestion_High_def Congestion_VeryHigh_def)

lemma congestion_factor_ge1: "\<exists>c. getCongestionFactor (classifyCongestion m) = Inr (Fin c) \<and> 1 \<le> c"
proof -
  obtain x where x: "getCongestionFactor (classifyCongestion m) = Inr (fl x)" "1 \<le> x" "x \<le> 2"
    using congestion_factor_cases [of m] by auto
  then show ?thesis using fl_factor [of x] f64.mono [of 1 x] by (simp add: f64.one)
qed

text \<open>
  Every priority that \<open>ValidateConfig\<close> accepts has an adjustment factor between 0.8 and 1.5, and every
  congestion metric, NaN and infinities included, has a buffer factor between 1.1 and 1.4 (as
  rounded to \<open>float64\<close>): the errors for unknown priorities and classifications cannot occur.
\<close>

theorem fee_factors_total:
  assumes "known_priority priority"
  shows "(\<exists>c. getAdjustmentFactor priority = Inr (Fin c) \<and> rnd64 (8 / 10) \<le> c \<and> c \<le> rnd64 (15 / 10)) \<and>
    (\<exists>c. getCongestionFactor (classifyCongestion m) = Inr (Fin c) \<and> rnd64 (110 / 100) \<le> c \<and> c \<le> rnd64 (140 / 100))"
proof
  obtain x where x: "getAdjustmentFactor priority = Inr (fl x)" "8 / 10 \<le> x" "x \<le> 15 / 10"
    using adjustment_factor_cases [OF assms] by auto
  have "fl x = Fin (rnd64 x)" using x by (intro fl_factor) simp_all
  with x f64.mono [OF x(2)] f64.mono [OF x(3)]
  show "\<exists>c. getAdjustmentFactor priority = Inr (Fin c) \<and> rnd64 (8 / 10) \<le> c \<and> c \<le> rnd64 (15 / 10)" by simp
next
  obtain x where x: "getCongestionFactor (classifyCongestion m) = Inr (fl x)" "110 / 100 \<le> x" "x \<le> 140 / 100"
    using congestion_factor_cases [of m] by auto
  have "fl x = Fin (rnd64 x)" using x by (intro fl_factor) simp_all
  with x f64.mono [OF x(2)] f64.mono [OF x(3)]
  show "\<exists>c. getCongestionFactor (classifyCongestion m) = Inr (Fin c) \<and> rnd64 (110 / 100) \<le> c \<and> c \<le> rnd64 (140 / 100)" by simp
qed

theorem fee_factors_total_witness:
  "\<exists>c. getAdjustmentFactor Priority_Slow = Inr (Fin c) \<and> rnd64 (8 / 10) \<le> c \<and> c \<le> rnd64 (15 / 10)"
  using fee_factors_total [of Priority_Slow NaN] by (simp add: known_priority_def)

subsection \<open>Historical data by priority\<close>

text \<open>
  What the statistics library documents: percentiles grow with the percentage and the maximum is
  at least every percentile.
\<close>

definition stats_spec :: "stats_lib \<Rightarrow> bool" where
  "stats_spec lib \<longleftrightarrow>
     (\<forall>fa p q x y. stats_Percentile lib fa p = Inr x \<longrightarrow> stats_Percentile lib fa q = Inr y \<longrightarrow> p \<le> q \<longrightarrow> fle x y) \<and>
     (\<forall>fa p x y. stats_Percentile lib fa p = Inr x \<longrightarrow> stats_Max lib fa = Inr y \<longrightarrow> fle x y)"

lemma quantiles_ordered:
  assumes "stats_spec lib" and "quantilesFromFloatArray lib fa = Inr g"
  shows "fle (Perc25 g) (Perc50 g)" "fle (Perc50 g) (Perc99 g)" "fle (Perc99 g) (gpMax g)"
proof -
  from assms(2) have g: "stats_Max lib fa = Inr (gpMax g)" "stats_Percentile lib fa 99 = Inr (Perc99 g)"
    "stats_Percentile lib fa 50 = Inr (Perc50 g)" "stats_Percentile lib fa 25 = Inr (Perc25 g)"
    by (auto simp: quantilesFromFloatArray_def res_bind_Inr_iff)
  have "(25 :: rat) \<le> 50" "(50 :: rat) \<le> 99" by simp_all
  with assms(1) g show "fle (Perc25 g) (Perc50 g)" "fle (Perc50 g) (Perc99 g)" "fle (Perc99 g) (gpMax g)"
    unfolding stats_spec_def by blast+
qed

text \<open>
  Historical base fee and tip are ordered by priority: slow at most standard, at most fast, at most
  degen. When one priority has data, all have, and the call fails for any other priority.
\<close>

theorem HistoricalFeeData_ordered:
  assumes lib: "stats_spec lib" and ok: "HistoricalFeeData lib nd net Priority_Slow = Inr (b0, t0)"
  shows "\<exists>b1 t1 b2 t2 b3 t3. HistoricalFeeData lib nd net Priority_Standard = Inr (b1, t1) \<and>
    HistoricalFeeData lib nd net Priority_Fast = Inr (b2, t2) \<and> HistoricalFeeData lib nd net Priority_Degen = Inr (b3, t3) \<and>
    fle b0 b1 \<and> fle b1 b2 \<and> fle b2 b3 \<and> fle t0 t1 \<and> fle t1 t2 \<and> fle t2 t3 \<and>
    (\<forall>p. \<not> known_priority p \<longrightarrow> HistoricalFeeData lib nd net p = Inl (ErrNew (''unknown priority: '' @ p)))"
proof -
  have distinct: "Priority_Degen \<noteq> Priority_Fast" "Priority_Degen \<noteq> Priority_Standard" "Priority_Degen \<noteq> Priority_Slow"
    "Priority_Fast \<noteq> Priority_Standard" "Priority_Fast \<noteq> Priority_Slow" "Priority_Standard \<noteq> Priority_Slow"
    by (simp_all add: Priority_Degen_def Priority_Fast_def Priority_Standard_def Priority_Slow_def)
  from ok obtain st where st: "GasEstimator_Stats lib nd (GasPriceEstimationBlocks net) 99 = Inr st"
    by (auto simp: HistoricalFeeData_def split: sum.splits)
  then obtain hist where g: "quantilesFromFloatArray lib (base_fees hist) = Inr (gsGasPrice st)"
    and t: "quantilesFromFloatArray lib (reward_tips hist) = Inr (gsTipCap st)"
    by (auto simp: GasEstimator_Stats_def res_bind_Inr_iff)
  show ?thesis
    using ok st quantiles_ordered [OF lib g] quantiles_ordered [OF lib t] distinct distinct [symmetric]
    by (simp add: HistoricalFeeData_def known_priority_def)
qed

definition ex_lib :: stats_lib where
  "ex_lib = \<lparr>stats_Max = (\<lambda>fa. Inr (Fin 100)), stats_Percentile = (\<lambda>fa p. Inr (Fin (min p 100)))\<rparr>"

lemma ex_lib_spec: "stats_spec ex_lib"
  by (auto simp: stats_spec_def ex_lib_def fle_def min_def)

definition ex_fees :: fee_node where
  "ex_fees = \<lparr>BlockNumber = Inr 8, FeeHistoryOf = (\<lambda>n b p. Inr \<lparr>BaseFee = [Some 1], Reward = [[Some 1], [], [None]]\<rparr>),
     SuggestGasPrice = Inr 1000, SuggestGasTipCap = Inr 10, 
     HeaderByNum = (\<lambda>n. Inr \<lparr>hNumber = n, hGasUsed = 5, hGasLimit = 10\<rparr>), Schedule = [0]\<rparr>"

lemma ex_HistoricalFeeData: "HistoricalFeeData ex_lib ex_fees ex_net Priority_Slow = Inr (Fin 25, Fin 25)"
  by (simp add: HistoricalFeeData_def GasEstimator_Stats_def quantilesFromFloatArray_def ex_lib_def ex_fees_def
      Priority_Degen_def Priority_Fast_def Priority_Standard_def Priority_Slow_def)

theorem HistoricalFeeData_ordered_witness:
  "\<exists>b1 t1. HistoricalFeeData ex_lib ex_fees ex_net Priority_Standard = Inr (b1, t1) \<and> fle (Fin 25) b1"
  using HistoricalFeeData_ordered [OF ex_lib_spec ex_HistoricalFeeData] by blast

subsection \<open>Suggestions cover the data\<close>

lemma rnd_ge_int:
  assumes "of_int n \<le> x" and "\<bar>n\<bar> < 2 ^ p" and "1 \<le> p"
  shows "of_int n \<le> rnd p None x"
  using rnd_mono [OF assms(1,3), of None] rnd_of_int [OF assms(2) _ assms(3), of None] by simp

lemma float_scale_ge:
  assumes "1 \<le> c" and "of_int n \<le> v" and "0 \<le> n" and "n < 2 ^ 53"
  shows "\<exists>k. float_scale (Fin c) (Fin v) = Ret (Some k) \<and> n \<le> k"
proof -
  have "0 \<le> v" using assms(2,3) by (meson of_int_0_le_iff order_trans)
  then have "v \<le> c * v" using assms(1) by (simp add: mult_le_cancel_right1)
  then have "of_int n \<le> rnd 53 None (c * v)" using assms by (intro rnd_ge_int) simp_all
  then have "n \<le> trunc (rnd 53 None (c * v))" using assms(3) by (intro int_le_trunc)
  then show ?thesis by (simp add: float_scale_def)
qed

lemma int_scale_ge:
  assumes "1 \<le> c" and "0 \<le> n"
  shows "\<exists>k. int_scale (Some n) (Fin c) = Ret (Some k) \<and> n \<le> k"
proof -
  let ?p = "max 64 (nat (bitlen \<bar>n\<bar>))"
  have n: "\<bar>n\<bar> < 2 ^ ?p"
  proof (cases "n = 0")
    case False
    then have "\<bar>n\<bar> < 2 ^ nat (bitlen \<bar>n\<bar>)" using bitlen_bounds [of "\<bar>n\<bar>"] by simp
    also have "\<dots> \<le> (2 :: int) ^ ?p" by (rule power_increasing) simp_all
    finally show ?thesis .
  qed simp
  have exact: "rnd ?p None (of_int n) = of_int n" using n by (intro rnd_of_int) simp_all
  have "(of_int n :: rat) \<le> of_int n * c" using assms by (simp add: mult_le_cancel_left1)
  then have "of_int n \<le> rnd ?p None (of_int n * c)" using n by (intro rnd_ge_int) simp_all
  then have "n \<le> trunc (rnd ?p None (of_int n * c))" using assms(2) by (intro int_le_trunc)
  then show ?thesis by (simp add: int_scale_def need_int_def big_SetInt_def Let_def exact)
qed

lemma buffered_ge:
  assumes "congestion_buffer metric = Inr buffer" and "0 \<le> n"
  shows "\<exists>k. buffered buffer (Some n) = Ret (Some k) \<and> n \<le> k"
proof (cases metric)
  case (Inr m)
  obtain c where "getCongestionFactor (classifyCongestion m) = Inr (Fin c)" "1 \<le> c" using congestion_factor_ge1 by blast
  with assms Inr int_scale_ge [of c n] show ?thesis by (auto simp: congestion_buffer_def buffered_def)
next
  case (Inl e)
  with assms show ?thesis by (auto simp: congestion_buffer_def buffered_def split: if_splits)
qed

text \<open>
  C29. From standard priority on, the suggested EIP-1559 fees cover what they are computed from: the tip is at
  least the node's suggestion and at least the historical tip, and the fee cap is at least the
  historical base fee plus that tip (amounts below \<open>2 ^ 53\<close> wei, equalizer experiment off), with or
  without the congestion buffer.
\<close>

theorem eip1559_fees_cover:
  assumes run: "GetSuggestedEIP1559Fees Log10 lib nd nd_hist cfg net hc priority = Ret (hc', Inr (maxFeeCap, tipCap))"
    and priority: "priority \<in> {Priority_Degen, Priority_Fast, Priority_Standard}"
    and off: "\<not> IsExperimentEnabled cfg Experiment_Eip1559FeeEqualier"
    and tip: "SuggestGasTipCap nd = Inr suggested" "0 \<le> suggested" "suggested < 2 ^ 53"
    and hist: "HistoricalFeeData lib nd_hist net priority = Inr (Fin b, Fin h)" "0 \<le> b" "b < 2 ^ 53" "0 \<le> h" "h < 2 ^ 53"
  shows "suggested \<le> tipCap \<and> \<lfloor>h\<rfloor> \<le> tipCap \<and> \<lfloor>b\<rfloor> + max suggested \<lfloor>h\<rfloor> \<le> maxFeeCap \<and> tipCap \<le> maxFeeCap"
proof -
  let ?tip = "max suggested \<lfloor>h\<rfloor>"
  have bounds: "0 \<le> \<lfloor>h\<rfloor>" "\<lfloor>h\<rfloor> < 2 ^ 53" "0 \<le> \<lfloor>b\<rfloor>" "\<lfloor>b\<rfloor> < 2 ^ 53"
    using hist by (simp_all add: floor_less_iff)
  have h64: "int64_of_float (Fin h) = \<lfloor>h\<rfloor>" using hist(4) bounds by (simp add: trunc_nonneg)
  have cur: "(if int64_of_float (Fin h) > suggested then int64_of_float (Fin h) else suggested) = ?tip"
    unfolding h64 by (simp add: max_def)
  have adj: "adjust_fees Log10 nd net hc priority (Fin b) ?tip = Ret (hc', Inr (maxFeeCap, tipCap))"
    using run unfolding GetSuggestedEIP1559Fees_def tip(1) hist(1) sum.case prod.case big_NewFloat.simps go_bind.simps Let_def cur
    using off by simp
  obtain c where c: "getAdjustmentFactor priority = Inr (Fin c)" "1 \<le> c"
    using getAdjustmentFactor_ge1 [OF priority] by blast
  have t: "float_of_int (int64 ?tip) = Fin (of_int ?tip)" "0 \<le> ?tip" "?tip < 2 ^ 53"
    using tip bounds by (simp_all add: int64_id float_of_int_exact)
  obtain kt where kt: "float_scale (Fin c) (Fin (of_int ?tip)) = Ret (Some kt)" "?tip \<le> kt"
    using float_scale_ge [OF c(2) order_refl t(2,3)] by blast
  obtain kb where kb: "float_scale (Fin c) (Fin b) = Ret (Some kb)" "\<lfloor>b\<rfloor> \<le> kb"
    using float_scale_ge [OF c(2) _ bounds(3,4), of b] by auto
  obtain metric buffer where buf: "network_congestion Log10 nd net hc = Ret (hc', metric)" "congestion_buffer metric = Inr buffer"
    using adj c kt kb t by (auto simp: adjust_fees_def go_bind_Ret_iff case_sum_eq split: if_splits)
  obtain ft where ft: "buffered buffer (Some kt) = Ret (Some ft)" "kt \<le> ft" using buffered_ge [OF buf(2), of kt] kt t by auto
  obtain fb where fb: "buffered buffer (Some kb) = Ret (Some fb)" "kb \<le> fb" using buffered_ge [OF buf(2), of kb] kb bounds by auto
  have "maxFeeCap = fb + ft \<and> tipCap = ft"
    using adj c kt(1) kb(1) t(1) buf ft(1) fb(1)
    by (auto simp: adjust_fees_def need_int_def split: if_splits)
  moreover have "suggested \<le> ?tip" "\<lfloor>h\<rfloor> \<le> ?tip" by simp_all
  ultimately show ?thesis using kt(2) kb(2) ft(2) fb(2) bounds(3) by linarith
qed

lemma ex_scale: "float_scale (Fin 1) (Fin 50) = Ret (Some 50)" "float_scale (Fin 1) (Fin 1000) = Ret (Some 1000)"
  by code_simp+

lemma ex_fl1: "fl 1 = Fin 1"
  using fl_unit [of 1] by (simp add: f64.one)

text \<open>On a chain shorter than the window nothing is requested and the metric is given up.\<close>

lemma ex_congestion:
  "\<exists>hc' err. network_congestion ex_log10 ex_fees ex_net (Some (NewLFUBlockCache 200)) = Ret (hc', Inl err) \<and>
     congestion_buffer (Inl err) = Inr None"
proof -
  let ?c = "NewLFUBlockCache 200"
  have r: "requested_blocks 8 200 = []" by code_simp
  obtain c' where g: "getHeaderData (HeaderByNum ex_fees) ?c (Some (int64 8)) = (c', Inr \<lparr>hNumber = 8, hGasUsed = 5, hGasLimit = 10\<rparr>)"
    by (simp add: getHeaderData_def LFU_Get_def NewLFUBlockCache_def ex_fees_def int64_def)
  have n: "BlockNumber ex_fees = Inr 8" "GasPriceEstimationBlocks ex_net = 200" by (simp_all add: ex_fees_def ex_net_def)
  show ?thesis
    using g by (simp add: network_congestion_def congestion_run_def n r ex_min run_all_def run_schedule_def start_fetch_def wait_over_def
        worker_step_def ex_fees_def congestion_result_def congestion_buffer_def)
qed

lemma ex_fees_run:
  "\<exists>hc'. GetSuggestedEIP1559Fees ex_log10 ex_lib ex_fees ex_fees ex_cfg ex_net (Some (NewLFUBlockCache 200)) Priority_Standard =
     Ret (hc', Inr (100, 50))"
proof -
  have "HistoricalFeeData ex_lib ex_fees ex_net Priority_Standard = Inr (Fin 50, Fin 50)"
    by (simp add: HistoricalFeeData_def GasEstimator_Stats_def quantilesFromFloatArray_def ex_lib_def ex_fees_def
        Priority_Degen_def Priority_Fast_def Priority_Standard_def Priority_Slow_def)
  moreover have "getAdjustmentFactor Priority_Standard = Inr (Fin 1)"
    by (simp add: getAdjustmentFactor_def ex_fl1 Priority_Degen_def Priority_Fast_def Priority_Standard_def)
  moreover have "int64_of_float (Fin 50) = 50" by code_simp
  moreover have "float_of_int (int64 50) = Fin 50" using float_of_int_exact [of 50] by (simp add: int64_def)
  moreover have "SuggestGasTipCap ex_fees = Inr 10" by (simp add: ex_fees_def)
  ultimately show ?thesis
    using ex_congestion
    by (auto simp: GetSuggestedEIP1559Fees_def adjust_fees_def buffered_def need_int_def
        ex_scale ex_cfg_def IsExperimentEnabled_def Let_def simp del: int64_of_float.simps)
qed

theorem eip1559_fees_cover_witness:
  "\<exists>hc'. GetSuggestedEIP1559Fees ex_log10 ex_lib ex_fees ex_fees ex_cfg ex_net (Some (NewLFUBlockCache 200)) Priority_Standard =
     Ret (hc', Inr (100, 50)) \<and> \<lfloor>50 :: rat\<rfloor> + max 10 \<lfloor>50 :: rat\<rfloor> \<le> (100 :: int)"
proof -
  obtain hc' where run: "GetSuggestedEIP1559Fees ex_log10 ex_lib ex_fees ex_fees ex_cfg ex_net (Some (NewLFUBlockCache 200))
      Priority_Standard = Ret (hc', Inr (100, 50))" using ex_fees_run by blast
  have "\<lfloor>50 :: rat\<rfloor> + max 10 \<lfloor>50 :: rat\<rfloor> \<le> (100 :: int)"
    using eip1559_fees_cover [OF run, of 10 50 50]
    by (simp add: ex_cfg_def IsExperimentEnabled_def ex_fees_def HistoricalFeeData_def GasEstimator_Stats_def
        quantilesFromFloatArray_def ex_lib_def Priority_Degen_def Priority_Fast_def Priority_Standard_def)
  with run show ?thesis by blast
qed

text \<open>
  From standard priority on, the suggested legacy gas price is at least the node's own suggestion.
\<close>

theorem legacy_fee_covers:
  assumes run: "GetSuggestedLegacyFees Log10 nd net hc priority = Ret (hc', Inr gasPrice)"
    and priority: "priority \<in> {Priority_Degen, Priority_Fast, Priority_Standard}"
    and price: "SuggestGasPrice nd = Inr suggested" "0 \<le> suggested" "suggested < 2 ^ 53"
  shows "suggested \<le> gasPrice"
proof -
  obtain c where c: "getAdjustmentFactor priority = Inr (Fin c)" "1 \<le> c"
    using getAdjustmentFactor_ge1 [OF priority] by blast
  have s: "float_of_int (int64 suggested) = Fin (of_int suggested)"
    using price by (simp add: int64_id float_of_int_exact)
  obtain k where k: "float_scale (Fin c) (Fin (of_int suggested)) = Ret (Some k)" "suggested \<le> k"
    using float_scale_ge [OF c(2) order_refl price(2,3)] by blast
  obtain metric buffer where buf: "network_congestion Log10 nd net hc = Ret (hc', metric)" "congestion_buffer metric = Inr buffer"
    using run price c k s by (auto simp: GetSuggestedLegacyFees_def go_bind_Ret_iff case_sum_eq split: if_splits)
  obtain g where g: "buffered buffer (Some k) = Ret (Some g)" "k \<le> g" using buffered_ge [OF buf(2), of k] k price by auto
  have "gasPrice = g"
    using run price c k(1) s buf g(1) by (auto simp: GetSuggestedLegacyFees_def need_int_def split: if_splits)
  with k g show ?thesis by simp
qed

theorem legacy_fee_covers_witness:
  "\<exists>hc'. GetSuggestedLegacyFees ex_log10 ex_fees ex_net (Some (NewLFUBlockCache 200)) Priority_Standard = Ret (hc', Inr 1000) \<and>
     1000 \<le> (1000 :: int)"
proof -
  have "getAdjustmentFactor Priority_Standard = Inr (Fin 1)"
    by (simp add: getAdjustmentFactor_def ex_fl1 Priority_Degen_def Priority_Fast_def Priority_Standard_def)
  moreover have "float_of_int 1000 = Fin 1000" using float_of_int_exact [of 1000] by simp
  moreover have price: "SuggestGasPrice ex_fees = Inr 1000" by (simp add: ex_fees_def)
  ultimately obtain hc' where
    run: "GetSuggestedLegacyFees ex_log10 ex_fees ex_net (Some (NewLFUBlockCache 200)) Priority_Standard = Ret (hc', Inr 1000)"
    using ex_congestion
    by (auto simp: GetSuggestedLegacyFees_def buffered_def need_int_def ex_scale int64_def)
  with legacy_fee_covers [OF run, of 1000] price show ?thesis by simp
qed

text \<open>
  With the equalizer experiment on, a base fee more than 10 and at most 100 times the tip is not left alone:
  it is cut down to the tip, although the code's message speaks of a base fee 3 orders of magnitude lower.
\<close>

theorem fee_equalizer_cuts_base_fee:
  assumes tip: "0 < currentGasTip" "currentGasTip < 2 ^ 53" and b: "0 < b" "rnd64 b = b" "b < 2 ^ 53"
    and log: "Log10 (Fin b) = Fin lb" "Log10 (Fin (of_int currentGasTip)) = Fin lt"
    and gap: "1 < rnd64 (lb - lt)" "rnd64 (lb - lt) \<le> 2"
  shows "fee_equalizer Log10 (Fin b) currentGasTip = Ret (Fin (of_int currentGasTip), currentGasTip)"
proof -
  have fb: "big_Float64 (BF 53 b) = Fin b"
    using b by (simp add: fl_small [of b "2 ^ 53 - 1"] fl_fin power_strict_increasing_iff)
  have ft: "big_Float64 (big_SetInt currentGasTip) = Fin (of_int currentGasTip)"
  proof -
    have "\<bar>currentGasTip\<bar> < 2 ^ max 64 k" for k :: nat
    proof -
      have "currentGasTip < 2 ^ 53" by (rule tip)
      also have "(2 :: int) ^ 53 \<le> 2 ^ max 64 k" by (rule power_increasing) auto
      finally show ?thesis using tip(1) by simp
    qed
    then have "rnd (max 64 k) None (of_int currentGasTip) = of_int currentGasTip" for k :: nat by (intro rnd_of_int) simp_all
    moreover have "fl (of_int currentGasTip) = Fin (of_int currentGasTip)"
      using float_of_int_exact [of currentGasTip] tip by (simp add: float_of_int_def)
    ultimately show ?thesis by (simp add: big_SetInt_def Let_def)
  qed
  let ?d = "rnd64 (lb - lt)"
  have "(2 :: rat) < 2 ^ 1024" using power_strict_increasing [of 1 1024 "2 :: rat"] by simp
  then have d: "fsub (Fin lb) (Fin lt) = Fin ?d" using gap by (simp add: fsub_def fl_fin)
  have "\<lceil>?d\<rceil> = 2" using gap by (simp add: ceiling_eq_iff)
  then have "fst (calculateMagnitudeDifference Log10 (BF 53 b) (big_SetInt currentGasTip)) = 2"
    using b tip gap unfolding calculateMagnitudeDifference_def fb ft Let_def log d
    by (simp add: fle_def trunc_def)
  then show ?thesis
    using tip by (simp add: fee_equalizer_def int64_id float_of_int_exact)
qed

definition ex_log10_gap :: "float64 \<Rightarrow> float64" where
  "ex_log10_gap x = (if x = Fin 500 then Fin (11 / 4) else Fin 1)"

theorem fee_equalizer_cuts_base_fee_witness:
  "fee_equalizer ex_log10_gap (Fin 500) 10 = Ret (Fin 10, 10)"
proof -
  have "rnd64 500 = 500" "rnd64 (11 / 4 - 1) = 7 / 4" by code_simp+
  then show ?thesis
    using fee_equalizer_cuts_base_fee [of 10 500 ex_log10_gap "11 / 4" 1] by (simp add: ex_log10_gap_def)
qed

subsection \<open>Suggestions depend on the chain only\<close>

text \<open>The node answers from one chain, whose newest block it knows.\<close>

definition chain_node :: "(int \<Rightarrow> Header option) \<Rightarrow> fee_node \<Rightarrow> bool" where
  "chain_node chain nd \<longleftrightarrow>
     node_of_chain chain (HeaderByNum nd) \<and> (\<forall>k h. chain k = Some h \<longrightarrow> HeaderByNum nd k = Inr h) \<and>
     (\<exists>n. BlockNumber nd = Inr n \<and> 0 \<le> n \<and> n < 2 ^ 63 \<and> chain n \<noteq> None)"

lemma network_congestion_chain:
  assumes "chain_node chain nd"
  obtains "\<And>c sched. cached c \<subseteq>\<^sub>m chain \<Longrightarrow> network_congestion Log10 (nd\<lparr>Schedule := sched\<rparr>) net (Some c) = Hangs"
  | metric where "\<And>c sched. cached c \<subseteq>\<^sub>m chain \<Longrightarrow>
      \<exists>c'. cached c' \<subseteq>\<^sub>m chain \<and> network_congestion Log10 (nd\<lparr>Schedule := sched\<rparr>) net (Some c) = Ret (Some c', metric)"
proof -
  obtain n h where nd: "node_of_chain chain (HeaderByNum nd)" "\<And>k h. chain k = Some h \<Longrightarrow> HeaderByNum nd k = Inr h"
    "BlockNumber nd = Inr n" "0 \<le> n" "n < 2 ^ 63" "chain n = Some h"
    using assms by (auto simp: chain_node_def)
  note outcome = congestion_run_value [OF nd(1,2) _ nd(4,5,6), of _ Log10 "GasPriceEstimationBlocks net"]
  show ?thesis
  proof (cases "\<exists>k \<in> set (requested_blocks n (GasPriceEstimationBlocks net)). chain k = None")
    case True
    with outcome show ?thesis by (intro that(1)) (auto simp: network_congestion_def nd(3))
  next
    case False
    with outcome show ?thesis by (intro that(2)) (fastforce simp: network_congestion_def nd(3))
  qed
qed

text \<open>What follows the metric sees the cache only to pass it on.\<close>

definition passes_cache :: "(LFUHeaderCache option \<times> float64 res \<Rightarrow> (LFUHeaderCache option \<times> 'a) go) \<Rightarrow> bool" where
  "passes_cache K \<longleftrightarrow> (\<forall>h m. K (h, m) = go_bind (K (None, m)) (\<lambda>(_, r). Ret (h, r)))"

definition fees_agree :: "(int \<Rightarrow> Header option) \<Rightarrow> (LFUHeaderCache option \<times> 'a) go \<Rightarrow> (LFUHeaderCache option \<times> 'a) go \<Rightarrow> bool" where
  "fees_agree chain A B \<longleftrightarrow> map_go snd A = map_go snd B \<and>
     (\<forall>hc' r. A = Ret (hc', r) \<longrightarrow> (\<exists>c'. hc' = Some c' \<and> cached c' \<subseteq>\<^sub>m chain))"

lemma fees_agree_early: "cached c \<subseteq>\<^sub>m chain \<Longrightarrow> fees_agree chain (Ret (Some c, r)) (Ret (Some d, r))"
  by (simp add: fees_agree_def)

lemma fees_agree_bind: "(\<And>x. m = Ret x \<Longrightarrow> fees_agree chain (f x) (g x)) \<Longrightarrow> fees_agree chain (go_bind m f) (go_bind m g)"
  by (cases m) (simp_all add: fees_agree_def)

lemma fees_agree_congestion:
  assumes node: "chain_node chain nd" and c: "cached c \<subseteq>\<^sub>m chain" and d: "cached d \<subseteq>\<^sub>m chain" and K: "passes_cache K"
  shows "fees_agree chain (go_bind (network_congestion Log10 (nd\<lparr>Schedule := s\<rparr>) net (Some c)) K)
    (go_bind (network_congestion Log10 (nd\<lparr>Schedule := t\<rparr>) net (Some d)) K)"
proof (rule network_congestion_chain [OF node, of Log10 net])
  assume "\<And>c sched. cached c \<subseteq>\<^sub>m chain \<Longrightarrow> network_congestion Log10 (nd\<lparr>Schedule := sched\<rparr>) net (Some c) = Hangs"
  with c d show ?thesis by (simp add: fees_agree_def)
next
  fix metric
  assume run: "\<And>c sched. cached c \<subseteq>\<^sub>m chain \<Longrightarrow>
      \<exists>c'. cached c' \<subseteq>\<^sub>m chain \<and> network_congestion Log10 (nd\<lparr>Schedule := sched\<rparr>) net (Some c) = Ret (Some c', metric)"
  obtain c' d' where r: "cached c' \<subseteq>\<^sub>m chain" "network_congestion Log10 (nd\<lparr>Schedule := s\<rparr>) net (Some c) = Ret (Some c', metric)"
    "network_congestion Log10 (nd\<lparr>Schedule := t\<rparr>) net (Some d) = Ret (Some d', metric)"
    using run [OF c, of s] run [OF d, of t] by blast
  have "K (Some c', metric) = go_bind (K (None, metric)) (\<lambda>(_, r). Ret (Some c', r))"
    "K (Some d', metric) = go_bind (K (None, metric)) (\<lambda>(_, r). Ret (Some d', r))"
    using K unfolding passes_cache_def by blast+
  with r show ?thesis
    by (cases "K (None, metric)") (auto simp: fees_agree_def split: prod.splits)
qed

lemma adjust_fees_agree:
  assumes "chain_node chain nd" and "cached c \<subseteq>\<^sub>m chain" and "cached d \<subseteq>\<^sub>m chain"
  shows "fees_agree chain (adjust_fees Log10 (nd\<lparr>Schedule := s\<rparr>) net (Some c) priority b tip)
    (adjust_fees Log10 (nd\<lparr>Schedule := t\<rparr>) net (Some d) priority b tip)"
proof (cases "getAdjustmentFactor priority")
  case (Inr f)
  show ?thesis
    unfolding adjust_fees_def Inr sum.case
    using assms
    by (auto intro!: fees_agree_early fees_agree_bind fees_agree_congestion simp: passes_cache_def congestion_buffer_def
        go_bind_assoc split: sum.splits)
qed (use assms in \<open>simp add: adjust_fees_def fees_agree_early\<close>)

lemma legacy_fees_agree:
  assumes "chain_node chain nd" and "cached c \<subseteq>\<^sub>m chain" and "cached d \<subseteq>\<^sub>m chain"
  shows "fees_agree chain (GetSuggestedLegacyFees Log10 (nd\<lparr>Schedule := s\<rparr>) net (Some c) priority)
    (GetSuggestedLegacyFees Log10 (nd\<lparr>Schedule := t\<rparr>) net (Some d) priority)"
  using assms
  by (auto simp: GetSuggestedLegacyFees_def passes_cache_def congestion_buffer_def go_bind_assoc
      intro!: fees_agree_early fees_agree_bind fees_agree_congestion split: sum.splits)


definition ex_fee_chain :: "int \<Rightarrow> Header option" where
  "ex_fee_chain n = Some \<lparr>hNumber = n, hGasUsed = 5, hGasLimit = 10\<rparr>"


end
