(* ===== verification/Pragma_Version.thy ===== *)
theory Pragma_Version
  imports Geth_Types
begin

text \<open>
  Reading the Solidity compiler version out of contract bytecode (\<open>DecodePragmaVersion\<close> and
  \<open>DoesPragmaSupportCustomRevert\<close> of \<^verbatim>\<open>src/util.go\<close>), with every slice bound checked as the
  runtime does. The theorems: bytecode with a well-formed metadata section decodes to its version,
  and an exact characterisation of the inputs on which the function panics.
\<close>

record Pragma =
  Minor :: int
  Major :: int
  Patch :: int

definition Pragma_String :: "Pragma \<Rightarrow> string" where
  "Pragma_String p = Itoa (Major p) @ ''.'' @ Itoa (Minor p) @ ''.'' @ Itoa (Patch p)"

definition MetadataNotFoundErr :: string where "MetadataNotFoundErr = ''metadata section not found''"
definition InvalidMetadataLengthErr :: string where "InvalidMetadataLengthErr = ''invalid metadata length''"
definition FailedToDecodeMetadataErr :: string where "FailedToDecodeMetadataErr = ''failed to decode metadata''"
definition NotCompiledWithSolcErr :: string where "NotCompiledWithSolcErr = ''not compiled with solc''"

text \<open>\<open>strconv.ParseUint(s, 16, 16)\<close>.\<close>

fun hex_number :: "string \<Rightarrow> int \<Rightarrow> int option" where
  "hex_number [] acc = Some acc"
| "hex_number (c # cs) acc = (case hex_value c of None \<Rightarrow> None | Some v \<Rightarrow> hex_number cs (16 * acc + int v))"

definition ParseUint16 :: "string \<Rightarrow> int res" where
  "ParseUint16 s =
     (case (if s = [] then None else hex_number s 0) of
        None \<Rightarrow> Inl (ErrNew (''strconv.ParseUint: parsing '' @ [char_of (34 :: nat)] @ s @ [char_of (34 :: nat)] @ '': invalid syntax''))
      | Some v \<Rightarrow> if v < 2 ^ 16 then Inr v
          else Inl (ErrNew (''strconv.ParseUint: parsing '' @ [char_of (34 :: nat)] @ s @ [char_of (34 :: nat)] @ '': value out of range'')))"

definition metadataMarker :: string where "metadataMarker = ''fe''"
definition solcMarker :: string where "solcMarker = ''736f6c63''"

text \<open>The version digits, the last six characters before the length.\<close>

definition decode_version :: "string \<Rightarrow> Pragma res go" where
  "decode_version maybePragma =
     go_bind (go_slice maybePragma 0 2) (\<lambda>majorHex.
     go_bind (go_slice maybePragma 2 4) (\<lambda>minorHex.
     go_bind (go_slice maybePragma 4 6) (\<lambda>patchHex.
     Ret (case ParseUint16 majorHex of
         Inl err \<Rightarrow> Inl (ErrNew (FailedToDecodeMetadataErr @ '': '' @ errorText err))
       | Inr major \<Rightarrow>
           (case ParseUint16 minorHex of
              Inl err \<Rightarrow> Inl (ErrNew (FailedToDecodeMetadataErr @ '': '' @ errorText err))
            | Inr minor \<Rightarrow>
                (case ParseUint16 patchHex of
                   Inl err \<Rightarrow> Inl (ErrNew (FailedToDecodeMetadataErr @ '': '' @ errorText err))
                 | Inr patch \<Rightarrow> Inr \<lparr>Minor = minor, Major = major, Patch = patch\<rparr>))))))"

text \<open>The metadata section of the given length, its marker and its contents.\<close>

definition decode_metadata :: "string \<Rightarrow> int \<Rightarrow> Pragma res go" where
  "decode_metadata bytecode metadataLengthInt =
     (let metadataEndIndex = int (length bytecode) - 4; metadataStarIndex = metadataEndIndex - metadataLengthInt in
      go_bind (go_slice bytecode metadataStarIndex metadataEndIndex) (\<lambda>maybeMetadata.
      if int (length maybeMetadata) \<noteq> metadataLengthInt
      then Ret (Inl (ErrNew (InvalidMetadataLengthErr @ ''. expected: '' @ Itoa metadataLengthInt @
             '', actual: '' @ Itoa (int (length maybeMetadata)))))
      else
        go_bind (go_slice bytecode (metadataStarIndex - 2) metadataStarIndex) (\<lambda>maybeMarker.
        if maybeMarker \<noteq> metadataMarker then Ret (Inl (ErrNew MetadataNotFoundErr))
        else if \<not> Contains maybeMetadata solcMarker then Ret (Inl (ErrNew NotCompiledWithSolcErr))
        else
          go_bind (go_slice bytecode (metadataEndIndex - 6) metadataEndIndex) (\<lambda>maybePragma.
          decode_version maybePragma))))"

definition DecodePragmaVersion :: "string \<Rightarrow> Pragma res go" where
  "DecodePragmaVersion bytecode =
     go_bind (go_slice bytecode (int (length bytecode) - 4) (int (length bytecode))) (\<lambda>metadataLengthHex.
     case hex_DecodeString metadataLengthHex of
       Inl err \<Rightarrow> Ret (Inl (ErrNew (''failed to decode metadata length: '' @ errorText err)))
     | Inr metadataLengthByte \<Rightarrow>
         (case ParseUint16 (hex_EncodeToString metadataLengthByte) of
            Inl err \<Rightarrow> Ret (Inl (ErrNew (''failed to convert metadata length to int: '' @ errorText err)))
          | Inr metadataByteLengthUint \<Rightarrow>
              (let metadataLengthInt = metadataByteLengthUint * 2 in
               if metadataLengthInt > int (length bytecode) then Ret (Inl (ErrNew MetadataNotFoundErr))
               else decode_metadata bytecode metadataLengthInt)))"

definition DoesPragmaSupportCustomRevert :: "Pragma \<Rightarrow> bool" where
  "DoesPragmaSupportCustomRevert pragma \<longleftrightarrow>
     Minor pragma > 8 \<or> (Minor pragma = 8 \<and> Patch pragma \<ge> 4) \<or> Major pragma > 0"

subsection \<open>Hex numbers\<close>

fun be_value :: "byte list \<Rightarrow> int \<Rightarrow> int" where
  "be_value [] acc = acc"
| "be_value (b # bs) acc = be_value bs (256 * acc + uint b)"

lemma hex_number_encode: "hex_number (hex_EncodeToString bs) acc = Some (be_value bs acc)"
proof (induction bs arbitrary: acc)
  case Nil
  then show ?case by simp
next
  case (Cons b bs)
  have "unat b < 256" using unsigned_less [of b, where 'a = nat] by simp
  then have "unat b div 16 < 16" by simp
  moreover have "16 * int (unat b div 16) + int (unat b mod 16) = uint b"
    by (metis int_plus mult.commute mult_div_mod_eq of_nat_mult of_nat_numeral uint_nat)
  ultimately have eq: "16 * (16 * acc + int (unat b div 16)) + int (unat b mod 16) = 256 * acc + uint b"
    and "unat b div 16 < 16" by simp_all
  then have "hex_number (hex_EncodeToString (b # bs)) acc =
      hex_number (hex_EncodeToString bs) (16 * (16 * acc + int (unat b div 16)) + int (unat b mod 16))" by simp
  also have "\<dots> = Some (be_value (b # bs) acc)" unfolding eq using Cons [of "256 * acc + uint b"] by simp
  finally show ?case .
qed

lemma be_value_bound:
  assumes "0 \<le> acc"
  shows "0 \<le> be_value bs acc \<and> be_value bs acc < (acc + 1) * 256 ^ length bs"
  using assms
proof (induction bs arbitrary: acc)
  case Nil
  then show ?case by simp
next
  case (Cons b bs)
  have b: "0 \<le> uint b" "uint b < 256" using uint_lt2p [of b] by simp_all
  with Cons have "0 \<le> be_value bs (256 * acc + uint b) \<and>
      be_value bs (256 * acc + uint b) < (256 * acc + uint b + 1) * 256 ^ length bs" by simp
  moreover have "(256 * acc + uint b + 1) * 256 ^ length bs \<le> (acc + 1) * 256 * 256 ^ length bs"
    using b by (intro mult_right_mono) simp_all
  ultimately have "0 \<le> be_value bs (256 * acc + uint b)"
    "be_value bs (256 * acc + uint b) < (acc + 1) * 256 * 256 ^ length bs" by linarith+
  moreover have "(acc + 1) * 256 ^ length (b # bs) = (acc + 1) * 256 * 256 ^ length bs"
    by (simp only: length_Cons power_Suc mult.assoc)
  ultimately show ?case by (simp only: be_value.simps)
qed

lemma ParseUint16_encode:
  assumes "length bs = 1 \<or> length bs = 2"
  shows "ParseUint16 (hex_EncodeToString bs) = Inr (be_value bs 0)"
proof -
  have "hex_EncodeToString bs \<noteq> []" using assms by (cases bs) auto
  moreover have "be_value bs 0 < 2 ^ 16" using be_value_bound [of 0 bs] assms by auto
  ultimately show ?thesis by (simp add: ParseUint16_def hex_number_encode)
qed

lemma length_hex_Encode [simp]: "length (hex_EncodeToString bs) = 2 * length bs"
  by (induction bs) auto

lemma go_slice_append3:
  assumes "s = a @ b @ c" and "i = int (length a)" and "j = int (length a + length b)"
  shows "go_slice s i j = Ret b"
  using assms by (simp add: go_slice_def nat_add_distrib)

lemma metadata_length:
  assumes "4 \<le> length b" and "hex_DecodeString (drop (length b - 4) b) = Inr bs"
  shows "ParseUint16 (hex_EncodeToString bs) = Inr (be_value bs 0)" and "0 \<le> be_value bs 0"
proof -
  have "length bs = 2" using hex_Decode_length [OF assms(2)] assms(1) by simp
  then show "ParseUint16 (hex_EncodeToString bs) = Inr (be_value bs 0)" by (intro ParseUint16_encode) simp
  show "0 \<le> be_value bs 0" using be_value_bound [of 0 bs] by simp
qed

lemma go_slice_last4:
  "4 \<le> length b \<Longrightarrow> go_slice b (int (length b) - 4) (int (length b)) = Ret (drop (length b - 4) b)"
  by (simp add: go_slice_def nat_diff_distrib)

lemma decode_version_no_panic: "length s = 6 \<Longrightarrow> \<exists>r. decode_version s = Ret r"
  by (simp add: decode_version_def go_slice_def)

lemma Contains_length: "Contains s p \<Longrightarrow> length p \<le> length s"
  by (auto simp: Contains_iff)

text \<open>The part after the length check panics exactly when less than two characters precede the metadata.\<close>

lemma decode_metadata_no_panic:
  assumes b: "4 \<le> length b" and L: "0 \<le> L" "2 \<le> int (length b) - 4 - L"
  shows "\<exists>r. decode_metadata b L = Ret r"
proof -
  obtain m where m: "go_slice b (int (length b) - 4 - L) (int (length b) - 4) = Ret m"
    using L b by (simp add: go_slice_def)
  have len: "int (length m) = L" using go_slice_length [OF m] by simp
  obtain k where k: "go_slice b (int (length b) - 4 - L - 2) (int (length b) - 4 - L) = Ret k"
    using L b by (simp add: go_slice_def)
  show ?thesis
  proof (cases "k = metadataMarker \<and> Contains m solcMarker")
    case True
    then have "8 \<le> L" using Contains_length [of m solcMarker] len by (simp add: solcMarker_def)
    then obtain v where v: "go_slice b (int (length b) - 4 - 6) (int (length b) - 4) = Ret v"
      using L b by (simp add: go_slice_def)
    have "length v = 6" using go_slice_length [OF v] by simp
    with decode_version_no_panic m k v len True show ?thesis by (simp add: decode_metadata_def Let_def)
  next
    case False
    with m k len show ?thesis by (auto simp: decode_metadata_def Let_def)
  qed
qed

lemma decode_metadata_panic:
  assumes "0 \<le> L" "int (length b) - 4 - L < 2"
  shows "decode_metadata b L = Panic ''slice bounds out of range''"
proof (cases "0 \<le> int (length b) - 4 - L")
  case True
  then obtain m where m: "go_slice b (int (length b) - 4 - L) (int (length b) - 4) = Ret m"
    using assms by (simp add: go_slice_def)
  have "int (length m) = L" using go_slice_length [OF m] by simp
  moreover have "go_slice b (int (length b) - 4 - L - 2) (int (length b) - 4 - L) = Panic ''slice bounds out of range''"
    using assms(2) by (simp add: go_slice_def)
  ultimately show ?thesis using m by (simp add: decode_metadata_def Let_def)
next
  case False
  then have "go_slice b (int (length b) - 4 - L) (int (length b) - 4) = Panic ''slice bounds out of range''"
    by (simp add: go_slice_def)
  then show ?thesis by (simp add: decode_metadata_def Let_def)
qed

lemma DecodePragmaVersion_steps:
  assumes "4 \<le> length b" and "hex_DecodeString (drop (length b - 4) b) = Inr bs"
  shows "DecodePragmaVersion b = (if be_value bs 0 * 2 > int (length b) then Ret (Inl (ErrNew MetadataNotFoundErr))
    else decode_metadata b (be_value bs 0 * 2))"
  using metadata_length [OF assms] assms by (simp add: DecodePragmaVersion_def go_slice_last4 Let_def)

text \<open>
  \<open>DecodePragmaVersion\<close> panics, instead of returning an error, exactly on two kinds of input: bytecode of less
  than four characters, and bytecode whose last two bytes, read as the metadata length, leave less than
  two characters before the metadata (a length that exceeds the bytecode is caught).
\<close>

theorem DecodePragmaVersion_panics_iff:
  "(\<exists>m. DecodePragmaVersion b = Panic m) \<longleftrightarrow>
     length b < 4 \<or>
     (\<exists>bs. hex_DecodeString (drop (length b - 4) b) = Inr bs \<and>
        2 * be_value bs 0 \<le> int (length b) \<and> int (length b) - 4 - 2 * be_value bs 0 < 2)"
proof (cases "length b < 4")
  case True
  then show ?thesis by (simp add: DecodePragmaVersion_def go_slice_def)
next
  case False
  then have b: "4 \<le> length b" by simp
  show ?thesis
  proof (cases "hex_DecodeString (drop (length b - 4) b)")
    case (Inl e)
    then show ?thesis using b by (simp add: DecodePragmaVersion_def go_slice_last4)
  next
    case (Inr bs)
    note L = metadata_length [OF b Inr]
    let ?L = "be_value bs 0 * 2"
    have L0: "0 \<le> ?L" using L by simp
    consider "int (length b) < ?L" | "?L \<le> int (length b)" "2 \<le> int (length b) - 4 - ?L"
      | "?L \<le> int (length b)" "int (length b) - 4 - ?L < 2" by linarith
    then show ?thesis
    proof cases
      case 1
      then show ?thesis using b Inr by (simp add: DecodePragmaVersion_steps)
    next
      case 2
      then show ?thesis using b Inr decode_metadata_no_panic [OF b L0 2(2)] by (auto simp: DecodePragmaVersion_steps)
    next
      case 3
      then show ?thesis using b Inr decode_metadata_panic [OF L0 3(2)] by (auto simp: DecodePragmaVersion_steps)
    qed
  qed
qed

text \<open>
  C33. Bytecode that ends in a metadata section (marker byte, metadata naming solc and ending in the three version
  bytes, its length in two bytes) decodes to exactly that version.
\<close>

theorem DecodePragmaVersion_roundtrip:
  assumes code: "bytecode = code @ metadataMarker @ metadata @ hex_EncodeToString [hi, lo]"
    and meta: "metadata = front @ hex_EncodeToString [major, minor, patch]" "Contains metadata solcMarker"
    and len: "int (length metadata) = 2 * be_value [hi, lo] 0"
  shows "DecodePragmaVersion bytecode = Ret (Inr \<lparr>Minor = uint minor, Major = uint major, Patch = uint patch\<rparr>)"
proof -
  let ?v = "hex_EncodeToString [major, minor, patch]" and ?l = "hex_EncodeToString [hi, lo]"
  have n: "length ?l = 4" "length ?v = 6" "length metadataMarker = 2" by (simp_all add: metadataMarker_def)
  have blen: "int (length bytecode) = int (length code) + 2 + int (length metadata) + 4" using code n by simp
  have s1: "go_slice bytecode (int (length bytecode) - 4) (int (length bytecode)) = Ret ?l"
    by (rule go_slice_append3 [of _ "code @ metadataMarker @ metadata" _ "[]"]) (use code n blen in auto)
  have s2: "go_slice bytecode (int (length bytecode) - 4 - int (length metadata)) (int (length bytecode) - 4) = Ret metadata"
    by (rule go_slice_append3 [of _ "code @ metadataMarker" _ ?l]) (use code n blen in auto)
  have s3: "go_slice bytecode (int (length bytecode) - 4 - int (length metadata) - 2)
      (int (length bytecode) - 4 - int (length metadata)) = Ret metadataMarker"
    by (rule go_slice_append3 [of _ code _ "metadata @ ?l"]) (use code n blen in auto)
  have s4: "go_slice bytecode (int (length bytecode) - 4 - 6) (int (length bytecode) - 4) = Ret ?v"
    by (rule go_slice_append3 [of _ "code @ metadataMarker @ front" _ ?l]) (use code meta n blen in auto)
  have p: "ParseUint16 (hex_EncodeToString [b]) = Inr (uint b)" for b using ParseUint16_encode [of "[b]"] by simp
  have v: "decode_version ?v = Ret (Inr \<lparr>Minor = uint minor, Major = uint major, Patch = uint patch\<rparr>)"
    using p [of major] p [of minor] p [of patch] by (simp add: decode_version_def go_slice_def)
  have "be_value [hi, lo] 0 * 2 = int (length metadata)" using len by simp
  then show ?thesis
    using s1 s2 s3 s4 v meta(2) blen ParseUint16_encode [of "[hi, lo]"]
    by (simp add: DecodePragmaVersion_def decode_metadata_def Let_def del: hex_EncodeToString.simps be_value.simps)
qed

theorem DecodePragmaVersion_roundtrip_witness:
  "DecodePragmaVersion ''6080fe64736f6c63430008140009'' = Ret (Inr \<lparr>Minor = 8, Major = 0, Patch = 20\<rparr>)"
proof -
  have c: "''6080fe64736f6c63430008140009'' =
      ''6080'' @ metadataMarker @ ''64736f6c6343000814'' @ hex_EncodeToString [0, 9]"
    and m: "''64736f6c6343000814'' = ''64736f6c6343'' @ hex_EncodeToString [0, 8, 20]"
    and s: "Contains ''64736f6c6343000814'' solcMarker"
    by code_simp+
  show ?thesis
    using DecodePragmaVersion_roundtrip [OF c m s] by simp
qed

end
