(* ===== verification/Funds.thy ===== *)
theory Funds
  imports Gas_Bump Nonce_Manager
begin

text \<open>
  Keys and money: key generation, the split of the root key's balance over new keys
  (\<^verbatim>\<open>src/util.go\<close>, \<^verbatim>\<open>src/keyfile.go\<close>, \<^verbatim>\<open>src/client_helpers.go\<close>), the plain transfer with its wait for
  a receipt (\<^verbatim>\<open>src/client.go\<close>), and the JSON array file of \<^verbatim>\<open>src/util.go\<close>. Node and cryptography are
  parameters. The theorems: no split spends more than the balance, what a transfer does to the
  nonce, and that appended files are JSON arrays.
\<close>

definition ErrInsufficientRootKeyBalance :: "string \<Rightarrow> string" where
  "ErrInsufficientRootKeyBalance s = ''insufficient root key balance: '' @ s"
definition ErrNoKeyLoaded :: string where
  "ErrNoKeyLoaded = ''failed to load private key''"

subsection \<open>Keys\<close>

text \<open>
  \<open>NewAddress\<close> from a generated key: its address text, and the hex text of its bytes without the \<open>0x\<close>. The
  public key of a generated key is an ECDSA key, so the type assertion holds.
\<close>

definition NewAddress :: "'key res \<Rightarrow> ('key \<Rightarrow> string) \<Rightarrow> ('key \<Rightarrow> string) \<Rightarrow> (string \<times> string) res go" where
  "NewAddress GenerateKey addressHex encodeKey =
     (case GenerateKey of
        Inl err \<Rightarrow> Ret (Inl err)
      | Inr privateKey \<Rightarrow>
          go_bind (go_slice (encodeKey privateKey) 2 (int (length (encodeKey privateKey)))) (\<lambda>s.
          Ret (Inr (addressHex privateKey, s))))"

text \<open>The keys of the given number of calls of \<open>NewAddress\<close>.\<close>

fun ephemeral_loop :: "(nat \<Rightarrow> (string \<times> string) res go) \<Rightarrow> nat \<Rightarrow> nat \<Rightarrow> string list \<Rightarrow> string list res go" where
  "ephemeral_loop newAddress i 0 privKeys = Ret (Inr privKeys)"
| "ephemeral_loop newAddress i (Suc k) privKeys =
     go_bind (newAddress i) (\<lambda>r. case r of
         Inl err \<Rightarrow> Ret (Inl err)
       | Inr (_, pKey) \<Rightarrow> ephemeral_loop newAddress (Suc i) k (privKeys @ [pKey]))"

definition NewEphemeralKeys :: "(nat \<Rightarrow> (string \<times> string) res go) \<Rightarrow> int \<Rightarrow> string list res go" where
  "NewEphemeralKeys newAddress addrs = ephemeral_loop newAddress 0 (nat addrs) []"

definition GetRootKeyAddress :: "address list \<Rightarrow> address res" where
  "GetRootKeyAddress addrs = (case addrs of [] \<Rightarrow> Inl (ErrNew ''no addresses found in the client configuration'') | a # _ \<Rightarrow> Inr a)"

definition MustGetRootKeyAddress :: "address list \<Rightarrow> address go" where
  "MustGetRootKeyAddress addrs = (case addrs of [] \<Rightarrow> Panic ''no addresses found in the client configuration'' | a # _ \<Rightarrow> Ret a)"

definition GetRootPrivateKey :: "'pk list \<Rightarrow> 'pk res" where
  "GetRootPrivateKey pks = (case pks of [] \<Rightarrow> Inl (ErrNew ''no private keys found in the client configuration'') | k # _ \<Rightarrow> Inr k)"

definition MustGetRootPrivateKey :: "'pk list \<Rightarrow> 'pk go" where
  "MustGetRootPrivateKey pks = (case pks of [] \<Rightarrow> Panic ''no private keys found in the client configuration'' | k # _ \<Rightarrow> Ret k)"

subsection \<open>Splitting the root key's balance\<close>

record FundingDetails =
  RootBalance :: int
  TotalFee :: int
  FreeBalance :: int
  AddrFunding :: int
  NetworkTransferFee :: int

definition EstimateGasLimitForFundTransfer ::
  "(address \<Rightarrow> address \<Rightarrow> int \<Rightarrow> int res) \<Rightarrow> address \<Rightarrow> address \<Rightarrow> int \<Rightarrow> int res" where
  "EstimateGasLimitForFundTransfer EstimateGas from_addr to_addr amount =
     (case EstimateGas from_addr to_addr amount of
        Inl err \<Rightarrow> Inl (ErrWrap ''failed to estimate gas for fund transfer'' err)
      | Inr gasLimit \<Rightarrow> Inr gasLimit)"

text \<open>The gas limit: the estimate for a transfer to a fresh address, or the configured fee.\<close>

definition transfer_gas_limit ::
  "(address \<Rightarrow> address \<Rightarrow> int \<Rightarrow> int res) \<Rightarrow> int \<Rightarrow> address \<Rightarrow> address \<Rightarrow> int \<Rightarrow> int" where
  "transfer_gas_limit EstimateGas transferGasFee from_addr to_addr amount =
     (case EstimateGasLimitForFundTransfer EstimateGas from_addr to_addr amount of
        Inl err \<Rightarrow> transferGasFee
      | Inr gasLimitRaw \<Rightarrow> int64 gasLimitRaw)"

text \<open>The arithmetic after the gas limit is known; \<open>Div\<close> panics on a zero divisor.\<close>

definition split_balance :: "int \<Rightarrow> int \<Rightarrow> int \<Rightarrow> int \<Rightarrow> int \<Rightarrow> FundingDetails res go" where
  "split_balance balance addrs gasPrice gasLimit rooKeyBuffer =
     (let networkTransferFee = int64 (gasPrice * gasLimit);
          totalFee = networkTransferFee * addrs;
          rootKeyBuffer = rooKeyBuffer * 10 ^ 18;
          freeBalance = balance - (totalFee + rootKeyBuffer) in
      if freeBalance < 0 then Ret (Inl (ErrNew (ErrInsufficientRootKeyBalance (Itoa freeBalance))))
      else if addrs = 0 then Panic ''division by zero''
      else
        (let addrFunding = ediv freeBalance addrs; requiredBalance = addrFunding * addrs in
         if freeBalance < requiredBalance then Ret (Inl (ErrNew (ErrInsufficientRootKeyBalance (Itoa freeBalance))))
         else Ret (Inr \<lparr>RootBalance = balance, TotalFee = totalFee, FreeBalance = freeBalance,
                AddrFunding = addrFunding, NetworkTransferFee = networkTransferFee\<rparr>)))"

definition CalculateSubKeyFunding ::
  "(address \<Rightarrow> int res) \<Rightarrow> (string \<times> string) res go \<Rightarrow> (string \<Rightarrow> address) \<Rightarrow> (address \<Rightarrow> address \<Rightarrow> int \<Rightarrow> int res) \<Rightarrow>
   Network \<Rightarrow> address list \<Rightarrow> int \<Rightarrow> int \<Rightarrow> int \<Rightarrow> FundingDetails res go" where
  "CalculateSubKeyFunding BalanceAt newAddress hexToAddress EstimateGas net addresses addrs gasPrice rooKeyBuffer =
     go_bind (go_index addresses 0) (\<lambda>root.
     case BalanceAt root of
       Inl err \<Rightarrow> Ret (Inl err)
     | Inr balance \<Rightarrow>
         go_bind newAddress (\<lambda>r.
         go_bind (case r of
             Inl err \<Rightarrow> Ret (TransferGasFee net)
           | Inr (newAddr, _) \<Rightarrow>
               if addrs = 0 then Panic ''division by zero''
               else Ret (transfer_gas_limit EstimateGas (TransferGasFee net) root (hexToAddress newAddr) (quo balance addrs)))
           (\<lambda>gasLimit. split_balance balance addrs gasPrice gasLimit rooKeyBuffer)))"

subsection \<open>Transfers\<close>

text \<open>
  \<open>WaitMined\<close>: the answers the node gives at the polls before the context ends, and the
  context's error then. There is always a first poll.
\<close>

fun WaitMined :: "goerr \<Rightarrow> 'r res list \<Rightarrow> 'r res" where
  "WaitMined ctxErr [] = Inl ctxErr"
| "WaitMined ctxErr (Inr receipt # polls) = Inr receipt"
| "WaitMined ctxErr (Inl err # polls) = WaitMined ctxErr polls"

record ('pk, 'r) transfer_env =
  NetworkID :: "int res"
  HexToAddress :: "string \<Rightarrow> address"
  EstimateGas :: "address \<Rightarrow> address \<Rightarrow> int \<Rightarrow> int res"
  SignTransfer :: "'pk \<Rightarrow> int \<Rightarrow> TxData \<Rightarrow> Transaction res"
  SendTransfer :: "Transaction \<Rightarrow> goerr option"
  Polls :: "Transaction \<Rightarrow> 'r res list"
  CtxErr :: goerr

text \<open>The last part: sign, send, wait. The result is the transaction sent, if any, and the error.\<close>

definition sign_send_wait :: "('pk, 'r) transfer_env \<Rightarrow> 'pk \<Rightarrow> int \<Rightarrow> TxData \<Rightarrow> Transaction option \<times> goerr option" where
  "sign_send_wait env pk chainID rawTx =
     (case SignTransfer env pk chainID rawTx of
        Inl err \<Rightarrow> (None, Some (ErrWrap ''failed to sign tx'' err))
      | Inr signedTx \<Rightarrow>
          (case SendTransfer env signedTx of
             Some err \<Rightarrow> (Some signedTx, Some (ErrWrap ''failed to send transaction'' err))
           | None \<Rightarrow>
               (case WaitMined (CtxErr env) (Polls env signedTx) of
                  Inl err \<Rightarrow> (Some signedTx, Some err)
                | Inr _ \<Rightarrow> (Some signedTx, None))))"

definition TransferETHFromKey ::
  "('pk, 'r) transfer_env \<Rightarrow> Network \<Rightarrow> address list \<Rightarrow> 'pk list \<Rightarrow> NonceManager \<Rightarrow>
   int \<Rightarrow> string \<Rightarrow> int \<Rightarrow> int option \<Rightarrow> (NonceManager \<times> Transaction option \<times> goerr option) go" where
  "TransferETHFromKey env net addrs pks m fromKeyNum to_hex val gasPrice =
     (if fromKeyNum > int (length pks) \<or> fromKeyNum > int (length addrs)
      then Ret (m, None, Some (ErrWrap (''requested key: '' @ Itoa fromKeyNum) (ErrNew ErrNoKeyLoaded)))
      else case NetworkID env of
        Inl err \<Rightarrow> Ret (m, None, Some (ErrWrap ''failed to get network ID'' err))
      | Inr chainID \<Rightarrow>
          go_bind (go_index addrs fromKeyNum) (\<lambda>from_addr.
          let toAddr = HexToAddress env to_hex;
              gasLimit = transfer_gas_limit (EstimateGas env) (TransferGasFee net) from_addr toAddr val;
              price = (case gasPrice of None \<Rightarrow> netGasPrice net | Some p \<Rightarrow> p);
              (m', nonce) = NextNonce m from_addr;
              rawTx = LegacyTx \<lparr>dNonce = uint64 nonce, dTo = Some toAddr, dValue = val,
                        dGas = uint64 gasLimit, dData = []\<rparr> (Some price)
          in go_bind (go_index pks fromKeyNum) (\<lambda>pk.
             if TxnTimeout net = None then Panic ''nil pointer dereference''
             else Ret (m', sign_send_wait env pk chainID rawTx))))"

subsection \<open>JSON files\<close>

record file_io =
  openErr :: "goerr option"
  seekErr :: "goerr option"
  writeErr :: "goerr option"

text \<open>
  \<open>CreateOrAppendToJsonArray\<close> on the bytes of the file (empty when it does not exist): the new bytes and
  the error. Appending overwrites the last byte.
\<close>

definition CreateOrAppendToJsonArray :: "file_io \<Rightarrow> string \<Rightarrow> string res \<Rightarrow> string \<times> goerr option" where
  "CreateOrAppendToJsonArray io content marshalled =
     (case openErr io of
        Some err \<Rightarrow> (content, Some err)
      | None \<Rightarrow>
          (case seekErr io of
             Some err \<Rightarrow> (content, Some err)
           | None \<Rightarrow>
               (case marshalled of
                  Inl err \<Rightarrow> (content, Some err)
                | Inr jsonValue \<Rightarrow>
                    (case writeErr io of
                       Some err \<Rightarrow> (content, Some err)
                     | None \<Rightarrow>
                         (if content = [] then ''['' @ jsonValue @ '']''
                          else butlast content @ '','' @ newline @ jsonValue @ '']'', None)))))"

subsection \<open>Properties\<close>

lemma split_balance_ok:
  assumes "split_balance balance addrs gasPrice gasLimit buffer = Ret (Inr d)"
  shows "RootBalance d = balance" "FreeBalance d = balance - (TotalFee d + buffer * 10 ^ 18)" "0 \<le> FreeBalance d"
    "NetworkTransferFee d = int64 (gasPrice * gasLimit)" "TotalFee d = NetworkTransferFee d * addrs"
    "AddrFunding d = ediv (FreeBalance d) addrs" "addrs \<noteq> 0" "AddrFunding d * addrs \<le> FreeBalance d"
  using assms by (auto simp: split_balance_def Let_def split: if_splits)

lemma funding_covered:
  assumes run: "CalculateSubKeyFunding BalanceAt newAddress hexToAddress EstimateGasFn net addresses addrs gasPrice buffer = Ret (Inr d)"
    and addrs: "0 < addrs"
  shows "addresses \<noteq> [] \<and> BalanceAt (hd addresses) = Inr (RootBalance d) \<and> 0 \<le> AddrFunding d \<and>
    addrs * AddrFunding d + TotalFee d + buffer * 10 ^ 18 \<le> RootBalance d \<and>
    RootBalance d < addrs * AddrFunding d + TotalFee d + buffer * 10 ^ 18 + addrs"
proof -
  from run obtain root where root: "go_index addresses 0 = Ret root"
    by (auto simp: CalculateSubKeyFunding_def go_bind_Ret_iff)
  obtain balance where bal: "BalanceAt root = Inr balance"
    using run root by (cases "BalanceAt root") (auto simp: CalculateSubKeyFunding_def)
  obtain gasLimit where split: "split_balance balance addrs gasPrice gasLimit buffer = Ret (Inr d)"
    using run root bal by (auto simp: CalculateSubKeyFunding_def go_bind_Ret_iff)
  note ok = split_balance_ok [OF split]
  let ?f = "FreeBalance d"
  have a: "AddrFunding d = ?f div addrs" using ok(6) addrs by (simp add: ediv_def)
  have "addrs * (?f div addrs) \<le> ?f" "?f < addrs * (?f div addrs) + addrs"
    using pos_mod_sign [OF addrs, of ?f] pos_mod_bound [OF addrs, of ?f] mult_div_mod_eq [of addrs ?f]
    by linarith+
  moreover have "0 \<le> ?f div addrs" using ok(3) addrs by (simp add: pos_imp_zdiv_nonneg_iff)
  moreover have "addresses \<noteq> []" "root = hd addresses"
    using root by (auto simp: go_index_def hd_conv_nth split: if_splits)
  ultimately show ?thesis using ok(1,2) bal a by auto
qed

lemma funding_exact:
  assumes run: "CalculateSubKeyFunding BalanceAt newAddress hexToAddress EstimateGasFn net addresses addrs gasPrice buffer = Ret (Inr d)"
  obtains gasLimit where "gasLimit = TransferGasFee net \<or> (\<exists>to_addr g. EstimateGasFn (hd addresses) to_addr (quo (RootBalance d) addrs) = Inr g \<and> gasLimit = int64 g)"
    "NetworkTransferFee d = int64 (gasPrice * gasLimit)" "TotalFee d = NetworkTransferFee d * addrs"
    "AddrFunding d = ediv (RootBalance d - TotalFee d - buffer * 10 ^ 18) addrs"
proof -
  from run obtain root where root: "go_index addresses 0 = Ret root"
    by (auto simp: CalculateSubKeyFunding_def go_bind_Ret_iff)
  obtain balance where bal: "BalanceAt root = Inr balance"
    using run root by (cases "BalanceAt root") (auto simp: CalculateSubKeyFunding_def)
  obtain r where r: "newAddress = Ret r" using run root bal by (auto simp: CalculateSubKeyFunding_def go_bind_Ret_iff)
  have hd: "root = hd addresses" using root by (auto simp: go_index_def hd_conv_nth split: if_splits)
  have "\<exists>gasLimit. (gasLimit = TransferGasFee net \<or> (\<exists>to_addr g. EstimateGasFn root to_addr (quo balance addrs) = Inr g \<and> gasLimit = int64 g)) \<and>
    split_balance balance addrs gasPrice gasLimit buffer = Ret (Inr d)"
    using run root bal r
    by (auto simp: CalculateSubKeyFunding_def go_bind_Ret_iff transfer_gas_limit_def EstimateGasLimitForFundTransfer_def split: sum.splits if_splits)
      metis+
  then obtain gasLimit where g: "gasLimit = TransferGasFee net \<or> (\<exists>to_addr g. EstimateGasFn root to_addr (quo balance addrs) = Inr g \<and> gasLimit = int64 g)"
    and split: "split_balance balance addrs gasPrice gasLimit buffer = Ret (Inr d)" by blast
  note ok = split_balance_ok [OF split]
  show ?thesis using that [of gasLimit] g ok(1,2,4,5,6) by (simp add: hd algebra_simps)
qed

text \<open>
  C9. How \<open>CalculateSubKeyFunding\<close> splits the root balance between a positive number of keys. With the gas limit it uses, the configured one
  or the node's estimate, the fee of a transfer is the product of gas price and limit in 64 bits, and each key gets
  the quotient of what remains after that fee for every key and the buffer: the shares, the computed fees and the buffer stay
  within the balance, and less than one wei per key is left over. If the product does not wrap around, that is
  the true cost, so the root key can pay for all transfers and keeps its buffer. If it wraps around to a negative fee, nothing
  keeps the shares below the balance: \<open>funding_overdraws\<close> below is such a split.
\<close>

theorem funding_within_balance:
  assumes run: "CalculateSubKeyFunding BalanceAt newAddress hexToAddress EstimateGasFn net addresses addrs gasPrice buffer = Ret (Inr d)"
    and addrs: "0 < addrs"
  shows "addresses \<noteq> [] \<and> BalanceAt (hd addresses) = Inr (RootBalance d) \<and> 0 \<le> AddrFunding d \<and>
    addrs * AddrFunding d + TotalFee d + buffer * 10 ^ 18 \<le> RootBalance d \<and>
    RootBalance d < addrs * AddrFunding d + TotalFee d + buffer * 10 ^ 18 + addrs \<and>
    (\<exists>gasLimit.
       (gasLimit = TransferGasFee net \<or>
        (\<exists>to_addr g. EstimateGasFn (hd addresses) to_addr (quo (RootBalance d) addrs) = Inr g \<and> gasLimit = int64 g)) \<and>
       TotalFee d = addrs * int64 (gasPrice * gasLimit) \<and>
       AddrFunding d = (RootBalance d - addrs * int64 (gasPrice * gasLimit) - buffer * 10 ^ 18) div addrs \<and>
       (0 \<le> gasPrice * gasLimit \<and> gasPrice * gasLimit < 2 ^ 63 \<longrightarrow>
          addrs * (AddrFunding d + gasPrice * gasLimit) + buffer * 10 ^ 18 \<le> RootBalance d))"
proof -
  obtain gasLimit where g: "gasLimit = TransferGasFee net \<or> (\<exists>to_addr g. EstimateGasFn (hd addresses) to_addr (quo (RootBalance d) addrs) = Inr g \<and> gasLimit = int64 g)"
    "NetworkTransferFee d = int64 (gasPrice * gasLimit)" "TotalFee d = NetworkTransferFee d * addrs"
    "AddrFunding d = ediv (RootBalance d - TotalFee d - buffer * 10 ^ 18) addrs"
    by (rule funding_exact [OF run])
  have fee: "TotalFee d = addrs * int64 (gasPrice * gasLimit)" using g(2,3) by simp
  have "AddrFunding d = (RootBalance d - addrs * int64 (gasPrice * gasLimit) - buffer * 10 ^ 18) div addrs"
    using g(4) addrs fee by (simp add: ediv_def)
  moreover have "addrs * (AddrFunding d + gasPrice * gasLimit) + buffer * 10 ^ 18 \<le> RootBalance d"
    if "0 \<le> gasPrice * gasLimit" "gasPrice * gasLimit < 2 ^ 63"
    using funding_covered [OF run addrs] that fee by (simp add: int64_id algebra_simps)
  ultimately show ?thesis using funding_covered [OF run addrs] g(1) fee by blast
qed

theorem funding_within_balance_witness:
  "\<exists>d. CalculateSubKeyFunding (\<lambda>a. Inr 1000000) (Ret (Inr (''a'', ''b''))) (\<lambda>s. [1]) (\<lambda>f t v. Inr 21000)
       (ex_net\<lparr>TransferGasFee := 21000\<rparr>) [[7]] 3 1 0 = Ret (Inr d) \<and>
     3 * (AddrFunding d + 1 * 21000) + 0 * 10 ^ 18 \<le> RootBalance d"
proof -
  obtain d where d: "CalculateSubKeyFunding (\<lambda>a. Inr 1000000) (Ret (Inr (''a'', ''b''))) (\<lambda>s. [1]) (\<lambda>f t v. Inr 21000)
      (ex_net\<lparr>TransferGasFee := 21000\<rparr>) [[7]] 3 1 0 = Ret (Inr d)"
    by (simp add: CalculateSubKeyFunding_def go_index_def split_balance_def transfer_gas_limit_def
        EstimateGasLimitForFundTransfer_def int64_def ediv_def)
  have "int64 21000 = 21000" by (simp add: int64_def)
  with d funding_within_balance [OF d] show ?thesis by (intro exI [of _ d]) auto
qed

text \<open>
  The wrap-around is within reach of an unusual gas price: at 500000 gwei the product with the gas limit of a transfer is a
  negative number in 64 bits, and one key is promised almost nine times the balance.
\<close>

theorem funding_overdraws:
  "\<exists>d. CalculateSubKeyFunding (\<lambda>a. Inr (10 ^ 18)) (Ret (Inr (''a'', ''b''))) (\<lambda>s. [1]) (\<lambda>f t v. Inr 21000) ex_net [[7]] 1 (5 * 10 ^ 14) 0 =
     Ret (Inr d) \<and> 8 * RootBalance d < AddrFunding d"
  by (simp add: CalculateSubKeyFunding_def go_index_def split_balance_def transfer_gas_limit_def
      EstimateGasLimitForFundTransfer_def int64_def ediv_def)

text \<open>
  A transfer either does not touch the nonce manager, or takes exactly the next nonce of the sending key: the transaction it
  signs carries that nonce, the requested value and recipient. The nonce is taken even when signing or sending fails
  afterwards. A key number equal to the number of keys passes the range check and panics.
\<close>

theorem transfer_takes_nonce:
  assumes run: "TransferETHFromKey env net addrs pks m k to_hex val gasPrice = Ret (m', sent, err)"
    and len: "length addrs = length pks"
  shows "(m' = m \<and> sent = None \<and> err \<noteq> None) \<or>
    (0 \<le> k \<and> k < int (length addrs) \<and> m' = fst (NextNonce m (addrs ! nat k)) \<and>
     (\<forall>tx. sent = Some tx \<longrightarrow> (\<exists>chainID d p. NetworkID env = Inr chainID \<and>
        SignTransfer env (pks ! nat k) chainID (LegacyTx d (Some p)) = Inr tx \<and>
        dNonce d = uint64 (nonce_of m (addrs ! nat k)) \<and> dTo d = Some (HexToAddress env to_hex) \<and> dValue d = val)) \<and>
     (err = None \<longrightarrow> sent \<noteq> None))"
proof -
  show ?thesis
  proof (cases "k > int (length pks) \<or> k > int (length addrs) \<or> (\<exists>e. NetworkID env = Inl e)")
    case True
    then have "m' = m \<and> sent = None \<and> err \<noteq> None"
      using run by (auto simp: TransferETHFromKey_def split: if_splits)
    then show ?thesis by blast
  next
    case False
    then obtain chainID where chain: "NetworkID env = Inr chainID" by (cases "NetworkID env") auto
    obtain a where a: "go_index addrs k = Ret a"
      using run False chain by (auto simp: TransferETHFromKey_def go_bind_Ret_iff)
    obtain pk where pk: "go_index pks k = Ret pk"
      using run False chain a by (auto simp: TransferETHFromKey_def go_bind_Ret_iff Let_def split: prod.splits)
    define d where "d = \<lparr>dNonce = uint64 (nonce_of m a), dTo = Some (HexToAddress env to_hex), dValue = val,
      dGas = uint64 (transfer_gas_limit (EstimateGas env) (TransferGasFee net) a (HexToAddress env to_hex) val), dData = []\<rparr>"
    define p where "p = (case gasPrice of None \<Rightarrow> netGasPrice net | Some p \<Rightarrow> p)"
    have m': "m' = fst (NextNonce m a)" and r: "sign_send_wait env pk chainID (LegacyTx d (Some p)) = (sent, err)"
      using run False chain a pk
      by (auto simp: TransferETHFromKey_def Let_def NextNonce_def d_def p_def split: if_splits)
    have pa: "0 \<le> k" "k < int (length addrs)" "a = addrs ! nat k" "pk = pks ! nat k"
      using a pk len by (auto simp: go_index_def split: if_splits)
    have "SignTransfer env pk chainID (LegacyTx d (Some p)) = Inr tx" if "sent = Some tx" for tx
      using r that by (auto simp: sign_send_wait_def split: sum.splits option.splits)
    moreover have "err = None \<longrightarrow> sent \<noteq> None"
      using r by (auto simp: sign_send_wait_def split: sum.splits option.splits)
    moreover have "dNonce d = uint64 (nonce_of m a)" "dTo d = Some (HexToAddress env to_hex)" "dValue d = val"
      by (simp_all add: d_def)
    ultimately show ?thesis using pa m' chain by blast
  qed
qed

lemma transfer_key_off_by_one:
  assumes "NetworkID env = Inr chainID" and "k = int (length addrs)" and "length addrs = length pks"
  shows "TransferETHFromKey env net addrs pks m k to_hex val gasPrice = Panic ''index out of range''"
  using assms by (simp add: TransferETHFromKey_def go_index_def)

definition ex_transfer_env :: "(nat, unit) transfer_env" where
  "ex_transfer_env = \<lparr>NetworkID = Inr 1337, HexToAddress = (\<lambda>s. [9]), EstimateGas = (\<lambda>f t v. Inr 21000),
     SignTransfer = (\<lambda>k c d. Inr ex_tx), SendTransfer = (\<lambda>tx. Some (ErrNew ''underpriced'')), Polls = (\<lambda>tx. []),
     CtxErr = ErrDeadlineExceeded\<rparr>"

theorem transfer_takes_nonce_witness:
  "\<exists>err. TransferETHFromKey ex_transfer_env ex_net [[1], [2]] [0, 0] ex_manager 0 ''0x9'' 5 None =
       Ret (fst (NextNonce ex_manager [1]), Some ex_tx, err) \<and>
     (\<exists>d p. SignTransfer ex_transfer_env 0 1337 (LegacyTx d (Some p)) = Inr ex_tx \<and>
        dNonce d = uint64 (nonce_of ex_manager [1]))"
proof -
  have run: "TransferETHFromKey ex_transfer_env ex_net [[1], [2]] [0, 0] ex_manager 0 ''0x9'' 5 None =
      Ret (fst (NextNonce ex_manager [1]), Some ex_tx, Some (ErrWrap ''failed to send transaction'' (ErrNew ''underpriced'')))"
    by (simp add: TransferETHFromKey_def go_index_def ex_transfer_env_def sign_send_wait_def ex_net_def split: prod.splits)
  have "\<exists>chainID d p. NetworkID ex_transfer_env = Inr chainID \<and>
      SignTransfer ex_transfer_env ([0, 0] ! nat 0) chainID (LegacyTx d (Some p)) = Inr ex_tx \<and>
      dNonce d = uint64 (nonce_of ex_manager ([[1], [2]] ! nat 0))"
    using transfer_takes_nonce [OF run] by simp blast
  then have "\<exists>d p. SignTransfer ex_transfer_env 0 1337 (LegacyTx d (Some p)) = Inr ex_tx \<and>
      dNonce d = uint64 (nonce_of ex_manager [1])"
    by (simp add: ex_transfer_env_def)
  with run show ?thesis by blast
qed

text \<open>
  Starting from an empty or missing file, any sequence of successful appends leaves a JSON array of the items in order.
\<close>

theorem json_array_appends:
  assumes "openErr io = None" "seekErr io = None" "writeErr io = None" and "items \<noteq> []"
  shows "foldl (\<lambda>content item. fst (CreateOrAppendToJsonArray io content (Inr item))) [] items =
    ''['' @ Join items ('','' @ newline) @ '']''"
proof -
  have join: "Join (xs @ [y]) sep = Join xs sep @ sep @ y" if "xs \<noteq> []" for xs y sep
    using that by (induction xs sep rule: Join.induct) auto
  show ?thesis
    using assms(4)
  proof (induction items rule: rev_induct)
    case (snoc x xs)
    show ?case
    proof (cases "xs = []")
      case True
      then show ?thesis using assms by (simp add: CreateOrAppendToJsonArray_def)
    next
      case False
      with snoc.IH assms show ?thesis by (simp add: CreateOrAppendToJsonArray_def join butlast_append)
    qed
  qed simp
qed

theorem json_array_appends_witness:
  "foldl (\<lambda>content item. fst (CreateOrAppendToJsonArray \<lparr>openErr = None, seekErr = None, writeErr = None\<rparr> content (Inr item)))
     [] [''1'', ''2''] = ''[1,'' @ newline @ ''2]''"
  using json_array_appends [of "\<lparr>openErr = None, seekErr = None, writeErr = None\<rparr>" "[''1'', ''2'']"] by simp

end
