(* ===== verification/Decode.thy ===== *)
theory Decode
  imports ABI_Finder Gas_Bump Pragma_Version
begin

text \<open>
  Decoding of transactions, events and revert reasons: \<^verbatim>\<open>src/decode.go\<close> and the client's \<open>decodeContractLogs\<close> and
  \<open>mergeLogMeta\<close> (\<^verbatim>\<open>src/client.go\<close>). What go-ethereum's ABI package does is the record \<open>abi_lib\<close>. A Go map
  that may be nil is an option. The theorems say which indexed event fields are decoded and that a reverted
  transaction never ends up without an error.
\<close>

type_synonym gvals = "(string, goval) gomap"

record abi_lib =
  args_UnpackIntoMap :: "Argument list \<Rightarrow> byte list \<Rightarrow> gvals res"
  args_UnpackValues :: "Argument list \<Rightarrow> byte list \<Rightarrow> goval list res"
  abi_UnpackIntoMap :: "ABI \<Rightarrow> string \<Rightarrow> byte list \<Rightarrow> gvals res"
  ParseTopicsIntoMap :: "Argument list \<Rightarrow> hash list \<Rightarrow> gvals res"
  error_Unpack :: "AbiError \<Rightarrow> byte list \<Rightarrow> string res"
  MethodById :: method_by_id

definition ErrDecodeInput :: string where "ErrDecodeInput = ''failed to decode transaction input''"
definition ErrDecodeOutput :: string where "ErrDecodeOutput = ''failed to decode transaction output''"
definition ErrDecodeLog :: string where "ErrDecodeLog = ''failed to decode log''"
definition ErrDecodedLogNonIndexed :: string where "ErrDecodedLogNonIndexed = ''failed to decode non-indexed log data''"
definition ErrDecodeILogIndexed :: string where "ErrDecodeILogIndexed = ''failed to decode indexed log data''"
definition ErrNoTxData :: string where "ErrNoTxData = ''no tx data or it'' @ quote_char @ ''s less than 4 bytes''"
definition ErrRPCJSONCastError :: string where "ErrRPCJSONCastError = ''failed to cast CallMsg error as rpc.DataError''"

subsection \<open>Data\<close>

record CommonData =
  CallType :: string
  Signature :: string
  cdMethod :: string
  Input :: "gvals option"
  Output :: "gvals option"
  NestingLevel :: int
  ParentSignature :: string
  cdError :: string

definition zero_common :: CommonData where
  "zero_common = \<lparr>CallType = [], Signature = [], cdMethod = [], Input = None, Output = None,
     NestingLevel = 0, ParentSignature = [], cdError = []\<rparr>"

record DecodedCommonLog =
  logSignature :: string
  logAddr :: address
  EventData :: "gvals option"
  logTopicTexts :: "string list"

record DecodedTransactionLog = DecodedCommonLog +
  dlBlockNumber :: int
  dlIndex :: int
  dlTXHash :: string
  dlTXIndex :: int
  dlRemoved :: bool

record DecodedCall = CommonData +
  FromAddress :: string
  ToAddress :: string
  callFrom :: string
  callTo :: string
  callEvents :: "DecodedCommonLog list"
  Comment :: string
  callValue :: int
  callGasLimit :: int
  callGasUsed :: int

definition getDefaultDecodedCall :: DecodedCall where
  "getDefaultDecodedCall =
     \<lparr>CallType = UNKNOWN, Signature = UNKNOWN, cdMethod = UNKNOWN, Input = Some [], Output = Some [],
      NestingLevel = 0, ParentSignature = [], cdError = [],
      FromAddress = UNKNOWN, ToAddress = UNKNOWN, callFrom = UNKNOWN, callTo = UNKNOWN, callEvents = [],
      Comment = [], callValue = 0, callGasLimit = 0, callGasUsed = 0\<rparr>"

record Log =
  lgAddress :: address
  lgTopics :: "hash list"
  lgData :: "byte list"
  lgBlockNumber :: int
  lgTxHash :: hash
  lgTxIndex :: int
  lgIndex :: int
  lgRemoved :: bool

record Receipt =
  Status :: int
  rcBlockNumber :: int
  TransactionIndex :: int
  rcLogs :: "Log list"

record DecodedTransaction = CommonData +
  dtIndex :: int
  dtHash :: string
  dtProtected :: bool
  dtTransaction :: Transaction
  dtReceipt :: "Receipt option"
  dtEvents :: "DecodedTransactionLog list"

subsection \<open>Inputs and outputs\<close>

definition decodeTxInputs :: "abi_lib \<Rightarrow> byte list \<Rightarrow> Method \<Rightarrow> gvals option res" where
  "decodeTxInputs lib inputData method =
     (if length inputData < 4 then Inl (ErrNew ErrNoTxData)
      else
        (let payload = drop 4 inputData in
         if payload = [] \<or> mInputs method = [] then Inr None
         else case args_UnpackIntoMap lib (mInputs method) payload of Inl err \<Rightarrow> Inl err | Inr inputMap \<Rightarrow> Inr (Some inputMap)))"

fun number_values :: "int \<Rightarrow> goval list \<Rightarrow> gvals \<Rightarrow> gvals" where
  "number_values i [] outputMap = outputMap"
| "number_values i (v # vs) outputMap = number_values (i + 1) vs (gomap_put (Itoa i) v outputMap)"

definition decodeTxOutputs :: "abi_lib \<Rightarrow> byte list \<Rightarrow> Method \<Rightarrow> gvals option res" where
  "decodeTxOutputs lib payload method =
     (if payload = [] then Inr None
      else if mOutputs method \<noteq> [] \<and> argName (hd (mOutputs method)) = [] then
        (case args_UnpackValues lib (mOutputs method) payload of
           Inl err \<Rightarrow> Inl err
         | Inr vals \<Rightarrow> Inr (Some (number_values 0 vals [])))
      else
        (case args_UnpackIntoMap lib (mOutputs method) payload of
           Inl err \<Rightarrow> Inl (ErrWrap ErrDecodeOutput err)
         | Inr outputMap \<Rightarrow> Inr (Some outputMap)))"

subsection \<open>Events\<close>

text \<open>The loop over the topics after the first: topic number \<open>idx\<close> goes with input number \<open>idx\<close> if that is indexed.\<close>

fun pair_topics :: "Argument list \<Rightarrow> int \<Rightarrow> hash list \<Rightarrow> Argument list \<Rightarrow> hash list \<Rightarrow> (Argument list \<times> hash list) go" where
  "pair_topics inputs idx [] indexed indexedTopics = Ret (indexed, indexedTopics)"
| "pair_topics inputs idx (topic # topics) indexed indexedTopics =
     go_bind (go_index inputs idx) (\<lambda>arg.
     if argIndexed arg then pair_topics inputs (idx + 1) topics (indexed @ [arg]) (indexedTopics @ [topic])
     else pair_topics inputs (idx + 1) topics indexed indexedTopics)"

definition decodeEventFromLog :: "abi_lib \<Rightarrow> ABI \<Rightarrow> Event \<Rightarrow> hash list \<Rightarrow> byte list \<Rightarrow> (gvals \<times> gvals) res go" where
  "decodeEventFromLog lib a eventABISpec topics dat =
     (case (if dat = [] then Inr [] else abi_UnpackIntoMap lib a (evName eventABISpec) dat) of
        Inl err \<Rightarrow> Ret (Inl (ErrWrap ErrDecodedLogNonIndexed err))
      | Inr eventsMap \<Rightarrow>
          if length topics \<le> 1 then Ret (Inr (eventsMap, []))
          else
            go_bind (pair_topics (evInputs eventABISpec) 0 (tl topics) [] []) (\<lambda>(indexed, indexedTopics).
            Ret (case ParseTopicsIntoMap lib indexed indexedTopics of
                Inl err \<Rightarrow> Inl (ErrWrap ErrDecodeILogIndexed err)
              | Inr topicsMap \<Rightarrow> Inr (eventsMap, topicsMap))))"

definition merge_into :: "gvals \<Rightarrow> gvals \<Rightarrow> gvals" where
  "merge_into new m = fold (\<lambda>(k, v) acc. gomap_put k v acc) new m"

definition MergeEventData :: "gvals \<Rightarrow> gvals option \<Rightarrow> gvals option" where
  "MergeEventData newEventData d = Some (merge_into newEventData (case d of None \<Rightarrow> [] | Some m \<Rightarrow> m))"

definition decodedLogFromMaps :: "gvals \<Rightarrow> gvals \<Rightarrow> gvals option \<Rightarrow> gvals option" where
  "decodedLogFromMaps eventsMap topicsMap logData =
     MergeEventData (merge_into topicsMap (merge_into eventsMap [])) logData"

text \<open>
  The loop over the events of the ABI for one log, and over the logs; both copies of \<open>decodeContractLogs\<close> have this
  shape and differ in the test for the first topic and in the log they build.
\<close>

fun events_for_log ::
  "abi_lib \<Rightarrow> ABI \<Rightarrow> hash list \<Rightarrow> byte list \<Rightarrow> (Event \<Rightarrow> bool go) \<Rightarrow> (Event \<Rightarrow> gvals option \<Rightarrow> 'd) \<Rightarrow>
   (string, Event) gomap \<Rightarrow> 'd list \<Rightarrow> 'd list res go" where
  "events_for_log lib a topics dat matches build [] acc = Ret (Inr acc)"
| "events_for_log lib a topics dat matches build ((_, evSpec) # rest) acc =
     go_bind (matches evSpec) (\<lambda>same.
     if \<not> same then events_for_log lib a topics dat matches build rest acc
     else
       go_bind (decodeEventFromLog lib a evSpec topics dat) (\<lambda>r. case r of
           Inl err \<Rightarrow> Ret (Inl (ErrWrap ErrDecodeLog err))
         | Inr (eventsMap, topicsMap) \<Rightarrow>
             events_for_log lib a topics dat matches build rest
               (acc @ [build evSpec (decodedLogFromMaps eventsMap topicsMap None)])))"

definition mergeLogMeta :: "(hash \<Rightarrow> string) \<Rightarrow> Log \<Rightarrow> Event \<Rightarrow> gvals option \<Rightarrow> DecodedTransactionLog" where
  "mergeLogMeta hashHex lo evSpec d =
     \<lparr>logSignature = evSig evSpec, logAddr = lgAddress lo, EventData = d,
      logTopicTexts = map hashHex (lgTopics lo), dlBlockNumber = lgBlockNumber lo, dlIndex = lgIndex lo,
      dlTXHash = hashHex (lgTxHash lo), dlTXIndex = lgTxIndex lo, dlRemoved = lgRemoved lo\<rparr>"

fun Client_decodeContractLogs :: "abi_lib \<Rightarrow> (hash \<Rightarrow> string) \<Rightarrow> ABI \<Rightarrow> Log list \<Rightarrow> DecodedTransactionLog list \<Rightarrow> DecodedTransactionLog list res go" where
  "Client_decodeContractLogs lib hashHex a [] acc = Ret (Inr acc)"
| "Client_decodeContractLogs lib hashHex a (lo # logs) acc =
     go_bind (events_for_log lib a (lgTopics lo) (lgData lo)
         (\<lambda>evSpec. go_bind (go_index (lgTopics lo) 0) (\<lambda>t. Ret (hashHex (evID evSpec) = hashHex t)))
         (mergeLogMeta hashHex lo) (Events a) acc)
       (\<lambda>r. case r of
           Inl err \<Rightarrow> Ret (Inl err)
         | Inr acc' \<Rightarrow> Client_decodeContractLogs lib hashHex a logs acc')"

subsection \<open>Transactions\<close>

definition defaultTxn :: "(hash \<Rightarrow> string) \<Rightarrow> (Transaction \<Rightarrow> bool) \<Rightarrow> Transaction \<Rightarrow> Receipt option \<Rightarrow> DecodedTransaction" where
  "defaultTxn hashHex Protected tx receipt =
     CommonData.extend zero_common
       (DecodedTransaction.fields 0 (hashHex (txHash tx)) (Protected tx) tx receipt [])"

definition decodeTransaction ::
  "abi_lib \<Rightarrow> (hash \<Rightarrow> string) \<Rightarrow> (address \<Rightarrow> string) \<Rightarrow> (Transaction \<Rightarrow> bool) \<Rightarrow> ContractStore option \<Rightarrow> bool \<Rightarrow> ContractMap \<Rightarrow>
   Transaction \<Rightarrow> Receipt option \<Rightarrow> (ContractMap \<times> DecodedTransaction \<times> goerr option) go" where
  "decodeTransaction lib hashHex addrString Protected store hasFinder cm tx receipt =
     (let dflt = defaultTxn hashHex Protected tx receipt; dat = txData tx in
      if length dat < 4 then Ret (cm, dflt, None)
      else case store of
        None \<Rightarrow> Ret (cm, dflt, None)
      | Some cs \<Rightarrow>
          if \<not> hasFinder then Ret (cm, dflt, None)
          else
            (let addr = (case txTo tx of None \<Rightarrow> UNKNOWN | Some a \<Rightarrow> addrString a) in
             case FindABIByMethod (MethodById lib) (ABIs cs) cm addr (take 4 dat) of
               (cm', Inl err) \<Rightarrow> Ret (cm', dflt, Some err)
             | (cm', Inr abiResult) \<Rightarrow>
                 (case decodeTxInputs lib dat (resMethod abiResult) of
                    Inl err \<Rightarrow> Ret (cm', dflt, Some (ErrWrap ErrDecodeInput err))
                  | Inr txInput \<Rightarrow>
                      go_bind (case receipt of
                          None \<Rightarrow> Ret (Inr ([], 0))
                        | Some rc \<Rightarrow>
                            go_bind (Client_decodeContractLogs lib hashHex (resABI abiResult) (rcLogs rc) []) (\<lambda>r.
                            Ret (case r of Inl err \<Rightarrow> Inl err | Inr evs \<Rightarrow> Inr (evs, TransactionIndex rc))))
                        (\<lambda>r. Ret (case r of
                            Inl err \<Rightarrow> (cm', dflt, Some err)
                          | Inr (txEvents, txIndex) \<Rightarrow>
                              (cm', dflt\<lparr>Signature := hex_EncodeToString (mID (resMethod abiResult)),
                                         cdMethod := mSig (resMethod abiResult), Input := txInput,
                                         dtIndex := txIndex, dtEvents := txEvents\<rparr>, None))))))"

subsection \<open>Revert reasons\<close>

text \<open>
  The two loops of \<open>DecodeCustomABIErr\<close>: a decision for one ABI error, then over all of them in order. The first round asserts that the
  data are a string.
\<close>

fun custom_error_loop :: "abi_lib \<Rightarrow> string \<Rightarrow> (string \<times> AbiError) list \<Rightarrow> string res go" where
  "custom_error_loop lib errorData [] = Ret (Inr [])"
| "custom_error_loop lib errorData ((k, abiError) # rest) =
     go_bind (go_slice errorData 2 (int (length errorData))) (\<lambda>hexData.
     case hex_DecodeString hexData of
       Inl err \<Rightarrow> Ret (Inl err)
     | Inr dat \<Rightarrow>
         if length dat < 4 then Ret (Inr [])
         else if take 4 dat = take 4 (aeID abiError) then
           Ret (case error_Unpack lib abiError dat of
               Inl err \<Rightarrow> Inl err
             | Inr v \<Rightarrow> Inr (''error type: '' @ k @ '', error values: '' @ v))
         else custom_error_loop lib errorData rest)"

definition DecodeCustomABIErr :: "abi_lib \<Rightarrow> ContractStore option \<Rightarrow> goerr option \<Rightarrow> string res go" where
  "DecodeCustomABIErr lib store txErr =
     (case txErr of
        Some (ErrData m errorData) \<Rightarrow>
          (case store of
             None \<Rightarrow> Ret (Inr [])
           | Some cs \<Rightarrow>
               (let declared = concat (map (\<lambda>(n, a). Errors a) (ABIs cs)) in
                case errorData of
                  NoData \<Rightarrow> Ret (Inr [])
                | StringData d \<Rightarrow> custom_error_loop lib d declared
                | OtherData \<Rightarrow> if declared = [] then Ret (Inr []) else Panic ''interface conversion''))
      | _ \<Rightarrow> Ret (Inl (ErrNew ErrRPCJSONCastError)))"

record CallMsg =
  msgFrom :: address
  msgTo :: "address option"
  msgGas :: int
  msgGasPrice :: "int option"
  msgGasFeeCap :: "int option"
  msgGasTipCap :: "int option"
  msgValue :: int
  msgData :: "byte list"

definition CallMsgFromTx :: "(Transaction \<Rightarrow> address res) \<Rightarrow> Transaction \<Rightarrow> CallMsg res" where
  "CallMsgFromTx SenderOf tx =
     (case SenderOf tx of
        Inl err \<Rightarrow> Inl err
      | Inr sender \<Rightarrow>
          (let msg = \<lparr>msgFrom = sender, msgTo = txTo tx, msgGas = txGas tx, msgGasPrice = None, msgGasFeeCap = None,
                      msgGasTipCap = None, msgValue = txValue tx, msgData = txData tx\<rparr> in
           if txType tx = LegacyTxType then Inr (msg\<lparr>msgGasPrice := Some (txGasPrice tx)\<rparr>)
           else Inr (msg\<lparr>msgGasFeeCap := Some (txGasFeeCap tx), msgGasTipCap := Some (txGasTipCap tx)\<rparr>)))"

definition DownloadContractAndGetPragma :: "(address \<Rightarrow> int \<Rightarrow> byte list res) \<Rightarrow> address \<Rightarrow> int \<Rightarrow> Pragma res go" where
  "DownloadContractAndGetPragma CodeAt addr block =
     (case CodeAt addr block of
        Inl err \<Rightarrow> Ret (Inl (ErrWrap ''failed to get contract code'' err))
      | Inr bytecode \<Rightarrow> DecodePragmaVersion (hex_EncodeToString bytecode))"

definition callAndGetRevertReason ::
  "abi_lib \<Rightarrow> (Transaction \<Rightarrow> address res) \<Rightarrow> (CallMsg \<Rightarrow> int \<Rightarrow> goerr option) \<Rightarrow> (address \<Rightarrow> int \<Rightarrow> byte list res) \<Rightarrow>
   ContractStore option \<Rightarrow> Transaction \<Rightarrow> Receipt \<Rightarrow> goerr option go" where
  "callAndGetRevertReason lib SenderOf CallContract CodeAt store tx rc =
     (case CallMsgFromTx SenderOf tx of
        Inl err \<Rightarrow> Ret None
      | Inr msg \<Rightarrow>
          (let plainStringErr = CallContract msg (rcBlockNumber rc) in
           go_bind (DecodeCustomABIErr lib store plainStringErr) (\<lambda>r. case r of
               Inl err \<Rightarrow> Ret (Some err)
             | Inr decodedABIErrString \<Rightarrow>
                 if decodedABIErrString \<noteq> [] then Ret (Some (ErrNew decodedABIErrString))
                 else case plainStringErr of
                   None \<Rightarrow> Ret None
                 | Some e \<Rightarrow>
                     if errorText e = ''execution reverted'' \<and> txTo tx \<noteq> None
                     then go_bind (DownloadContractAndGetPragma CodeAt (the (txTo tx)) (rcBlockNumber rc)) (\<lambda>_. Ret (Some e))
                     else Ret (Some e))))"

subsection \<open>Which indexed fields are decoded\<close>

lemma pair_topics_value:
  assumes "0 \<le> idx" and "nat idx + length topics \<le> length inputs"
  shows "pair_topics inputs idx topics as ts =
    Ret (as @ map fst (filter (argIndexed \<circ> fst) (zip (drop (nat idx) inputs) topics)),
         ts @ map snd (filter (argIndexed \<circ> fst) (zip (drop (nat idx) inputs) topics)))"
  using assms
proof (induction topics arbitrary: idx as ts)
  case Nil
  then show ?case by simp
next
  case (Cons t topics)
  have i: "nat idx < length inputs" using Cons.prems by simp
  have "go_index inputs idx = Ret (inputs ! nat idx)" using Cons.prems i by (simp add: go_index_def nat_less_iff)
  moreover have "drop (nat idx) inputs = inputs ! nat idx # drop (nat (idx + 1)) inputs"
    using i Cons.prems(1) by (simp add: nat_add_distrib Cons_nth_drop_Suc)
  moreover have "nat (idx + 1) + length topics \<le> length inputs" using Cons.prems by (simp add: nat_add_distrib)
  ultimately show ?case using Cons.IH [of "idx + 1"] Cons.prems(1) by simp
qed

lemma filter_all_prefix:
  assumes "\<forall>x \<in> set (take k xs). P x" and "length (filter P xs) = k" and "k \<le> length xs"
  shows "filter P xs = take k xs"
proof -
  have "filter P (take k xs) = take k xs" using assms(1) by (simp add: filter_id_conv)
  moreover have f: "filter P xs = filter P (take k xs) @ filter P (drop k xs)"
    by (metis append_take_drop_id filter_append)
  ultimately have "filter P (drop k xs) = []" using assms(2,3) by simp
  with f show ?thesis using \<open>filter P (take k xs) = take k xs\<close> by simp
qed

lemma filter_pairs_complete:
  assumes "length (filter P (zip xs ts)) = length ts" and "length ts \<le> length xs"
  shows "\<forall>i < length ts. P (xs ! i, ts ! i)"
proof -
  have "length (filter P (zip xs ts)) = length (zip xs ts)" using assms by simp
  then have "\<forall>x \<in> set (zip xs ts). P x" using length_filter_less by (metis less_irrefl)
  then show ?thesis using assms(2) by (auto simp: set_zip)
qed

text \<open>
  C36. A log has one topic per indexed field after the first topic. The code pairs topic \<open>i\<close> with input \<open>i\<close>, so it hands
  all indexed fields with their topics to the decoder exactly when the indexed fields come first in the event; otherwise
  some are silently dropped (it never panics on such a log).
\<close>

theorem indexed_fields_decoded_iff:
  assumes topics: "length topics = length (filter argIndexed inputs)"
  shows "\<exists>indexed indexedTopics. pair_topics inputs 0 topics [] [] = Ret (indexed, indexedTopics) \<and>
    length indexed = length indexedTopics \<and>
    (indexed = filter argIndexed inputs \<and> indexedTopics = topics \<longleftrightarrow>
       (\<forall>i < length topics. argIndexed (inputs ! i)))"
proof -
  let ?ps = "filter (argIndexed \<circ> fst) (zip inputs topics)"
  have len: "length topics \<le> length inputs" unfolding topics by (rule length_filter_le)
  have run: "pair_topics inputs 0 topics [] [] = Ret (map fst ?ps, map snd ?ps)"
    using pair_topics_value [of 0 topics inputs "[]" "[]"] len by simp
  have "map fst ?ps = filter argIndexed inputs \<and> map snd ?ps = topics \<longleftrightarrow> (\<forall>i < length topics. argIndexed (inputs ! i))"
  proof
    assume "map fst ?ps = filter argIndexed inputs \<and> map snd ?ps = topics"
    then have "length ?ps = length topics" by (metis length_map)
    from filter_pairs_complete [OF this len] show "\<forall>i < length topics. argIndexed (inputs ! i)" by simp
  next
    assume all: "\<forall>i < length topics. argIndexed (inputs ! i)"
    then have "\<forall>p \<in> set (zip inputs topics). (argIndexed \<circ> fst) p" by (auto simp: set_zip)
    then have ps: "?ps = zip inputs topics" by (simp add: filter_id_conv)
    have "\<forall>x \<in> set (take (length topics) inputs). argIndexed x" using all len by (auto simp: in_set_conv_nth)
    then have "filter argIndexed inputs = take (length topics) inputs"
      by (rule filter_all_prefix) (use topics len in simp_all)
    moreover have "map fst (zip inputs topics) = take (length topics) inputs"
      using len by (simp add: map_fst_zip_take)
    moreover have "map snd (zip inputs topics) = topics" using len by (simp add: map_snd_zip_take)
    ultimately show "map fst ?ps = filter argIndexed inputs \<and> map snd ?ps = topics" unfolding ps by simp
  qed
  with run show ?thesis by simp
qed

theorem indexed_fields_decoded_iff_witness:
  "pair_topics [\<lparr>argName = ''a'', argIndexed = False\<rparr>, \<lparr>argName = ''b'', argIndexed = True\<rparr>] 0 [[1]] [] [] = Ret ([], []) \<and>
   (\<exists>indexed ts. pair_topics [\<lparr>argName = ''a'', argIndexed = False\<rparr>, \<lparr>argName = ''b'', argIndexed = True\<rparr>] 0 [[1]] [] [] = Ret (indexed, ts) \<and>
      length indexed = length ts)"
  using indexed_fields_decoded_iff
    [of "[[1]]" "[\<lparr>argName = ''a'', argIndexed = False\<rparr>, \<lparr>argName = ''b'', argIndexed = True\<rparr>]"]
  by (simp add: go_index_def)

subsection \<open>A revert is always reported\<close>

text \<open>The errors that the stored ABIs declare, and the declared error that error data name by its first four bytes.\<close>

definition declared_errors :: "ContractStore option \<Rightarrow> (string \<times> AbiError) list" where
  "declared_errors store = (case store of None \<Rightarrow> [] | Some cs \<Rightarrow> concat (map (\<lambda>(n, a). Errors a) (ABIs cs)))"

definition named_error :: "(string \<times> AbiError) list \<Rightarrow> byte list \<Rightarrow> (string \<times> AbiError) option" where
  "named_error declared dat = (if length dat < 4 then None else find (\<lambda>(k, e). take 4 (aeID e) = take 4 dat) declared)"

lemma custom_error_loop_find:
  assumes "2 \<le> length d" and dat: "hex_DecodeString (drop 2 d) = Inr dat"
  shows "custom_error_loop lib d declared =
    Ret (case named_error declared dat of
        None \<Rightarrow> Inr []
      | Some (k, e) \<Rightarrow> (case error_Unpack lib e dat of Inl err \<Rightarrow> Inl err | Inr v \<Rightarrow> Inr (''error type: '' @ k @ '', error values: '' @ v)))"
proof (induction declared)
  case (Cons x declared)
  obtain k e where x: "x = (k, e)" by (cases x)
  have "go_slice d 2 (int (length d)) = Ret (drop 2 d)" using assms(1) by (simp add: go_slice_def)
  with dat Cons show ?case by (auto simp: x named_error_def)
qed (simp add: named_error_def)

text \<open>What is read from error data: nothing, an error to report, or a panic.\<close>

datatype custom_error = Unnamed | Reported goerr | Crash

definition read_custom_error :: "abi_lib \<Rightarrow> (string \<times> AbiError) list \<Rightarrow> err_data \<Rightarrow> custom_error" where
  "read_custom_error lib declared errorData =
     (if declared = [] \<or> errorData = NoData then Unnamed
      else case errorData of
        StringData d \<Rightarrow>
          (if length d < 2 then Crash
           else case hex_DecodeString (drop 2 d) of
             Inl err \<Rightarrow> Reported err
           | Inr dat \<Rightarrow>
               (case named_error declared dat of
                  None \<Rightarrow> Unnamed
                | Some (k, e) \<Rightarrow> Reported (case error_Unpack lib e dat of
                      Inl err \<Rightarrow> err | Inr v \<Rightarrow> ErrNew (''error type: '' @ k @ '', error values: '' @ v))))
      | _ \<Rightarrow> Crash)"

lemma DecodeCustomABIErr_reads:
  "case read_custom_error lib (declared_errors store) errorData of
     Unnamed \<Rightarrow> DecodeCustomABIErr lib store (Some (ErrData m errorData)) = Ret (Inr [])
   | Reported err \<Rightarrow> DecodeCustomABIErr lib store (Some (ErrData m errorData)) = Ret (Inl err) \<or>
       (\<exists>t. t \<noteq> [] \<and> err = ErrNew t \<and> DecodeCustomABIErr lib store (Some (ErrData m errorData)) = Ret (Inr t))
   | Crash \<Rightarrow> \<exists>msg. DecodeCustomABIErr lib store (Some (ErrData m errorData)) = Panic msg"
proof (cases "declared_errors store = [] \<or> errorData = NoData")
  case True
  then have "DecodeCustomABIErr lib store (Some (ErrData m errorData)) = Ret (Inr [])"
    by (cases store; cases errorData) (auto simp: DecodeCustomABIErr_def declared_errors_def Let_def simp del: concat_eq_Nil_conv)
  then show ?thesis using True by (simp add: read_custom_error_def)
next
  case False
  then obtain cs where store: "store = Some cs" by (cases store) (simp_all add: declared_errors_def)
  show ?thesis
  proof (cases errorData)
    case NoData
    then show ?thesis using False by simp
  next
    case OtherData
    then show ?thesis using False store by (simp add: read_custom_error_def DecodeCustomABIErr_def declared_errors_def Let_def)
  next
    case (StringData d)
    have loop: "DecodeCustomABIErr lib store (Some (ErrData m errorData)) = custom_error_loop lib d (declared_errors store)"
      by (simp add: store StringData DecodeCustomABIErr_def declared_errors_def Let_def)
    obtain k e rest where ne: "declared_errors store = (k, e) # rest" using False by (cases "declared_errors store") auto
    show ?thesis
    proof (cases "length d < 2 \<or> (\<exists>err. hex_DecodeString (drop 2 d) = Inl err)")
      case True
      then show ?thesis using False unfolding loop by (auto simp: StringData ne read_custom_error_def go_slice_def)
    next
      case ok: False
      then obtain dat where dat: "hex_DecodeString (drop 2 d) = Inr dat" by (cases "hex_DecodeString (drop 2 d)") auto
      have "2 \<le> length d" using ok by simp
      from custom_error_loop_find [OF this dat, of lib "declared_errors store"] show ?thesis
        using False ok dat unfolding loop by (auto simp: StringData read_custom_error_def split: option.splits sum.splits)
    qed
  qed
qed

lemma revert_reason_data:
  assumes msg: "CallMsgFromTx SenderOf tx = Inr msg" and answer: "CallContract msg (rcBlockNumber rc) = Some (ErrData m errorData)"
  shows "case read_custom_error lib (declared_errors store) errorData of
     Unnamed \<Rightarrow> callAndGetRevertReason lib SenderOf CallContract CodeAt store tx rc =
       go_bind (if m = ''execution reverted'' \<and> txTo tx \<noteq> None
                then go_bind (DownloadContractAndGetPragma CodeAt (the (txTo tx)) (rcBlockNumber rc)) (\<lambda>_. Ret ()) else Ret ())
         (\<lambda>_. Ret (Some (ErrData m errorData)))
   | Reported err \<Rightarrow> callAndGetRevertReason lib SenderOf CallContract CodeAt store tx rc = Ret (Some err)
   | Crash \<Rightarrow> \<exists>p. callAndGetRevertReason lib SenderOf CallContract CodeAt store tx rc = Panic p"
  using DecodeCustomABIErr_reads [where lib = lib and store = store and errorData = errorData and m = m]
  by (cases "read_custom_error lib (declared_errors store) errorData")
    (auto simp: callAndGetRevertReason_def msg answer go_bind_assoc Let_def)

lemma download_no_hang: "DownloadContractAndGetPragma CodeAt a b \<noteq> Hangs"
  by (auto simp: DownloadContractAndGetPragma_def DecodePragmaVersion_def decode_metadata_def decode_version_def go_slice_def
      go_bind_Hangs_iff Let_def split: sum.splits if_splits)

lemma CallMsgFromTx_fields:
  assumes "SenderOf tx = Inr sender"
  obtains msg where "CallMsgFromTx SenderOf tx = Inr msg" "msgFrom msg = sender" "msgTo msg = txTo tx" "msgGas msg = txGas tx"
    "msgValue msg = txValue tx" "msgData msg = txData tx"
  using assms by (cases "txType tx = LegacyTxType") (simp_all add: CallMsgFromTx_def Let_def)

lemma revert_reason_sender:
  assumes msg: "CallMsgFromTx SenderOf tx = Inr msg" and run: "run = callAndGetRevertReason lib SenderOf CallContract CodeAt store tx rc"
  shows "run \<noteq> Ret None \<and>
        (case CallContract msg (rcBlockNumber rc) of
           Some (ErrData m errorData) \<Rightarrow>
             (case read_custom_error lib (declared_errors store) errorData of
                Reported err \<Rightarrow> run = Ret (Some err)
              | Crash \<Rightarrow> \<exists>p. run = Panic p
              | Unnamed \<Rightarrow>
                  (if \<exists>a p. m = ''execution reverted'' \<and> txTo tx = Some a \<and> DownloadContractAndGetPragma CodeAt a (rcBlockNumber rc) = Panic p
                   then \<exists>p. run = Panic p else run = Ret (Some (ErrData m errorData))))
         | _ \<Rightarrow> run = Ret (Some (ErrNew ErrRPCJSONCastError)))"
proof -
  let ?answer = "CallContract msg (rcBlockNumber rc)"
  consider (data) m d where "?answer = Some (ErrData m d)"
    | (none) "\<forall>m d. ?answer \<noteq> Some (ErrData m d)" by blast
  then show ?thesis
  proof cases
    case (data m d)
    from revert_reason_data [where lib = lib and store = store and CodeAt = CodeAt and CallContract = CallContract and rc = rc, OF msg data]
      data download_no_hang [of CodeAt] show ?thesis
      unfolding run
      by (cases "read_custom_error lib (declared_errors store) d"; cases "txTo tx";
          cases "DownloadContractAndGetPragma CodeAt (the (txTo tx)) (rcBlockNumber rc)") auto
  next
    case none
    then have cast: "DecodeCustomABIErr lib store ?answer = Ret (Inl (ErrNew ErrRPCJSONCastError))"
      by (auto simp: DecodeCustomABIErr_def split: option.splits goerr.splits)
    then have "run = Ret (Some (ErrNew ErrRPCJSONCastError))" by (simp add: run callAndGetRevertReason_def msg Let_def)
    then show ?thesis using none by (auto split: option.splits goerr.splits)
  qed
qed

lemma revert_reported:
  assumes "SenderOf tx = Inr sender"
  shows "callAndGetRevertReason lib SenderOf CallContract CodeAt store tx rc \<noteq> Ret None"
proof (rule CallMsgFromTx_fields [where SenderOf = SenderOf and tx = tx, OF assms])
  fix msg assume "CallMsgFromTx SenderOf tx = Inr msg"
  from revert_reason_sender [OF this refl, of lib CallContract CodeAt store rc]
  show "callAndGetRevertReason lib SenderOf CallContract CodeAt store tx rc \<noteq> Ret None" by blast
qed

text \<open>
  C35. What \<open>callAndGetRevertReason\<close> reports, in every case. If the sender cannot be recovered, nothing. Otherwise the
  transaction is called again with its sender, recipient, gas, value and data, and the report depends on the node's answer. No error, or one
  without the data interface: the message about the failed cast. Error data that name a declared error by
  its selector: the type and values of that error, or the library's complaint about the values; data that are not hex: that
  complaint, if the store declares any error. Data that name none, or no data: the node's own error, after a look at the compiler version of the
  recipient when its text is the bare one. It panics, reporting nothing, when a store with declared errors meets data that are
  not a string or too short for a prefix, and when that look at the compiler version panics. So with a
  known sender the final return of nil is never reached.
\<close>

theorem revert_reason_exact:
  assumes run: "run = callAndGetRevertReason lib SenderOf CallContract CodeAt store tx rc"
  shows "(\<forall>err. SenderOf tx = Inl err \<longrightarrow> run = Ret None) \<and>
    (\<forall>sender. SenderOf tx = Inr sender \<longrightarrow> run \<noteq> Ret None \<and>
      (\<exists>msg. msgFrom msg = sender \<and> msgTo msg = txTo tx \<and> msgGas msg = txGas tx \<and> msgValue msg = txValue tx \<and> msgData msg = txData tx \<and>
        (case CallContract msg (rcBlockNumber rc) of
           Some (ErrData m errorData) \<Rightarrow>
             (case read_custom_error lib (declared_errors store) errorData of
                Reported err \<Rightarrow> run = Ret (Some err)
              | Crash \<Rightarrow> \<exists>p. run = Panic p
              | Unnamed \<Rightarrow>
                  (if \<exists>a p. m = ''execution reverted'' \<and> txTo tx = Some a \<and> DownloadContractAndGetPragma CodeAt a (rcBlockNumber rc) = Panic p
                   then \<exists>p. run = Panic p else run = Ret (Some (ErrData m errorData))))
         | _ \<Rightarrow> run = Ret (Some (ErrNew ErrRPCJSONCastError)))))"
proof (intro conjI allI impI)
  fix err assume "SenderOf tx = Inl err"
  then show "run = Ret None" by (simp add: run callAndGetRevertReason_def CallMsgFromTx_def)
next
  fix sender assume sender: "SenderOf tx = Inr sender"
  show "run \<noteq> Ret None" unfolding run by (rule revert_reported [where SenderOf = SenderOf and tx = tx, OF sender])
  obtain msg where msg: "CallMsgFromTx SenderOf tx = Inr msg" and "msgFrom msg = sender" "msgTo msg = txTo tx" "msgGas msg = txGas tx"
    "msgValue msg = txValue tx" "msgData msg = txData tx"
    by (rule CallMsgFromTx_fields [where SenderOf = SenderOf and tx = tx, OF sender])
  with revert_reason_sender [OF msg run]
  show "\<exists>msg. msgFrom msg = sender \<and> msgTo msg = txTo tx \<and> msgGas msg = txGas tx \<and> msgValue msg = txValue tx \<and> msgData msg = txData tx \<and>
        (case CallContract msg (rcBlockNumber rc) of
           Some (ErrData m errorData) \<Rightarrow>
             (case read_custom_error lib (declared_errors store) errorData of
                Reported err \<Rightarrow> run = Ret (Some err)
              | Crash \<Rightarrow> \<exists>p. run = Panic p
              | Unnamed \<Rightarrow>
                  (if \<exists>a p. m = ''execution reverted'' \<and> txTo tx = Some a \<and> DownloadContractAndGetPragma CodeAt a (rcBlockNumber rc) = Panic p
                   then \<exists>p. run = Panic p else run = Ret (Some (ErrData m errorData))))
         | _ \<Rightarrow> run = Ret (Some (ErrNew ErrRPCJSONCastError)))"
    by blast
qed

definition ex_abi_lib :: abi_lib where
  "ex_abi_lib = \<lparr>args_UnpackIntoMap = (\<lambda>a d. Inr []), args_UnpackValues = (\<lambda>a d. Inr []), abi_UnpackIntoMap = (\<lambda>a n d. Inr []),
     ParseTopicsIntoMap = (\<lambda>a h. Inr []), error_Unpack = (\<lambda>e d. Inr []), MethodById = (\<lambda>a s. Inl ErrNotFound)\<rparr>"

definition ex_receipt :: Receipt where
  "ex_receipt = \<lparr>Status = 0, rcBlockNumber = 5, TransactionIndex = 0, rcLogs = []\<rparr>"

text \<open>A contract with one custom error, and a node whose answer names it.\<close>

definition ex_error_store :: ContractStore where
  "ex_error_store = \<lparr>ABIs = [(''X.abi'', \<lparr>Events = [], Errors = [(''Broke'', \<lparr>aeID = [1, 2, 3, 4, 5]\<rparr>)]\<rparr>)], BINs = []\<rparr>"

theorem revert_reason_exact_witness:
  "callAndGetRevertReason ex_abi_lib (\<lambda>tx. Inr [7]) (\<lambda>m b. Some (ErrData ''reverted'' (StringData ''0x01020304'')))
       (\<lambda>a b. Inr []) (Some ex_error_store) ex_tx ex_receipt = Ret (Some (ErrNew ''error type: Broke, error values: ''))"
proof -
  have "read_custom_error ex_abi_lib (declared_errors (Some ex_error_store)) (StringData ''0x01020304'') =
      Reported (ErrNew ''error type: Broke, error values: '')" by code_simp
  then show ?thesis
    using revert_reason_exact [OF refl, of "\<lambda>tx. Inr [7]" ex_tx ex_abi_lib "\<lambda>m b. Some (ErrData ''reverted'' (StringData ''0x01020304''))"
        "\<lambda>a b. Inr []" "Some ex_error_store" ex_receipt] by auto
qed

end
