(* ===== verification/Dot_Graph.thy ===== *)
theory Dot_Graph
  imports Decode
begin

text \<open>
  The call graph of \<^verbatim>\<open>src/dot_graph.go\<close>: the breadth-first search for the shortest path to the failed call, the labels, and the
  sequence of operations on the graph library that draws the nodes and edges. The library's answers, the hash of a call, the printing
  of decoded values and the file system are the fields of \<open>dot_env\<close>. The theorems: the path found is a shortest chain of calls and one
  is found whenever there is one, every distinct call gets one node with consecutive numbers, and when drawing panics.
\<close>

subsection \<open>The shortest path\<close>

text \<open>
  The loop over the queue. A call is marked when it leaves the queue, so the same signature can be queued several times; \<open>visited\<close> holds
  the marked signatures.
\<close>

definition queue_children :: "DecodedCall list \<Rightarrow> string list \<Rightarrow> string \<Rightarrow> string list \<Rightarrow> (DecodedCall \<times> string list) list" where
  "queue_children calls visited sig path =
     map (\<lambda>call. (call, path @ [Signature call]))
       (filter (\<lambda>call. ParentSignature call = sig \<and> Signature call \<notin> set visited) calls)"

function path_loop :: "DecodedCall list \<Rightarrow> string \<Rightarrow> string list \<Rightarrow> (DecodedCall \<times> string list) list \<Rightarrow> string list option" where
  "path_loop calls target visited [] = None"
| "path_loop calls target visited ((currentCall, currentPath) # queue) =
     (if Signature currentCall = target then Some currentPath
      else path_loop calls target (Signature currentCall # visited)
             (queue @ queue_children calls (Signature currentCall # visited) (Signature currentCall) currentPath))"
  by pat_completeness auto

text \<open>
  The loop ends: a call with an unmarked signature shrinks the set of unmarked signatures, and one with a marked signature is replaced by
  calls with unmarked ones.
\<close>

definition unmarked :: "DecodedCall list \<Rightarrow> string list \<Rightarrow> (DecodedCall \<times> string list) list \<Rightarrow> string set" where
  "unmarked calls visited queue = (Signature ` set calls \<union> (Signature \<circ> fst) ` set queue) - set visited"

definition marked_in :: "string list \<Rightarrow> (DecodedCall \<times> string list) list \<Rightarrow> nat" where
  "marked_in visited queue = length (filter (\<lambda>n. Signature (fst n) \<in> set visited) queue)"

lemma set_queue_children:
  "set (queue_children calls visited sig path) =
     (\<lambda>call. (call, path @ [Signature call])) ` {call \<in> set calls. ParentSignature call = sig \<and> Signature call \<notin> set visited}"
  by (simp add: queue_children_def)

lemma children_unmarked: "marked_in visited (queue_children calls visited sig path) = 0"
  by (auto simp: marked_in_def set_queue_children filter_empty_conv)

lemma unmarked_step:
  "unmarked calls (s # visited) (queue @ queue_children calls (s # visited) s path) \<subseteq> unmarked calls visited ((c, path) # queue) - {s}"
  by (auto simp: unmarked_def set_queue_children)

termination path_loop
proof (relation "measures [\<lambda>(calls, target, visited, queue). card (unmarked calls visited queue),
    \<lambda>(calls, target, visited, queue). marked_in visited queue]", goal_cases)
  case 1
  then show ?case by simp
next
  case (2 calls target visited c path queue)
  let ?s = "Signature c" and ?U = "unmarked calls visited ((c, path) # queue)"
  let ?queue = "queue @ queue_children calls (?s # visited) ?s path"
  let ?U' = "unmarked calls (?s # visited) ?queue"
  have fin: "finite ?U" by (simp add: unmarked_def)
  have sub: "?U' \<subseteq> ?U - {?s}" by (rule unmarked_step)
  show ?case
  proof (cases "?s \<in> set visited")
    case False
    then have "?s \<in> ?U" by (simp add: unmarked_def)
    then have "?U' \<subset> ?U" using sub by blast
    then have "card ?U' < card ?U" using fin by (simp add: psubset_card_mono)
    then show ?thesis by simp
  next
    case True
    have "card ?U' \<le> card ?U" using sub fin by (intro card_mono) auto
    moreover have "marked_in (?s # visited) ?queue = marked_in (?s # visited) queue"
      using children_unmarked [of "?s # visited"] by (simp add: marked_in_def)
    moreover have "set (?s # visited) = set visited" using True by auto
    then have "marked_in (?s # visited) queue = marked_in visited queue" by (simp only: marked_in_def)
    moreover have "marked_in visited ((c, path) # queue) = Suc (marked_in visited queue)" using True by (simp add: marked_in_def)
    ultimately show ?thesis by auto
  qed
qed

definition end_call :: "DecodedCall list \<Rightarrow> DecodedCall" where
  "end_call calls = (case find (\<lambda>call. cdError call \<noteq> []) (rev calls) of Some call \<Rightarrow> call | None \<Rightarrow> last calls)"

definition findShortestPath :: "DecodedCall list \<Rightarrow> string list option" where
  "findShortestPath calls =
     (case find (\<lambda>call. ParentSignature call = []) calls of
        None \<Rightarrow> None
      | Some rootCall \<Rightarrow> path_loop calls (Signature (end_call calls)) [] [(rootCall, [Signature rootCall])])"

subsection \<open>The search is correct\<close>

text \<open>A chain of signatures, each the parent of the next in some call.\<close>

definition call_edge :: "DecodedCall list \<Rightarrow> string \<Rightarrow> string \<Rightarrow> bool" where
  "call_edge calls s t \<longleftrightarrow> (\<exists>call \<in> set calls. ParentSignature call = s \<and> Signature call = t)"

fun chain :: "DecodedCall list \<Rightarrow> string list \<Rightarrow> bool" where
  "chain calls [] = False"
| "chain calls [s] = True"
| "chain calls (s # t # p) = (call_edge calls s t \<and> chain calls (t # p))"

definition chain_between :: "DecodedCall list \<Rightarrow> string \<Rightarrow> string \<Rightarrow> string list \<Rightarrow> bool" where
  "chain_between calls s t p \<longleftrightarrow> chain calls p \<and> hd p = s \<and> last p = t"

lemma chain_snoc: "chain calls p \<Longrightarrow> call_edge calls (last p) t \<Longrightarrow> chain calls (p @ [t])"
  by (induction calls p rule: chain.induct) auto

lemma chain_between_snoc:
  "chain_between calls s t p \<Longrightarrow> call_edge calls t u \<Longrightarrow> chain_between calls s u (p @ [u])"
  using chain_snoc [of calls p u] by (cases p) (auto simp: chain_between_def)

lemma chain_edge: "chain calls p \<Longrightarrow> Suc i < length p \<Longrightarrow> call_edge calls (p ! i) (p ! Suc i)"
proof (induction calls p arbitrary: i rule: chain.induct)
  case (3 calls s t p)
  then show ?case by (cases i) auto
qed auto

text \<open>
  The invariant: queued paths are chains to their calls in order of length; the marked signatures have levels no larger than any queued
  path; an edge out of a marked signature leads to a marked one at most one level further, or to a queued call whose path is at most one
  longer; the root is marked at level 1 or queued.
\<close>

definition search_inv :: "DecodedCall list \<Rightarrow> string \<Rightarrow> string list \<Rightarrow> (DecodedCall \<times> string list) list \<Rightarrow> (string \<Rightarrow> nat) \<Rightarrow> bool" where
  "search_inv calls rootCall visited queue level \<longleftrightarrow>
     (\<forall>(call, path) \<in> set queue. chain_between calls rootCall (Signature call) path) \<and>
     sorted (map (length \<circ> snd) queue) \<and>
     (\<forall>n \<in> set queue. length (snd n) \<le> Suc (length (snd (hd queue)))) \<and>
     (\<forall>v \<in> set visited. \<forall>n \<in> set queue. level v \<le> length (snd n)) \<and>
     (\<forall>v \<in> set visited. \<forall>t. call_edge calls v t \<longrightarrow>
        t \<in> set visited \<and> level t \<le> Suc (level v) \<or>
        (\<exists>(call, path) \<in> set queue. Signature call = t \<and> length path \<le> Suc (level v))) \<and>
     (rootCall \<in> set visited \<and> level rootCall \<le> 1 \<or> (\<exists>(call, path) \<in> set queue. Signature call = rootCall \<and> length path \<le> 1))"

lemma search_inv_start: "search_inv calls (Signature rootCall) [] [(rootCall, [Signature rootCall])] level"
  by (simp add: search_inv_def chain_between_def)

text \<open>Along any chain from the root, every signature is marked early enough, or an earlier one is queued early enough.\<close>

lemma chain_frontier:
  assumes inv: "search_inv calls rootCall visited queue level" and p: "chain calls p" "hd p = rootCall" and i: "i < length p"
  shows "p ! i \<in> set visited \<and> level (p ! i) \<le> Suc i \<or>
    (\<exists>j \<le> i. \<exists>(call, path) \<in> set queue. Signature call = p ! j \<and> length path \<le> Suc j)"
  using i
proof (induction i)
  case 0
  have "p ! 0 = rootCall" using p by (cases p) auto
  then show ?case using inv by (simp add: search_inv_def)
next
  case (Suc i)
  from Suc.IH Suc.prems consider
      (marked) "p ! i \<in> set visited" "level (p ! i) \<le> Suc i"
    | (queued) "\<exists>j \<le> i. \<exists>(call, path) \<in> set queue. Signature call = p ! j \<and> length path \<le> Suc j"
    by auto
  then show ?case
  proof cases
    case queued
    then show ?thesis using le_SucI by blast
  next
    case marked
    from chain_edge [OF p(1) Suc.prems] marked(1) inv consider
        (next_marked) "p ! Suc i \<in> set visited" "level (p ! Suc i) \<le> Suc (level (p ! i))"
      | (next_queued) "\<exists>(call, path) \<in> set queue. Signature call = p ! Suc i \<and> length path \<le> Suc (level (p ! i))"
      unfolding search_inv_def by blast
    then show ?thesis
    proof cases
      case next_marked
      then show ?thesis using marked(2) by (intro disjI1) simp
    next
      case next_queued
      then obtain call path where "(call, path) \<in> set queue" "Signature call = p ! Suc i" "length path \<le> Suc (level (p ! i))"
        by blast
      then show ?thesis using marked(2) by (intro disjI2 exI [of _ "Suc i"]) force
    qed
  qed
qed

text \<open>Taking a call off the queue gives its signature the length of its path as level, unless it has one.\<close>

definition mark_level :: "string list \<Rightarrow> (string \<Rightarrow> nat) \<Rightarrow> string \<Rightarrow> nat \<Rightarrow> string \<Rightarrow> nat" where
  "mark_level visited level s l = (if s \<in> set visited then level else level(s := l))"

lemma mark_level_old [simp]: "v \<in> set visited \<Longrightarrow> mark_level visited level s l v = level v"
  by (auto simp: mark_level_def)

lemma mark_level_le:
  assumes "search_inv calls rootSig visited ((c, path) # queue) level" "v \<in> set (Signature c # visited)"
  shows "mark_level visited level (Signature c) (length path) v \<le> length path"
  using assms by (auto simp: search_inv_def mark_level_def)

lemma search_queued:
  assumes inv: "search_inv calls rootSig visited ((c, path) # queue) level" and "(call, p) \<in> set ((c, path) # queue)" "length p \<le> k"
  shows "Signature call \<in> set (Signature c # visited) \<and> mark_level visited level (Signature c) (length path) (Signature call) \<le> k \<or>
    (call, p) \<in> set queue"
  using assms(2,3) mark_level_le [OF inv, of "Signature c"] by (cases "(call, p) = (c, path)") auto

lemma search_edges_step:
  assumes inv: "search_inv calls rootSig visited ((c, path) # queue) level"
    and v: "v \<in> set (Signature c # visited)" and e: "call_edge calls v t"
  defines "level' \<equiv> mark_level visited level (Signature c) (length path)"
  shows "t \<in> set (Signature c # visited) \<and> level' t \<le> Suc (level' v) \<or>
    (\<exists>(call, p) \<in> set (queue @ queue_children calls (Signature c # visited) (Signature c) path). Signature call = t \<and> length p \<le> Suc (level' v))"
proof (cases "v \<in> set visited")
  case True
  with inv e consider (marked) "t \<in> set visited" "level t \<le> Suc (level v)"
    | (queued) call p where "(call, p) \<in> set ((c, path) # queue)" "Signature call = t" "length p \<le> Suc (level v)"
    unfolding search_inv_def by blast
  then show ?thesis
  proof cases
    case (queued call p)
    then show ?thesis using search_queued [OF inv queued(1,3)] True by (auto simp: level'_def)
  qed (simp add: level'_def True)
next
  case False
  with v have vs: "v = Signature c" and new: "level' v = length path" by (auto simp: level'_def mark_level_def)
  show ?thesis
  proof (cases "t \<in> set (Signature c # visited)")
    case True
    then show ?thesis using mark_level_le [OF inv True] new by (simp add: level'_def)
  next
    case t: False
    obtain call where call: "call \<in> set calls" "ParentSignature call = Signature c" "Signature call = t"
      using e vs by (auto simp: call_edge_def)
    then have "(call, path @ [t]) \<in> set (queue_children calls (Signature c # visited) (Signature c) path)"
      using t by (auto simp: set_queue_children)
    then show ?thesis using new call(3) by force
  qed
qed

lemma search_start_step:
  assumes inv: "search_inv calls rootSig visited ((c, path) # queue) level"
  shows "rootSig \<in> set (Signature c # visited) \<and> mark_level visited level (Signature c) (length path) rootSig \<le> 1 \<or>
    (\<exists>(call, p) \<in> set (queue @ children). Signature call = rootSig \<and> length p \<le> 1)"
proof -
  from inv consider "rootSig \<in> set visited" "level rootSig \<le> 1"
    | call p where "(call, p) \<in> set ((c, path) # queue)" "Signature call = rootSig" "length p \<le> 1"
    unfolding search_inv_def by blast
  then show ?thesis
  proof cases
    case (2 call p)
    then show ?thesis using search_queued [OF inv 2(1,3)] by auto
  qed simp
qed

text \<open>The queue holds at most two consecutive lengths, in ascending order.\<close>

lemma search_queue_step:
  assumes order: "sorted (map (length \<circ> snd) queue)" "\<forall>n \<in> set queue. l \<le> length (snd n)" "\<forall>n \<in> set queue. length (snd n) \<le> Suc l"
    and child: "\<forall>n \<in> set children. length (snd n) = Suc l"
  shows "sorted (map (length \<circ> snd) (queue @ children))"
    and "n \<in> set (queue @ children) \<Longrightarrow> l \<le> length (snd n)"
    and "n \<in> set (queue @ children) \<Longrightarrow> length (snd n) \<le> Suc (length (snd (hd (queue @ children))))"
proof -
  have "map (length \<circ> snd) children = replicate (length children) (Suc l)"
    using child by (induction children) auto
  then have "sorted (map (length \<circ> snd) children)" by (simp only: sorted_replicate)
  then show "sorted (map (length \<circ> snd) (queue @ children))" using order child by (fastforce simp: sorted_append)
  show low: "l \<le> length (snd n)" if "n \<in> set (queue @ children)" for n using that order(2) child by fastforce
  show "length (snd n) \<le> Suc (length (snd (hd (queue @ children))))" if n: "n \<in> set (queue @ children)"
  proof -
    have "hd (queue @ children) \<in> set (queue @ children)" using n by (intro hd_in_set) auto
    from low [OF this] n order(3) child show ?thesis by fastforce
  qed
qed

lemma search_inv_step:
  assumes inv: "search_inv calls rootSig visited ((c, path) # queue) level"
  shows "\<exists>level'. search_inv calls rootSig (Signature c # visited)
    (queue @ queue_children calls (Signature c # visited) (Signature c) path) level'"
proof -
  let ?children = "queue_children calls (Signature c # visited) (Signature c) path"
  let ?level = "mark_level visited level (Signature c) (length path)"
  have chains: "chain_between calls rootSig (Signature c) path" "\<forall>(call, p) \<in> set queue. chain_between calls rootSig (Signature call) p"
    and order: "sorted (map (length \<circ> snd) queue)" "\<forall>n \<in> set queue. length path \<le> length (snd n)"
      "\<forall>n \<in> set queue. length (snd n) \<le> Suc (length path)"
    using inv by (auto simp: search_inv_def)
  have "\<forall>n \<in> set ?children. length (snd n) = Suc (length path)" by (auto simp: set_queue_children)
  note q = search_queue_step [OF order this]
  have paths: "\<forall>(call, p) \<in> set (queue @ ?children). chain_between calls rootSig (Signature call) p"
    using chains(2) chain_between_snoc [OF chains(1)] by (auto simp: set_queue_children call_edge_def)
  have levels: "?level v \<le> length (snd n)" if "v \<in> set (Signature c # visited)" "n \<in> set (queue @ ?children)" for v n
    using mark_level_le [OF inv that(1)] q(2) [OF that(2)] by (rule order_trans)
  have "search_inv calls rootSig (Signature c # visited) (queue @ ?children) ?level"
    unfolding search_inv_def
    by (intro conjI, rule paths, rule q(1), use q(3) in blast, use levels in blast,
        intro ballI allI impI, rule search_edges_step [OF inv], assumption+, rule search_start_step [OF inv])
  then show ?thesis by blast
qed

lemma path_loop_correct:
  assumes "search_inv calls rootSig visited queue level" and "target \<notin> set visited"
  shows "case path_loop calls target visited queue of
      Some p \<Rightarrow> chain_between calls rootSig target p \<and> (\<forall>q. chain_between calls rootSig target q \<longrightarrow> length p \<le> length q)
    | None \<Rightarrow> \<forall>q. \<not> chain_between calls rootSig target q"
  using assms
proof (induction calls target visited queue arbitrary: level rule: path_loop.induct)
  case (1 calls target visited)
  have "\<not> chain_between calls rootSig target q" for q
  proof
    assume q: "chain_between calls rootSig target q"
    then have "q \<noteq> []" by (auto simp: chain_between_def)
    then have "q ! (length q - 1) = target" "length q - 1 < length q" using q by (auto simp: chain_between_def last_conv_nth)
    with chain_frontier [OF "1.prems"(1), of q "length q - 1"] q "1.prems"(2) show False by (auto simp: chain_between_def)
  qed
  then show ?case by simp
next
  case (2 calls target visited c path queue)
  show ?case
  proof (cases "Signature c = target")
    case True
    have "length path \<le> length q" if q: "chain_between calls rootSig target q" for q
    proof -
      have "q \<noteq> []" using q by (auto simp: chain_between_def)
      then have last: "q ! (length q - 1) = target" "length q - 1 < length q" using q by (auto simp: chain_between_def last_conv_nth)
      then obtain j call p where j: "j \<le> length q - 1" "(call, p) \<in> set ((c, path) # queue)" "length p \<le> Suc j"
        using chain_frontier [OF "2.prems"(1), of q "length q - 1"] q "2.prems"(2) unfolding chain_between_def by auto
      moreover have "length path \<le> length p" using j(2) "2.prems"(1) by (auto simp: search_inv_def)
      ultimately show ?thesis using last(2) by simp
    qed
    then show ?thesis using "2.prems"(1) True by (simp add: search_inv_def)
  next
    case False
    obtain level' where "search_inv calls rootSig (Signature c # visited)
        (queue @ queue_children calls (Signature c # visited) (Signature c) path) level'"
      using search_inv_step [OF "2.prems"(1)] by blast
    from "2.IH" [OF False this] "2.prems"(2) False show ?thesis by simp
  qed
qed

text \<open>
  C10. The search behind the highlighted path is right on every list of calls: what it returns is a chain of calls from the first call
  without a parent to the failed call (the last one with an error, else the last call), no such chain is shorter, and it returns nothing
  exactly when there is no such chain. It always ends.
\<close>

theorem findShortestPath_correct:
  "case find (\<lambda>call. ParentSignature call = []) calls of
     None \<Rightarrow> findShortestPath calls = None
   | Some rootCall \<Rightarrow>
       (case findShortestPath calls of
          Some p \<Rightarrow> chain_between calls (Signature rootCall) (Signature (end_call calls)) p \<and>
            (\<forall>q. chain_between calls (Signature rootCall) (Signature (end_call calls)) q \<longrightarrow> length p \<le> length q)
        | None \<Rightarrow> \<forall>q. \<not> chain_between calls (Signature rootCall) (Signature (end_call calls)) q)"
proof (cases "find (\<lambda>call. ParentSignature call = []) calls")
  case None
  then show ?thesis by (simp add: findShortestPath_def)
next
  case (Some rootCall)
  have "target \<notin> set []" for target :: string by simp
  from path_loop_correct [OF search_inv_start this] Some show ?thesis by (simp add: findShortestPath_def)
qed

subsection \<open>Labels\<close>

definition dquote :: string where "dquote = [char_of (34 :: nat)]"
definition backslash :: string where "backslash = [char_of (92 :: nat)]"

definition defaultTruncateTo :: int where "defaultTruncateTo = 20"

text \<open>\<open>sprint\<close> is \<open>fmt.Sprint\<close> of a decoded value.\<close>

definition prepareMapParts :: "(goval \<Rightarrow> string) \<Rightarrow> gvals \<Rightarrow> int \<Rightarrow> string list" where
  "prepareMapParts sprint m truncateTo =
     map (\<lambda>(k, v). let val = sprint v;
            val' = (if truncateTo \<noteq> -1 \<and> int (length val) > truncateTo then take (nat truncateTo) val @ ''...'' else val)
          in k @ '': '' @ val') m"

definition formatMapForTooltip :: "(goval \<Rightarrow> string) \<Rightarrow> gvals option \<Rightarrow> string" where
  "formatMapForTooltip sprint m = (case m of
      None \<Rightarrow> newline @ ''{}''
    | Some vals \<Rightarrow> if vals = [] then newline @ ''{}'' else newline @ Join (prepareMapParts sprint vals (-1)) newline)"

definition formatMapForLabel :: "(goval \<Rightarrow> string) \<Rightarrow> gvals option \<Rightarrow> int \<Rightarrow> string" where
  "formatMapForLabel sprint m truncateTo = (case m of
      None \<Rightarrow> ''{}''
    | Some vals \<Rightarrow> if vals = [] then ''{}''
        else newline @ Join (prepareMapParts sprint vals truncateTo) (backslash @ ''l'') @ backslash @ ''l'')"

definition formatEvent :: "(goval \<Rightarrow> string) \<Rightarrow> DecodedCommonLog list \<Rightarrow> string" where
  "formatEvent sprint events =
     (if events = [] then newline @ ''{}''
      else Join (map (\<lambda>event. newline @ logSignature event @ ''    '' @ formatMapForTooltip sprint (EventData event)) events) newline)"

definition formatTooltip :: "(goval \<Rightarrow> string) \<Rightarrow> DecodedCall \<Rightarrow> string" where
  "formatTooltip sprint call =
     (let basicTooltip = dquote @ ''BASIC'' @ newline @ ''From: '' @ FromAddress call @ newline @ ''To: '' @ ToAddress call @ newline @
            ''Type: '' @ CallType call @ newline @ ''Gas Used/Limit: '' @ Itoa (callGasUsed call) @ ''/'' @ Itoa (callGasLimit call) @ newline @
            ''Value: '' @ Itoa (callValue call) @ newline @ newline @ ''INPUTS'' @ formatMapForTooltip sprint (Input call) @ newline @ newline @
            ''OUTPUTS'' @ formatMapForTooltip sprint (Output call) @ newline @ newline @ ''EVENTS'' @ formatEvent sprint (callEvents call) @
            newline @ dquote
      in if Comment call = [] then basicTooltip else basicTooltip @ newline @ ''COMMENT'' @ newline @ Comment call)"

definition ordinalNumber :: "int \<Rightarrow> string" where
  "ordinalNumber n =
     (if n \<le> 0 then Itoa n
      else Itoa n @
        (if n mod 10 = 1 then (if n mod 100 = 11 then ''th'' else ''st'')
         else if n mod 10 = 2 then (if n mod 100 = 12 then ''th'' else ''nd'')
         else if n mod 10 = 3 then (if n mod 100 = 13 then ''th'' else ''rd'')
         else ''th''))"

lemma ordinal_examples:
  "map ordinalNumber [0, 1, 2, 3, 4, 11, 12, 13, 21, 111, 122] =
     [''0'', ''1st'', ''2nd'', ''3rd'', ''4th'', ''11th'', ''12th'', ''13th'', ''21st'', ''111th'', ''122nd'']"
  by code_simp

subsection \<open>Drawing\<close>

type_synonym attrs = "(string \<times> string) list"

text \<open>The calls of the graph library, in the order the code makes them; each can fail.\<close>

datatype graph_op =
    SetName string
  | SetDir bool
  | AddNode string string attrs
  | AddSubGraph string string attrs
  | AddEdge string string attrs

record dot_env =
  hashCall :: "DecodedCall \<Rightarrow> string"
  sprintVal :: "goval \<Rightarrow> string"
  graphErr :: "graph_op \<Rightarrow> goerr option"
  mkdirErr :: "goerr option"
  createErr :: "goerr option"
  dotWriteErr :: "goerr option"

text \<open>Run operations in order, each with the message its error is wrapped in.\<close>

fun run_ops :: "dot_env \<Rightarrow> (string \<times> graph_op) list \<Rightarrow> graph_op list \<Rightarrow> graph_op list res" where
  "run_ops env [] g = Inr g"
| "run_ops env ((m, op) # ops) g =
     (case graphErr env op of Some err \<Rightarrow> Inl (ErrWrap m err) | None \<Rightarrow> run_ops env ops (g @ [op]))"

definition node_id :: "int \<Rightarrow> string \<Rightarrow> string" where
  "node_id callID kind = ''node'' @ Itoa callID @ ''_'' @ kind"

definition call_endpoint :: "string \<Rightarrow> string \<Rightarrow> string" where
  "call_endpoint name addr = (if name \<noteq> [] \<and> name \<noteq> UNKNOWN then name else addr)"

text \<open>The operations for one new call; \<open>parents\<close> is the number of its parent, when it has one.\<close>

definition parent_edge :: "DecodedCall \<Rightarrow> int \<Rightarrow> int \<Rightarrow> int \<Rightarrow> string \<Rightarrow> string \<times> graph_op" where
  "parent_edge call idx callID parentID fontSize =
     (let c = (if cdError call \<noteq> [] then ''lightcoral'' else ''darkslategray'')
      in (''failed to add edge'', AddEdge (node_id parentID ''basic'') (node_id callID ''basic'')
           [(''fontsize'', fontSize), (''label'', '' '' @ dquote @ ''('' @ ordinalNumber idx @ '')'' @ dquote), (''color'', c), (''fontcolor'', c)]))"

definition call_ops :: "dot_env \<Rightarrow> string list \<Rightarrow> int \<Rightarrow> int \<Rightarrow> int option \<Rightarrow> DecodedCall \<Rightarrow> (string \<times> graph_op) list" where
  "call_ops env shortestPath idx callID parentID call =
     (let basicNodeID = node_id callID ''basic''; extraNodeID = node_id callID ''extra''; subGraphName = ''cluster_'' @ Itoa callID;
          basicLabel = dquote @ call_endpoint (callFrom call) (FromAddress call) @ '' -> '' @ call_endpoint (callTo call) (ToAddress call) @
            newline @ '' '' @ cdMethod call @ dquote;
          extraLabel = dquote @ ''Inputs: '' @ formatMapForLabel (sprintVal env) (Input call) defaultTruncateTo @ newline @
            ''Outputs: '' @ formatMapForLabel (sprintVal env) (Output call) defaultTruncateTo @ dquote;
          isMajorNode = list_ex (\<lambda>p. p = Signature call) shortestPath;
          style = (if isMajorNode then ''filled'' else ''dashed'');
          fontSize = (if isMajorNode then ''14.0'' else ''9.0'');
          nodeColor = (if cdError call \<noteq> [] then ''lightcoral'' else if isMajorNode then ''darkslategray'' else ''lightslategray'');
          subgraphAttrs = [(''color'', if cdError call \<noteq> [] then ''lightcoral'' else ''darkslategray'')];
          m = ''failed to add node''
      in [(m, AddNode ''G'' basicNodeID [(''label'', basicLabel), (''shape'', ''box''), (''style'', style), (''fillcolor'', ''ivory''),
             (''color'', nodeColor), (''fontcolor'', ''darkslategray''), (''fontsize'', fontSize), (''tooltip'', formatTooltip (sprintVal env) call)]),
          (m, AddNode ''G'' extraNodeID [(''label'', extraLabel), (''shape'', ''box''), (''style'', style), (''fillcolor'', ''gainsboro''),
             (''color'', nodeColor), (''fontcolor'', ''darkslategray''), (''fontsize'', fontSize)]),
          (m, AddSubGraph ''G'' subGraphName subgraphAttrs),
          (m, AddNode subGraphName basicNodeID []),
          (m, AddNode subGraphName extraNodeID [(''rank'', ''same'')])] @
         (if idx = 0 then [(''failed to add edge'', AddEdge ''start'' basicNodeID [])] else []) @
         (case parentID of None \<Rightarrow> [] | Some p \<Rightarrow> [parent_edge call idx callID p fontSize]))"

text \<open>
  The number of the parent: that of the first call with the parent's signature, 0 if this call has no number yet. There is none for a
  call without a parent signature, or whose parent is not among the calls.
\<close>

definition parent_id :: "dot_env \<Rightarrow> DecodedCall list \<Rightarrow> (string, int) gomap \<Rightarrow> DecodedCall \<Rightarrow> int option" where
  "parent_id env calls callHashToID call =
     (if ParentSignature call = [] then None
      else case find (\<lambda>parentCall. Signature parentCall = ParentSignature call) calls of
             None \<Rightarrow> None
           | Some parentCall \<Rightarrow>
               Some (case map_of callHashToID (hashCall env parentCall) of None \<Rightarrow> 0 | Some i \<Rightarrow> i))"

fun graph_loop ::
  "dot_env \<Rightarrow> string list \<Rightarrow> DecodedCall list \<Rightarrow> int \<Rightarrow> DecodedCall list \<Rightarrow> (string, int) gomap \<Rightarrow> int \<Rightarrow> graph_op list \<Rightarrow>
   ((string, int) gomap \<times> int \<times> graph_op list) res" where
  "graph_loop env shortestPath calls idx [] callHashToID nextID g = Inr (callHashToID, nextID, g)"
| "graph_loop env shortestPath calls idx (call # rest) callHashToID nextID g =
     (let h = hashCall env call in
      if map_of callHashToID h \<noteq> None then graph_loop env shortestPath calls (idx + 1) rest callHashToID nextID g
      else
        (let callHashToID' = gomap_put h nextID callHashToID in
         res_bind (run_ops env (call_ops env shortestPath idx nextID (parent_id env calls callHashToID' call) call) g) (\<lambda>g'.
         graph_loop env shortestPath calls (idx + 1) rest callHashToID' (nextID + 1) g')))"

text \<open>The index of the last call with an error, or -1.\<close>

fun reverted_index :: "DecodedCall list \<Rightarrow> int \<Rightarrow> int \<Rightarrow> int" where
  "reverted_index [] i found = found"
| "reverted_index (dc # calls) i found = reverted_index calls (i + 1) (if cdError dc \<noteq> [] then i else found)"

definition circle_attrs :: "string \<Rightarrow> attrs" where
  "circle_attrs label = [(''label'', dquote @ label @ newline @ dquote), (''shape'', ''circle''), (''style'', ''filled''), (''fillcolor'', ''darkseagreen3''),
     (''color'', ''darkslategray''), (''fontcolor'', ''darkslategray'')]"

definition missingParentErr :: goerr where
  "missingParentErr = ErrNew ''failed to find parent node for revert node. This should never happen and likely indicates a bug in code''"

text \<open>The last node: the revert reason, linked to the call that failed, or the end, linked from the last call.\<close>

definition final_node :: "dot_env \<Rightarrow> DecodedCall list \<Rightarrow> goerr option \<Rightarrow> (string, int) gomap \<Rightarrow> int \<Rightarrow> graph_op list \<Rightarrow> graph_op list res go" where
  "final_node env calls revertErr callHashToID nextID g =
     (case revertErr of
        Some err \<Rightarrow>
          (let revertNode = ''revert_node_'' @ Itoa (nextID - 1) in
           case run_ops env [(''failed to add node'', AddNode ''G'' revertNode [(''label'', dquote @ errorText err @ dquote), (''shape'', ''rectangle''),
                  (''style'', ''filled''), (''color'', ''lightcoral''), (''fillcolor'', ''lightcoral''), (''fontcolor'', ''darkslategray'')])] g of
             Inl e \<Rightarrow> Ret (Inl e)
           | Inr g' \<Rightarrow>
               go_bind (go_index calls (reverted_index calls 0 (-1))) (\<lambda>call.
               Ret (case map_of callHashToID (hashCall env call) of
                   None \<Rightarrow> Inl missingParentErr
                 | Some revertParentNodeId \<Rightarrow>
                     run_ops env [(''failed to add node'', AddEdge revertNode (node_id revertParentNodeId ''basic'')
                       [(''style'', ''filled''), (''fillcolor'', ''lightcoral''), (''color'', ''lightcoral''), (''fontcolor'', ''darkslategray'')])] g')))
      | None \<Rightarrow>
          (case run_ops env [(''failed to add end node'', AddNode ''G'' ''end'' (circle_attrs ''End''))] g of
             Inl e \<Rightarrow> Ret (Inl e)
           | Inr g' \<Rightarrow>
               go_bind (go_index calls (int (length calls) - 1)) (\<lambda>call.
               Ret (case map_of callHashToID (hashCall env call) of
                   None \<Rightarrow> Inl missingParentErr
                 | Some lastNodeId \<Rightarrow> run_ops env [(''failed to add edge'', AddEdge (node_id lastNodeId ''basic'') ''end'' [])] g'))))"

text \<open>A file that was created: with the graph, or empty when writing failed.\<close>

type_synonym dot_file = "graph_op list option"

definition write_graph :: "dot_env \<Rightarrow> graph_op list \<Rightarrow> dot_file option \<times> goerr option" where
  "write_graph env g =
     (case mkdirErr env of
        Some err \<Rightarrow> (None, Some (ErrWrap ''failed to create directory'' err))
      | None \<Rightarrow>
          (case createErr env of
             Some err \<Rightarrow> (None, Some (ErrNew (''Error creating file: '' @ errorText err @ newline)))
           | None \<Rightarrow>
               (case dotWriteErr env of
                  Some err \<Rightarrow> (Some None, Some (ErrNew (''Error writing to file: '' @ errorText err @ newline)))
                | None \<Rightarrow> (Some (Some g), None))))"

text \<open>
  \<open>generateDotGraph\<close>: the file that is created, if any, and the error. The map of nodes at a level is never filled in the source, so its
  loop for dummy nodes does nothing.
\<close>

definition generateDotGraph :: "dot_env \<Rightarrow> Config \<Rightarrow> DecodedCall list \<Rightarrow> goerr option \<Rightarrow> (dot_file option \<times> goerr option) go" where
  "generateDotGraph env cfg calls revertErr =
     (if \<not> hasOutput cfg TraceOutput_DOT then Ret (None, None)
      else
        (let shortestPath = (case findShortestPath calls of None \<Rightarrow> [] | Some p \<Rightarrow> p) in
         case run_ops env [(''failed to set graph name'', SetName ''G''), (''failed to set graph direction'', SetDir True),
                (''failed to add start node'', AddNode ''G'' ''start'' (circle_attrs ''Start''))] [] of
           Inl err \<Rightarrow> Ret (None, Some err)
         | Inr g0 \<Rightarrow>
             (case graph_loop env shortestPath calls 0 calls [] 1 g0 of
                Inl err \<Rightarrow> Ret (None, Some err)
              | Inr (callHashToID, nextID, g1) \<Rightarrow>
                  go_bind (final_node env calls revertErr callHashToID nextID g1) (\<lambda>r.
                  Ret (case r of
                      Inl err \<Rightarrow> (None, Some err)
                    | Inr g2 \<Rightarrow> write_graph env g2)))))"

subsection \<open>What is drawn\<close>

definition clusters :: "graph_op list \<Rightarrow> string list" where
  "clusters g = concat (map (\<lambda>op. case op of AddSubGraph p n a \<Rightarrow> [n] | _ \<Rightarrow> []) g)"

lemma clusters_append [simp]: "clusters (g @ g') = clusters g @ clusters g'"
  by (simp add: clusters_def)

lemma run_ops_Inr: "run_ops env ops g = Inr g' \<Longrightarrow> g' = g @ map snd ops"
  by (induction env ops g rule: run_ops.induct) (auto split: option.splits)

lemma run_ops_no_error: "graphErr env = (\<lambda>op. None) \<Longrightarrow> run_ops env ops g = Inr (g @ map snd ops)"
  by (induction env ops g rule: run_ops.induct) auto

lemma clusters_call_ops: "clusters (map snd (call_ops env path idx callID parentID call)) = [''cluster_'' @ Itoa callID]"
  by (cases parentID) (simp_all add: call_ops_def clusters_def parent_edge_def Let_def)

lemma graph_loop_clusters:
  assumes "graph_loop env path calls idx rest ids nextID g = Inr (ids', nextID', g')" and "gomap_wf ids"
  shows "gomap_wf ids' \<and> fst ` set ids' = fst ` set ids \<union> hashCall env ` set rest \<and>
    nextID' - nextID = int (length ids') - int (length ids) \<and> nextID \<le> nextID' \<and>
    clusters g' = clusters g @ map (\<lambda>i. ''cluster_'' @ Itoa i) [nextID..nextID' - 1]"
  using assms
proof (induction env path calls idx rest ids nextID g rule: graph_loop.induct)
  case (1 env path calls idx ids nextID g)
  then show ?case by simp
next
  case (2 env path calls idx call rest ids nextID g)
  let ?h = "hashCall env call"
  show ?case
  proof (cases "map_of ids ?h = None")
    case False
    then have "?h \<in> fst ` set ids" by (auto simp: map_of_eq_None_iff)
    then show ?thesis using "2.IH"(1) [OF refl] "2.prems" False by auto
  next
    case True
    let ?ids = "gomap_put ?h nextID ids"
    obtain g1 where g1: "run_ops env (call_ops env path idx nextID (parent_id env calls ?ids call) call) g = Inr g1"
      and rec: "graph_loop env path calls (idx + 1) rest ?ids (nextID + 1) g1 = Inr (ids', nextID', g')"
      using "2.prems"(1) True by (auto simp: Let_def res_bind_Inr_iff)
    have new: "?h \<notin> fst ` set ids" using True by (simp add: map_of_eq_None_iff)
    have "length ?ids = Suc (length ids)" using new by (simp add: length_gomap_put)
    moreover have "fst ` set ?ids = insert ?h (fst ` set ids)" by (simp add: update_conv' flip: dom_map_of_conv_image_fst)
    moreover have "clusters g1 = clusters g @ [''cluster_'' @ Itoa nextID]"
      using run_ops_Inr [OF g1] clusters_call_ops by simp
    moreover note "2.IH"(2) [OF refl _ refl rec] "2.prems"(2) True
    moreover have "[nextID..nextID' - 1] = nextID # [nextID + 1..nextID' - 1]" if "nextID + 1 \<le> nextID'"
      using that by (simp add: upto_rec1)
    ultimately show ?thesis by auto
  qed
qed

text \<open>
  The graph that is written has exactly one cluster of nodes per distinct call, numbered 1, 2, 3 and so on in the order in which the
  calls first occur.
\<close>

theorem dot_graph_clusters:
  assumes run: "generateDotGraph env cfg calls revertErr = Ret (Some (Some g), err)"
  shows "clusters g = map (\<lambda>i. ''cluster_'' @ Itoa i) [1..int (card (hashCall env ` set calls))]"
proof -
  let ?path = "case findShortestPath calls of None \<Rightarrow> [] | Some p \<Rightarrow> p"
  let ?ops = "[(''failed to set graph name'', SetName ''G''), (''failed to set graph direction'', SetDir True),
                (''failed to add start node'', AddNode ''G'' ''start'' (circle_attrs ''Start''))]"
  obtain g0 where g0: "run_ops env ?ops [] = Inr g0"
    using run by (cases "run_ops env ?ops []") (auto simp: generateDotGraph_def Let_def split: if_splits)
  obtain r1 where r1: "graph_loop env ?path calls 0 calls [] 1 g0 = Inr r1"
    using run g0 by (cases "graph_loop env ?path calls 0 calls [] 1 g0") (auto simp: generateDotGraph_def Let_def split: if_splits)
  obtain ids nextID g1 where r: "r1 = (ids, nextID, g1)" by (cases r1)
  obtain q where q: "final_node env calls revertErr ids nextID g1 = Ret q"
    using run g0 r1 r by (auto simp: generateDotGraph_def Let_def go_bind_Ret_iff split: if_splits)
  have "q = Inr g"
    using run g0 r1 r q by (cases q) (auto simp: generateDotGraph_def write_graph_def Let_def split: if_splits option.splits)
  then have "clusters g = clusters g1"
    using q by (auto simp: final_node_def Let_def go_bind_Ret_iff clusters_def dest!: run_ops_Inr split: option.splits sum.splits)
  moreover have "clusters g0 = []" using run_ops_Inr [OF g0] by (simp add: clusters_def)
  moreover have "gomap_wf ids" "fst ` set ids = hashCall env ` set calls" "nextID - 1 = int (length ids)"
    "clusters g1 = clusters g0 @ map (\<lambda>i. ''cluster_'' @ Itoa i) [1..nextID - 1]"
    using graph_loop_clusters [OF r1 [unfolded r]] by simp_all
  moreover have "card (hashCall env ` set calls) = length ids"
    using \<open>gomap_wf ids\<close> \<open>fst ` set ids = hashCall env ` set calls\<close> by (metis distinct_card length_map list.set_map)
  ultimately show ?thesis by simp
qed

lemma reverted_index_range:
  "reverted_index calls i found =
     (if \<forall>c \<in> set calls. cdError c = [] then found else reverted_index calls i found) \<and>
   ((\<exists>c \<in> set calls. cdError c \<noteq> []) \<longrightarrow> i \<le> reverted_index calls i found \<and> reverted_index calls i found < i + int (length calls))"
proof (induction calls i found rule: reverted_index.induct)
  case (1 i found)
  then show ?case by simp
next
  case (2 dc calls i found)
  show ?case
  proof (cases "\<exists>c \<in> set calls. cdError c \<noteq> []")
    case True
    then show ?thesis using 2 by auto
  next
    case False
    then show ?thesis using 2 by auto
  qed
qed

lemma graph_loop_no_error:
  "graphErr env = (\<lambda>op. None) \<Longrightarrow> \<exists>r. graph_loop env path calls idx rest ids nextID g = Inr r"
  by (induction env path calls idx rest ids nextID g rule: graph_loop.induct) (auto simp: Let_def run_ops_no_error)

text \<open>A file is created only with DOT output, and the graph is in it unless there is an error.\<close>

lemma dot_file_created:
  assumes "generateDotGraph env cfg calls revertErr = Ret (file', err)"
  shows "hasOutput cfg TraceOutput_DOT \<or> file' = None" and "hasOutput cfg TraceOutput_DOT \<Longrightarrow> err = None \<Longrightarrow> \<exists>g. file' = Some (Some g)"
proof -
  show "hasOutput cfg TraceOutput_DOT \<or> file' = None"
    using assms by (cases "hasOutput cfg TraceOutput_DOT") (auto simp: generateDotGraph_def)
  assume on: "hasOutput cfg TraceOutput_DOT" and ok: "err = None"
  obtain g where "write_graph env g = (file', None)"
    using assms on ok by (auto simp: generateDotGraph_def Let_def go_bind_Ret_iff split: sum.splits) (metis sum.exhaust)
  then show "\<exists>g. file' = Some (Some g)" by (auto simp: write_graph_def split: option.splits)
qed

text \<open>
  With a graph library that accepts everything, drawing the graph of a non-empty trace panics exactly when the transaction has a revert
  error but none of the decoded calls carries one: the code then indexes the calls with -1.
\<close>

theorem dot_graph_panics_iff:
  assumes dot: "hasOutput cfg TraceOutput_DOT" and lib: "graphErr env = (\<lambda>op. None)" and calls: "calls \<noteq> []"
  shows "(\<exists>msg. generateDotGraph env cfg calls revertErr = Panic msg) \<longleftrightarrow>
    revertErr \<noteq> None \<and> (\<forall>c \<in> set calls. cdError c = [])"
proof -
  let ?path = "case findShortestPath calls of None \<Rightarrow> [] | Some p \<Rightarrow> p"
  let ?g0 = "[SetName ''G'', SetDir True, AddNode ''G'' ''start'' (circle_attrs ''Start'')]"
  obtain r where "graph_loop env ?path calls 0 calls [] 1 ?g0 = Inr r" using graph_loop_no_error [OF lib] by blast
  then obtain ids nextID g1 where loop: "graph_loop env ?path calls 0 calls [] 1 ?g0 = Inr (ids, nextID, g1)" by (cases r) auto
  let ?final = "final_node env calls revertErr ids nextID g1"
  have "(\<exists>msg. generateDotGraph env cfg calls revertErr = Panic msg) \<longleftrightarrow> (\<exists>msg. ?final = Panic msg)"
    using dot loop by (cases ?final) (simp_all add: generateDotGraph_def lib)
  also have "\<dots> \<longleftrightarrow> revertErr \<noteq> None \<and> (\<forall>c \<in> set calls. cdError c = [])"
  proof (cases revertErr)
    case None
    have "go_index calls (int (length calls) - 1) = Ret (calls ! (length calls - 1))"
      using calls go_index_nat [of "length calls - 1" calls] by (simp add: of_nat_diff Suc_leI)
    then show ?thesis using None by (simp add: final_node_def lib)
  next
    case (Some err)
    have "(\<exists>msg. ?final = Panic msg) \<longleftrightarrow> (\<exists>msg. go_index calls (reverted_index calls 0 (-1)) = Panic msg)"
      using Some by (cases "go_index calls (reverted_index calls 0 (-1))") (simp_all add: final_node_def lib Let_def)
    also have "\<dots> \<longleftrightarrow> (\<forall>c \<in> set calls. cdError c = [])"
      using reverted_index_range [of calls 0 "-1"] by (cases "\<forall>c \<in> set calls. cdError c = []") (auto simp: go_index_def)
    finally show ?thesis using Some by simp
  qed
  finally show ?thesis .
qed

definition ex_dot_env :: dot_env where
  "ex_dot_env = \<lparr>hashCall = (\<lambda>c. Signature c), sprintVal = (\<lambda>v. ''v''), graphErr = (\<lambda>op. None), mkdirErr = None, createErr = None, dotWriteErr = None\<rparr>"

definition ex_dot_cfg :: Config where
  "ex_dot_cfg = ex_cfg\<lparr>TraceOutputs := [''dot'']\<rparr>"

definition ex_traced :: "DecodedCall list" where
  "ex_traced = [getDefaultDecodedCall\<lparr>Signature := ''a''\<rparr>, getDefaultDecodedCall\<lparr>Signature := ''b'', ParentSignature := ''a''\<rparr>,
     getDefaultDecodedCall\<lparr>Signature := ''a''\<rparr>]"

lemma ex_dot_output: "hasOutput ex_dot_cfg TraceOutput_DOT"
  by (simp add: hasOutput_def ex_dot_cfg_def EqualFold_def TraceOutput_DOT_def)

theorem dot_graph_panics_iff_witness:
  "(\<exists>msg. generateDotGraph ex_dot_env ex_dot_cfg ex_traced (Some ErrNotFound) = Panic msg) \<and>
   \<not> (\<exists>msg. generateDotGraph ex_dot_env ex_dot_cfg ex_traced None = Panic msg)"
  using dot_graph_panics_iff [OF ex_dot_output, of ex_dot_env ex_traced]
  by (simp add: ex_dot_env_def ex_traced_def getDefaultDecodedCall_def)

theorem dot_graph_clusters_witness:
  "\<exists>g. generateDotGraph ex_dot_env ex_dot_cfg ex_traced None = Ret (Some (Some g), None) \<and> clusters g = [''cluster_1'', ''cluster_2'']"
proof -
  obtain g where run: "generateDotGraph ex_dot_env ex_dot_cfg ex_traced None = Ret (Some (Some g), None)"
    by (simp add: generateDotGraph_def ex_dot_output Let_def ex_dot_env_def ex_traced_def final_node_def go_index_def write_graph_def
        call_ops_def parent_id_def parent_edge_def findShortestPath_def end_call_def getDefaultDecodedCall_def queue_children_def)
  have nodes: "{''a'', ''b'', ''a''} = {''a'', ''b''}" by blast
  have "clusters g = map (\<lambda>i. ''cluster_'' @ Itoa i) [1..2]"
    using dot_graph_clusters [OF run] by (simp add: ex_dot_env_def ex_traced_def getDefaultDecodedCall_def nodes)
  also have "\<dots> = [''cluster_1'', ''cluster_2'']" by code_simp
  finally show ?thesis using run by blast
qed

theorem findShortestPath_correct_witness:
  "\<exists>p. findShortestPath ex_traced = Some p \<and> chain_between ex_traced ''a'' ''a'' p"
proof -
  have root: "find (\<lambda>call. ParentSignature call = []) ex_traced = Some (getDefaultDecodedCall\<lparr>Signature := ''a''\<rparr>)"
    by (simp add: ex_traced_def getDefaultDecodedCall_def)
  obtain p where p: "findShortestPath ex_traced = Some p"
    by (simp add: findShortestPath_def end_call_def ex_traced_def getDefaultDecodedCall_def)
  have "Signature (end_call ex_traced) = ''a''" by (simp add: end_call_def ex_traced_def getDefaultDecodedCall_def)
  then show ?thesis using findShortestPath_correct [of ex_traced] root p by simp
qed

end
