(* ===== verification/Tracing.thy ===== *)
theory Tracing
  imports Dot_Graph Ether_Units
begin

text \<open>
  The tracer (\<^verbatim>\<open>src/tracing.go\<close>): the call tree the node returns, collecting the method selectors, decoding every call,
  the calls known only from the 4-byte trace, and the tracer's own maps. Functions of go-ethereum's \<open>common\<close> and \<open>hexutil\<close>
  packages are the fields of \<open>hex_lib\<close>; the answers of the node are arguments. The theorems say that the calls of a trace are
  decoded in order, each with its own selector, as long as no output is malformed, and what happens otherwise.
\<close>

definition ErrNoTrace :: string where "ErrNoTrace = ''no trace found''"
definition ErrInvalidMethodSignature :: string where
  "ErrInvalidMethodSignature = ''no method signature found or it'' @ quote_char @ ''s not 4 bytes long''"
definition WrnMissingCallTrace :: string where
  "WrnMissingCallTrace = ''This call was missing from call trace, but it'' @ quote_char @
     ''s signature was present in 4bytes trace. Most data is missing; Call order remains unknown''"
definition FAILED_TO_DECODE :: string where "FAILED_TO_DECODE = ''failed to decode''"
definition NO_DATA :: string where "NO_DATA = ''no data''"
definition CommentMissingABI :: string where "CommentMissingABI = ''Call not decoded due to missing ABI instance''"
definition ErrMethodCounter :: string where
  "ErrMethodCounter = ''method counter exceeds the number of methods. This indicates there'' @ quote_char @
     ''s a logical error in tracing. Please reach out to Test Tooling team''"

record hex_lib =
  Hex2Bytes :: "string \<Rightarrow> byte list"
  Bytes2Hex :: "byte list \<Rightarrow> string"
  hexutil_Decode :: "string \<Rightarrow> byte list res"
  HexToAddr :: "string \<Rightarrow> address"
  HexToHash :: "string \<Rightarrow> hash"
  hashText :: "hash \<Rightarrow> string"
  addrText :: "address \<Rightarrow> string"

subsection \<open>Traces\<close>

record TraceLog =
  tlAddress :: string
  tlData :: string
  tlTopics :: "string list"

definition GetTopics :: "hex_lib \<Rightarrow> TraceLog \<Rightarrow> hash list" where
  "GetTopics hx t = map (HexToHash hx) (tlTopics t)"

definition GetData :: "hex_lib \<Rightarrow> TraceLog \<Rightarrow> byte list" where
  "GetData hx t = Hex2Bytes hx (TrimPrefix (tlData t) ''0x'')"

datatype Call = Call (rawFrom: string) (rawGas: string) (rawGasUsed: string) (rawInput: string)
  (rawLogs: "TraceLog list") (rawOutput: string) (rawTo: string) (rawType: string) (rawValue: string)
  (rawError: string) (rawCalls: "Call list")

record TXFourByteMetadataOutput =
  CallSize :: int
  Times :: int

record TXCallTraceOutput =
  mainCall :: Call
  Calls :: "Call list"

record Trace =
  TxHash :: string
  FourByte :: "(string, TXFourByteMetadataOutput) gomap"
  CallTrace :: TXCallTraceOutput

text \<open>\<open>strconv.Atoi\<close> and \<open>strconv.ParseInt(s, 16, 64)\<close> on texts with an optional sign.\<close>

definition signed_text :: "(string \<Rightarrow> int option) \<Rightarrow> string \<Rightarrow> int option" where
  "signed_text parse s =
     (let neg = HasPrefix s ''-''; body = (if HasPrefix s ''-'' \<or> HasPrefix s ''+'' then tl s else s) in
      if body = [] then None
      else case parse body of None \<Rightarrow> None
        | Some v \<Rightarrow> (let n = (if neg then - v else v) in if - (2 ^ 63) \<le> n \<and> n < 2 ^ 63 then Some n else None))"

definition Atoi :: "string \<Rightarrow> int res" where
  "Atoi s = (case signed_text (\<lambda>b. parse_dec b 0) s of None \<Rightarrow> Inl (ErrNew (''strconv.Atoi: parsing '' @ s)) | Some n \<Rightarrow> Inr n)"

definition ParseIntHex :: "string \<Rightarrow> int res" where
  "ParseIntHex s = (case signed_text (\<lambda>b. hex_number b 0) s of None \<Rightarrow> Inl (ErrNew (''strconv.ParseInt: parsing '' @ s)) | Some n \<Rightarrow> Inr n)"

text \<open>The keys of the 4-byte trace are selector and size; a later size replaces an earlier one of the same selector.\<close>

fun four_byte_loop :: "(string, int) gomap \<Rightarrow> (string, TXFourByteMetadataOutput) gomap \<Rightarrow> (string, TXFourByteMetadataOutput) gomap res go" where
  "four_byte_loop [] out = Ret (Inr out)"
| "four_byte_loop ((k, v) # rest) out =
     (let d = Split1 k CHR 0x2D in
      go_bind (go_index d 1) (\<lambda>d1.
      case Atoi d1 of
        Inl err \<Rightarrow> Ret (Inl err)
      | Inr callParamsSize \<Rightarrow> four_byte_loop rest (gomap_put (hd d) \<lparr>CallSize = callParamsSize, Times = v\<rparr> out)))"

definition trace4Byte :: "(string, int) gomap res \<Rightarrow> (string, TXFourByteMetadataOutput) gomap res go" where
  "trace4Byte answer = (case answer of Inl err \<Rightarrow> Ret (Inl err) | Inr trace \<Rightarrow> four_byte_loop trace [])"

subsection \<open>Selectors\<close>

definition getSignature :: "string \<Rightarrow> string res" where
  "getSignature input =
     (if length input < 10 then Inl (ErrNew ErrInvalidMethodSignature) else Inr (take 8 (drop 2 input)))"

fun gatherAllMethods :: "Call list \<Rightarrow> string list \<Rightarrow> string list res" where
  "gatherAllMethods [] methods = Inr methods"
| "gatherAllMethods (Call f g u input l out t ty v e sub # calls) methods =
     (case getSignature input of
        Inl err \<Rightarrow> Inl err
      | Inr sig \<Rightarrow>
          (case gatherAllMethods sub (methods @ [sig]) of
             Inl err \<Rightarrow> Inl err
           | Inr methods' \<Rightarrow> gatherAllMethods calls methods'))"

subsection \<open>Decoding one call\<close>

definition isOwnAddress :: "hex_lib \<Rightarrow> address list \<Rightarrow> string \<Rightarrow> bool" where
  "isOwnAddress hx addresses addr \<longleftrightarrow> list_ex (\<lambda>a. ToLower (addrText hx a) = addr) addresses"

definition getHumanReadableAddressName :: "hex_lib \<Rightarrow> address list \<Rightarrow> ContractMap \<Rightarrow> string \<Rightarrow> string" where
  "getHumanReadableAddressName hx addresses cm addr =
     (if IsKnownAddress cm addr then GetContractName cm addr
      else if isOwnAddress hx addresses addr then ''you'' else ''unknown'')"

definition generateDuplicatesComment :: "int \<Rightarrow> string" where
  "generateDuplicatesComment duplicateCount =
     (if duplicateCount > 0
      then ''potentially inaccurate - method present in '' @ Itoa duplicateCount @ '' other contracts'' else [])"

text \<open>A number of the call: empty, zero and unreadable texts leave the field 0.\<close>

definition hex_field :: "string \<Rightarrow> int" where
  "hex_field s =
     (if s \<noteq> [] \<and> s \<noteq> ''0x0'' then
        (case ParseIntHex (TrimPrefix s ''0x'') of Inl err \<Rightarrow> 0 | Inr v \<Rightarrow> v)
      else 0)"

fun Tracer_decodeContractLogs :: "abi_lib \<Rightarrow> hex_lib \<Rightarrow> ABI \<Rightarrow> TraceLog list \<Rightarrow> DecodedCommonLog list \<Rightarrow> DecodedCommonLog list res go" where
  "Tracer_decodeContractLogs lib hx a [] acc = Ret (Inr acc)"
| "Tracer_decodeContractLogs lib hx a (lo # logs) acc =
     go_bind (events_for_log lib a (GetTopics hx lo) (GetData hx lo)
         (\<lambda>evSpec. go_bind (go_index (tlTopics lo) 0) (\<lambda>t. Ret (hashText hx (evID evSpec) = t)))
         (\<lambda>evSpec d. \<lparr>logSignature = evSig evSpec, logAddr = HexToAddr hx (tlAddress lo), EventData = d,
                      logTopicTexts = tlTopics lo\<rparr>) (Events a) acc)
       (\<lambda>r. case r of
           Inl err \<Rightarrow> Ret (Inl err)
         | Inr acc' \<Rightarrow> Tracer_decodeContractLogs lib hx a logs acc')"

text \<open>The fields that do not need an ABI.\<close>

definition raw_decoded :: "hex_lib \<Rightarrow> address list \<Rightarrow> ContractMap \<Rightarrow> byte list \<Rightarrow> int \<Rightarrow> Call \<Rightarrow> DecodedCall" where
  "raw_decoded hx addresses cm byteSignature duplicateCount rawCall =
     getDefaultDecodedCall\<lparr>
       Signature := Bytes2Hex hx byteSignature, FromAddress := rawFrom rawCall, ToAddress := rawTo rawCall,
       callFrom := getHumanReadableAddressName hx addresses cm (rawFrom rawCall),
       callTo := getHumanReadableAddressName hx addresses cm (rawTo rawCall),
       Comment := generateDuplicatesComment duplicateCount, CallType := rawType rawCall, cdError := rawError rawCall,
       callValue := hex_field (rawValue rawCall), callGasLimit := uint64 (hex_field (rawGas rawCall)),
       callGasUsed := uint64 (hex_field (rawGasUsed rawCall))\<rparr>"

text \<open>The fields decoded with an ABI; the logs are decoded last and may panic.\<close>

definition decode_with_abi :: "abi_lib \<Rightarrow> hex_lib \<Rightarrow> ABIFinderResult \<Rightarrow> DecodedCall \<Rightarrow> Call \<Rightarrow> (DecodedCall \<times> goerr option) go" where
  "decode_with_abi lib hx abiResult call0 rawCall =
     (let method = resMethod abiResult;
          call1 = call0\<lparr>cdMethod := mSig method, Signature := Bytes2Hex hx (mID method)\<rparr>;
          call2 = (case decodeTxInputs lib (Hex2Bytes hx (TrimPrefix (rawInput rawCall) ''0x'')) method of
                     Inl err \<Rightarrow> call1 | Inr txInput \<Rightarrow> call1\<lparr>Input := txInput\<rparr>)
      in case (if rawOutput rawCall = [] then Inr call2
               else case hexutil_Decode hx (rawOutput rawCall) of
                 Inl err \<Rightarrow> Inl err
               | Inr output \<Rightarrow>
                   (case decodeTxOutputs lib output method of Inl err \<Rightarrow> Inr call2 | Inr txOutput \<Rightarrow> Inr (call2\<lparr>Output := txOutput\<rparr>))) of
           Inl err \<Rightarrow> Ret (call2, Some (ErrWrap ErrDecodeOutput err))
         | Inr call3 \<Rightarrow>
             go_bind (Tracer_decodeContractLogs lib hx (resABI abiResult) (rawLogs rawCall) []) (\<lambda>r.
             Ret (case r of Inl err \<Rightarrow> (call3, None) | Inr txEvents \<Rightarrow> (call3\<lparr>callEvents := txEvents\<rparr>, None))))"

definition decodeCall ::
  "abi_lib \<Rightarrow> hex_lib \<Rightarrow> (string, ABI) gomap \<Rightarrow> address list \<Rightarrow> ContractMap \<Rightarrow> byte list \<Rightarrow> Call \<Rightarrow> (ContractMap \<times> DecodedCall \<times> goerr option) go" where
  "decodeCall lib hx abis addresses cm byteSignature rawCall =
     (case FindABIByMethod (MethodById lib) abis cm (rawTo rawCall) byteSignature of
        (cm', Inl err) \<Rightarrow>
          Ret (cm', (raw_decoded hx addresses cm' byteSignature 0 rawCall)\<lparr>Comment := CommentMissingABI\<rparr>, None)
      | (cm', Inr abiResult) \<Rightarrow>
          go_bind (decode_with_abi lib hx abiResult
              (raw_decoded hx addresses cm' byteSignature (DuplicateCount abiResult) rawCall) rawCall)
            (\<lambda>(call, err). Ret (cm', call, err)))"

subsection \<open>Decoding a trace\<close>

definition failed_call :: "Call \<Rightarrow> DecodedCall" where
  "failed_call call = CommonData.extend
     (zero_common\<lparr>cdMethod := FAILED_TO_DECODE, Input := Some [(''error'', VString FAILED_TO_DECODE)],
        Output := Some [(''error'', VString FAILED_TO_DECODE)]\<rparr>)
     (DecodedCall.fields (rawFrom call) (rawTo call) [] [] [] [] 0 0 0)"

text \<open>
  \<open>processCallsFn\<close>: the state is the contract map, the method counter and the calls decoded so far; \<open>dec\<close> is
  \<open>decodeCall\<close> on the tracer's data.
\<close>

fun processCalls ::
  "(ContractMap \<Rightarrow> byte list \<Rightarrow> Call \<Rightarrow> (ContractMap \<times> DecodedCall \<times> goerr option) go) \<Rightarrow> hex_lib \<Rightarrow> string list \<Rightarrow>
   int \<Rightarrow> string \<Rightarrow> Call list \<Rightarrow> ContractMap \<times> nat \<times> DecodedCall list \<Rightarrow> (ContractMap \<times> nat \<times> DecodedCall list) res go" where
  "processCalls dec hx methods nestingLevel parentSignature [] st = Ret (Inr st)"
| "processCalls dec hx methods nestingLevel parentSignature (Call f g u i l out t ty v e sub # calls) (cm, methodCounter, decodedCalls) =
     (if methodCounter + 1 \<ge> length methods then Ret (Inl (ErrNew ErrMethodCounter))
      else
        (let methodHex = methods ! (methodCounter + 1); call = Call f g u i l out t ty v e sub in
         go_bind (dec cm (Hex2Bytes hx methodHex) call) (\<lambda>(cm', decodedSubCall, err).
         case err of
           Some _ \<Rightarrow> processCalls dec hx methods nestingLevel parentSignature calls
                       (cm', methodCounter + 1, decodedCalls @ [failed_call call])
         | None \<Rightarrow>
             (let st = (cm', methodCounter + 1,
                        decodedCalls @ [decodedSubCall\<lparr>NestingLevel := nestingLevel, ParentSignature := parentSignature\<rparr>]) in
              if sub = [] then processCalls dec hx methods nestingLevel parentSignature calls st
              else
                go_bind (processCalls dec hx methods (nestingLevel + 1) methodHex sub st) (\<lambda>r. case r of
                    Inl err \<Rightarrow> Ret (Inl err)
                  | Inr st' \<Rightarrow> processCalls dec hx methods nestingLevel parentSignature calls st')))))"

fun countAllTracedCalls :: "Call list \<Rightarrow> int \<Rightarrow> int" where
  "countAllTracedCalls [] previous = previous"
| "countAllTracedCalls (Call f g u i l out t ty v e sub # calls) previous =
     countAllTracedCalls calls (countAllTracedCalls sub (previous + 1))"

fun findSignature :: "string \<Rightarrow> Call list \<Rightarrow> bool" where
  "findSignature fourByteSign [] = False"
| "findSignature fourByteSign (Call f g u i l out t ty v e sub # calls) =
     (Contains i fourByteSign \<or> findSignature fourByteSign sub \<or> findSignature fourByteSign calls)"

definition warning_map :: "gvals option" where
  "warning_map = Some [(''warning'', VString NO_DATA)]"

definition no_data_log :: DecodedCommonLog where
  "no_data_log = \<lparr>logSignature = NO_DATA, logAddr = replicate 20 0, EventData = warning_map, logTopicTexts = []\<rparr>"

definition unknownCall :: DecodedCall where
  "unknownCall = CommonData.extend (zero_common\<lparr>cdMethod := NO_DATA, Input := warning_map, Output := warning_map\<rparr>)
     (DecodedCall.fields UNKNOWN UNKNOWN [] [] [no_data_log] [] 0 0 0)"

definition missing_call :: "ContractMap \<Rightarrow> string \<Rightarrow> ABIFinderResult \<Rightarrow> DecodedCall" where
  "missing_call cm humanName abiResult =
     CommonData.extend
       (zero_common\<lparr>Signature := humanName, cdMethod := mName (resMethod abiResult), Input := warning_map, Output := warning_map\<rparr>)
       (DecodedCall.fields UNKNOWN (GetContractAddress cm (ContractName abiResult)) UNKNOWN (ContractName abiResult) [no_data_log]
          (if DuplicateCount abiResult > 0
           then WrnMissingCallTrace @ ''; Potentially inaccurate - method present in '' @ Itoa (DuplicateCount abiResult) @ '' other contracts''
           else WrnMissingCallTrace) 0 0 0)"

fun missed_calls :: "abi_lib \<Rightarrow> hex_lib \<Rightarrow> (string, ABI) gomap \<Rightarrow> ContractMap \<Rightarrow> string list \<Rightarrow> ContractMap \<times> DecodedCall list" where
  "missed_calls lib hx abis cm [] = (cm, [])"
| "missed_calls lib hx abis cm (missingSig # rest) =
     (case FindABIByMethod (MethodById lib) abis cm UNKNOWN (Hex2Bytes hx (TrimPrefix missingSig ''0x'')) of
        (cm', Inl err) \<Rightarrow> (let (cm'', cs) = missed_calls lib hx abis cm' rest in (cm'', unknownCall # cs))
      | (cm', Inr abiResult) \<Rightarrow>
          (let (cm'', cs) = missed_calls lib hx abis cm' rest in (cm'', missing_call cm' missingSig abiResult # cs)))"

definition missingSignatures :: "Trace \<Rightarrow> string list" where
  "missingSignatures trace =
     filter (\<lambda>k. \<not> Contains (rawInput (mainCall (CallTrace trace))) k \<and> \<not> findSignature k (Calls (CallTrace trace)))
       (map fst (FourByte trace))"

definition checkForMissingCalls :: "abi_lib \<Rightarrow> hex_lib \<Rightarrow> (string, ABI) gomap \<Rightarrow> ContractMap \<Rightarrow> Trace \<Rightarrow> ContractMap \<times> DecodedCall list" where
  "checkForMissingCalls lib hx abis cm trace =
     (let expected = sum_list (map (\<lambda>(k, v). Times v) (FourByte trace));
          actual = countAllTracedCalls (Calls (CallTrace trace)) 1 in
      if expected - actual \<noteq> 0 then missed_calls lib hx abis cm (missingSignatures trace) else (cm, []))"

text \<open>The tracer's state: the contract map it shares, the traces and the decoded calls.\<close>

record Tracer =
  trMap :: ContractMap
  traces :: "(string, Trace) gomap"
  decodedCallsMap :: "(string, DecodedCall list) gomap"

definition empty_tracer :: "ContractMap \<Rightarrow> Tracer" where
  "empty_tracer cm = \<lparr>trMap = cm, traces = [], decodedCallsMap = []\<rparr>"

text \<open>\<open>NewTracer\<close> dials the first URL of the network with its dial timeout; \<open>dial\<close> is the RPC library.\<close>

definition NewTracer :: "(string \<Rightarrow> goerr option) \<Rightarrow> Config \<Rightarrow> ContractMap \<Rightarrow> Tracer res go" where
  "NewTracer dial cfg cm =
     go_bind (deref cfg (cfgNetwork cfg)) (\<lambda>n.
     if DialTimeout n = None then Panic ''nil pointer dereference''
     else go_bind (FirstNetworkURL cfg) (\<lambda>url.
       Ret (case dial url of
           Some err \<Rightarrow> Inl (ErrWrap (''failed to connect to '' @ quote_char @ url @ quote_char @ '' due to'') err)
         | None \<Rightarrow> Inr (empty_tracer cm))))"

definition getTrace :: "Tracer \<Rightarrow> string \<Rightarrow> Trace option" where
  "getTrace t txHashText = map_of (traces t) txHashText"

definition addTrace :: "string \<Rightarrow> Trace \<Rightarrow> Tracer \<Rightarrow> Tracer" where
  "addTrace txHashText trace t = t\<lparr>traces := gomap_put txHashText trace (traces t)\<rparr>"

definition GetDecodedCalls :: "Tracer \<Rightarrow> string \<Rightarrow> DecodedCall list" where
  "GetDecodedCalls t txHashText = (case map_of (decodedCallsMap t) txHashText of None \<Rightarrow> [] | Some cs \<Rightarrow> cs)"

definition AddDecodedCalls :: "string \<Rightarrow> DecodedCall list \<Rightarrow> Tracer \<Rightarrow> Tracer" where
  "AddDecodedCalls txHashText calls t = t\<lparr>decodedCallsMap := gomap_put txHashText calls (decodedCallsMap t)\<rparr>"

text \<open>
  \<open>DecodeTrace\<close>. The counter error of \<open>processCalls\<close> does not occur for the methods gathered from the same calls; on it
  the map keeps what the main call recorded.
\<close>

definition DecodeTrace ::
  "abi_lib \<Rightarrow> hex_lib \<Rightarrow> ContractStore option \<Rightarrow> address list \<Rightarrow> Tracer \<Rightarrow> Trace \<Rightarrow> (Tracer \<times> DecodedCall list res) go" where
  "DecodeTrace lib hx store addresses t trace =
     (case store of
        None \<Rightarrow> Ret (t, Inr [])
      | Some cs \<Rightarrow>
          (case getSignature (rawInput (mainCall (CallTrace trace))) of
             Inl err \<Rightarrow> Ret (t, Inl err)
           | Inr mainSig \<Rightarrow>
               (case gatherAllMethods (Calls (CallTrace trace)) [mainSig] of
                  Inl err \<Rightarrow> Ret (t, Inl err)
                | Inr methods \<Rightarrow>
                    (let dec = decodeCall lib hx (ABIs cs) addresses in
                     go_bind (dec (trMap t) (Hex2Bytes hx mainSig) (mainCall (CallTrace trace))) (\<lambda>(cm1, decodedMainCall, err).
                     case err of
                       Some e \<Rightarrow> Ret (t\<lparr>trMap := cm1\<rparr>, Inl e)
                     | None \<Rightarrow>
                         go_bind (processCalls dec hx methods 1 mainSig (Calls (CallTrace trace)) (cm1, 0, [decodedMainCall])) (\<lambda>r.
                         case r of
                           Inl e \<Rightarrow> Ret (t\<lparr>trMap := cm1\<rparr>, Inl e)
                         | Inr (cm2, _, decodedCalls) \<Rightarrow>
                             (let (cm3, missing) = checkForMissingCalls lib hx (ABIs cs) cm2 trace;
                                  allCalls = decodedCalls @ missing in
                              Ret (AddDecodedCalls (TxHash trace) allCalls (t\<lparr>trMap := cm3\<rparr>), Inr allCalls))))))))"

definition PrintTXTrace :: "Tracer \<Rightarrow> string \<Rightarrow> goerr option" where
  "PrintTXTrace t txHashText = (case getTrace t txHashText of None \<Rightarrow> Some (ErrNew ErrNoTrace) | Some _ \<Rightarrow> None)"

text \<open>
  \<open>TraceGethTX\<close>: the node's answers to the three tracers (the opcode trace is only stored, and a failed 4-byte trace leaves an
  empty map), then decoding the trace and drawing its graph with the tracer's configuration. The file of the graph, if one was created, is
  part of the result.
\<close>

definition TraceGethTX ::
  "abi_lib \<Rightarrow> hex_lib \<Rightarrow> ContractStore option \<Rightarrow> address list \<Rightarrow> (string, int) gomap res \<Rightarrow> TXCallTraceOutput res \<Rightarrow>
   dot_env \<Rightarrow> Config \<Rightarrow> string \<Rightarrow> goerr option \<Rightarrow> Tracer \<Rightarrow> (Tracer \<times> dot_file option \<times> goerr option) go" where
  "TraceGethTX lib hx store addresses fourByteAnswer callTraceAnswer denv cfg txHashText revertErr t =
     go_bind (trace4Byte fourByteAnswer) (\<lambda>fb.
     let fourByte = (case fb of Inl err \<Rightarrow> [] | Inr m \<Rightarrow> m) in
     case callTraceAnswer of
       Inl err \<Rightarrow> Ret (t, None, Some err)
     | Inr callTrace \<Rightarrow>
         (let trace = \<lparr>TxHash = txHashText, FourByte = fourByte, CallTrace = callTrace\<rparr>; t1 = addTrace txHashText trace t in
          go_bind (DecodeTrace lib hx store addresses t1 trace) (\<lambda>(t2, r).
          case r of
            Inl err \<Rightarrow> Ret (t2, None, Some err)
          | Inr decodedCalls \<Rightarrow>
              go_bind (if decodedCalls \<noteq> [] then generateDotGraph denv cfg decodedCalls revertErr else Ret (None, None)) (\<lambda>(graph, graphError).
              case graphError of
                Some err \<Rightarrow> Ret (t2, graph, Some err)
              | None \<Rightarrow> Ret (t2, graph, PrintTXTrace t2 txHashText)))))"

subsection \<open>Calls are decoded in order with their own selectors\<close>

text \<open>All calls of the trace in the order they are visited, with their nesting levels, and the selector of a call.\<close>

fun preorder :: "int \<Rightarrow> Call list \<Rightarrow> (int \<times> Call) list" where
  "preorder n [] = []"
| "preorder n (Call f g u i l out t ty v e sub # calls) =
     (n, Call f g u i l out t ty v e sub) # preorder (n + 1) sub @ preorder n calls"

definition selector :: "Call \<Rightarrow> string" where
  "selector c = take 8 (drop 2 (rawInput c))"

lemma map_snd_preorder: "map snd (preorder n calls) = map snd (preorder m calls)"
  by (induction n calls arbitrary: m rule: preorder.induct) (simp, metis (no_types, lifting) map_append preorder.simps(2) list.simps(9) snd_conv)

lemma gather_preorder:
  "gatherAllMethods calls ms = Inr ms' \<Longrightarrow> ms' = ms @ map (selector \<circ> snd) (preorder n calls)"
proof (induction calls ms arbitrary: ms' n rule: gatherAllMethods.induct)
  case (2 f g u i l out t ty v e sub calls ms)
  then obtain sig ms1 where s: "getSignature i = Inr sig" and m1: "gatherAllMethods sub (ms @ [sig]) = Inr ms1"
    and m2: "gatherAllMethods calls ms1 = Inr ms'"
    by (auto split: sum.splits)
  have "sig = take 8 (drop 2 i)" using s by (auto simp: getSignature_def split: if_splits)
  with 2(1) [OF s m1, of "n + 1"] 2(2) [OF s m1 m2, of n] show ?case by (simp add: selector_def)
qed simp

lemma count_preorder: "countAllTracedCalls calls k = k + int (length (preorder n calls))"
proof (induction calls k arbitrary: n rule: countAllTracedCalls.induct)
  case (2 f g u i l out t ty v e sub calls k)
  show ?case using 2(1) [of "n + 1"] 2(2) [of n] by simp
qed simp

text \<open>
  What go-ethereum documents: \<open>MethodById\<close> rejects less than four bytes and otherwise compares the first four with the
  identifier of the method; \<open>Hex2Bytes\<close> makes at most one byte of two characters, so at most four of a selector.
\<close>

definition method_ids_ok :: "abi_lib \<Rightarrow> bool" where
  "method_ids_ok lib \<longleftrightarrow> (\<forall>a sig m. MethodById lib a sig = Inr m \<longrightarrow> 4 \<le> length sig \<and> mID m = take 4 sig)"

definition hex_lengths_ok :: "hex_lib \<Rightarrow> bool" where
  "hex_lengths_ok hx \<longleftrightarrow> (\<forall>s. 2 * length (Hex2Bytes hx s) \<le> length s)"

lemma selector_bytes: "hex_lengths_ok hx \<Longrightarrow> length (Hex2Bytes hx (selector c)) \<le> 4"
proof -
  assume "hex_lengths_ok hx"
  then have "2 * length (Hex2Bytes hx (selector c)) \<le> length (selector c)" by (simp add: hex_lengths_ok_def)
  moreover have "length (selector c) \<le> 8" by (simp add: selector_def)
  ultimately show ?thesis by linarith
qed

text \<open>What decoding a call gives in any case: its own addresses and the selector that was asked for.\<close>

lemma FindABIByMethod_method:
  "FindABIByMethod f abis cm addr sig = (cm', Inr r) \<Longrightarrow> \<exists>a. f a sig = Inr (resMethod r)"
  by (force simp: FindABIByMethod_def Let_def dest: first_match_SomeD split: if_splits option.splits sum.splits prod.splits)

lemma decode_with_abi_fields:
  assumes "decode_with_abi lib hx r c0 raw = Ret (d, err)"
  shows "FromAddress d = FromAddress c0 \<and> ToAddress d = ToAddress c0 \<and> Signature d = Bytes2Hex hx (mID (resMethod r))"
  using assms
  by (auto simp: decode_with_abi_def Let_def go_bind_Ret_iff split: sum.splits if_splits)

lemma decodeCall_fields:
  assumes ids: "method_ids_ok lib" and len: "length sig \<le> 4" and run: "decodeCall lib hx abis addrs cm sig c = Ret (cm', d, err)"
  shows "FromAddress d = rawFrom c \<and> ToAddress d = rawTo c \<and> Signature d = Bytes2Hex hx sig"
proof -
  obtain cm1 r where f: "FindABIByMethod (MethodById lib) abis cm (rawTo c) sig = (cm1, r)" by fastforce
  show ?thesis
  proof (cases r)
    case (Inl e)
    with run f show ?thesis by (auto simp: decodeCall_def raw_decoded_def)
  next
    case (Inr ar)
    with f FindABIByMethod_method [of "MethodById lib" abis cm "rawTo c" sig cm1 ar] ids have "mID (resMethod ar) = sig"
      using len by (auto simp: method_ids_ok_def)
    with run f Inr show ?thesis
      by (auto simp: decodeCall_def go_bind_Ret_iff raw_decoded_def dest!: decode_with_abi_fields)
  qed
qed

text \<open>The contract maps that decoding calls, in whatever order, makes of a given one.\<close>

inductive decoding_reaches :: "abi_lib \<Rightarrow> hex_lib \<Rightarrow> (string, ABI) gomap \<Rightarrow> address list \<Rightarrow> ContractMap \<Rightarrow> ContractMap \<Rightarrow> bool"
  for lib hx abis addrs cm0 where
  start: "decoding_reaches lib hx abis addrs cm0 cm0"
| decode: "decoding_reaches lib hx abis addrs cm0 cm \<Longrightarrow> decodeCall lib hx abis addrs cm sig c = Ret (cm', d, err) \<Longrightarrow>
    decoding_reaches lib hx abis addrs cm0 cm'"

lemma processCalls_preorder:
  assumes dec: "\<And>cm c. I cm \<Longrightarrow> c \<in> snd ` set (preorder n calls) \<Longrightarrow>
      \<exists>cm' d. dec cm (Hex2Bytes hx (selector c)) c = Ret (cm', d, None) \<and> good (Hex2Bytes hx (selector c)) c d \<and> I cm'"
    and "I cm"
    and aligned: "drop (Suc k) methods = map (selector \<circ> snd) (preorder n calls) @ rest"
  shows "\<exists>cm' ds. I cm' \<and> processCalls dec hx methods n parent calls (cm, k, out) =
      Ret (Inr (cm', k + length (preorder n calls), out @ ds)) \<and>
    list_all2 (\<lambda>(lvl, c) d. \<exists>d0 p. good (Hex2Bytes hx (selector c)) c d0 \<and>
      d = d0\<lparr>NestingLevel := lvl, ParentSignature := p\<rparr>) (preorder n calls) ds"
  using assms
proof (induction n calls arbitrary: k rest parent cm out rule: preorder.induct)
  case (1 n)
  then show ?case by simp
next
  case (2 n f g u i l out' t ty v e sub calls)
  let ?c = "Call f g u i l out' t ty v e sub"
  have sel: "drop (Suc k) methods = selector ?c # map (selector \<circ> snd) (preorder (n + 1) sub) @
      (map (selector \<circ> snd) (preorder n calls) @ rest)"
    using 2(5) by (simp add: selector_def)
  then have k: "Suc k < length methods" "methods ! Suc k = selector ?c"
    by (metis drop_eq_Nil list.distinct(1) not_le_imp_less, metis drop_eq_Nil list.distinct(1) not_le_imp_less nth_via_drop)
  have tail: "drop (Suc (Suc k)) methods = map (selector \<circ> snd) (preorder (n + 1) sub) @
      (map (selector \<circ> snd) (preorder n calls) @ rest)"
    using sel by (metis drop_Suc list.sel(3) tl_drop)
  obtain cm1 d where d: "dec cm (Hex2Bytes hx (selector ?c)) ?c = Ret (cm1, d, None)" "good (Hex2Bytes hx (selector ?c)) ?c d" "I cm1"
    using 2(3) [of cm ?c] 2(4) by auto
  let ?d = "d\<lparr>NestingLevel := n, ParentSignature := parent\<rparr>"
  have "\<exists>cm2 ds. I cm2 \<and> processCalls dec hx methods (n + 1) (selector ?c) sub (cm1, Suc k, out @ [?d]) =
      Ret (Inr (cm2, Suc k + length (preorder (n + 1) sub), (out @ [?d]) @ ds)) \<and>
    list_all2 (\<lambda>(lvl, c) d. \<exists>d0 p. good (Hex2Bytes hx (selector c)) c d0 \<and>
      d = d0\<lparr>NestingLevel := lvl, ParentSignature := p\<rparr>) (preorder (n + 1) sub) ds"
  proof (rule 2(1) [OF _ d(3) tail])
    fix cm c assume I: "I cm" and "c \<in> snd ` set (preorder (n + 1) sub)"
    then have "c \<in> snd ` set (preorder n (?c # calls))" by auto
    with I show "\<exists>cm' d. dec cm (Hex2Bytes hx (selector c)) c = Ret (cm', d, None) \<and> good (Hex2Bytes hx (selector c)) c d \<and> I cm'"
      by (rule 2(3))
  qed
  then obtain cm2 ds where s: "processCalls dec hx methods (n + 1) (selector ?c) sub (cm1, Suc k, out @ [?d]) =
      Ret (Inr (cm2, Suc k + length (preorder (n + 1) sub), (out @ [?d]) @ ds))"
    "list_all2 (\<lambda>(lvl, c) d. \<exists>d0 p. good (Hex2Bytes hx (selector c)) c d0 \<and>
      d = d0\<lparr>NestingLevel := lvl, ParentSignature := p\<rparr>) (preorder (n + 1) sub) ds" "I cm2" by blast
  have "drop (Suc (Suc k + length (preorder (n + 1) sub))) methods = map (selector \<circ> snd) (preorder n calls) @ rest"
    using tail by (metis add_Suc append_eq_conv_conj drop_drop length_map add.commute)
  moreover have "\<exists>cm' d. dec cm (Hex2Bytes hx (selector c)) c = Ret (cm', d, None) \<and> good (Hex2Bytes hx (selector c)) c d \<and> I cm'"
    if "I cm" "c \<in> snd ` set (preorder n calls)" for cm c
    by (rule 2(3)) (use that in auto)
  ultimately
  obtain cm3 ds' where r: "processCalls dec hx methods n parent calls (cm2, Suc k + length (preorder (n + 1) sub), (out @ [?d]) @ ds) =
      Ret (Inr (cm3, Suc k + length (preorder (n + 1) sub) + length (preorder n calls), ((out @ [?d]) @ ds) @ ds'))"
    "list_all2 (\<lambda>(lvl, c) d. \<exists>d0 p. good (Hex2Bytes hx (selector c)) c d0 \<and>
      d = d0\<lparr>NestingLevel := lvl, ParentSignature := p\<rparr>) (preorder n calls) ds'" "I cm3"
    using 2(2) [of cm2 "Suc k + length (preorder (n + 1) sub)" rest parent "(out @ [?d]) @ ds"] s(3) by blast
  have "processCalls dec hx methods n parent (?c # calls) (cm, k, out) =
      Ret (Inr (cm3, k + length (preorder n (?c # calls)), out @ (?d # ds @ ds')))"
    using k d(1) s(1) r(1) by (cases "sub = []") (simp_all add: Let_def)
  moreover have "list_all2 (\<lambda>(lvl, c) d. \<exists>d0 p. good (Hex2Bytes hx (selector c)) c d0 \<and>
      d = d0\<lparr>NestingLevel := lvl, ParentSignature := p\<rparr>) (preorder n (?c # calls)) (?d # ds @ ds')"
    using d(2) s(2) r(2) by (auto intro: list_all2_appendI)
  ultimately show ?case using r(3) by blast
qed

abbreviation call_summary :: "DecodedCall \<Rightarrow> string \<times> string \<times> string" where
  "call_summary d \<equiv> (FromAddress d, ToAddress d, Signature d)"

text \<open>Decoding all calls of a list, with the methods gathered from it and whatever follows it.\<close>

lemma process_in_order:
  assumes ids: "method_ids_ok lib" "hex_lengths_ok hx"
    and aligned: "drop (Suc k) methods = map (selector \<circ> snd) (preorder 1 calls) @ rest"
    and clean: "\<And>cm c. decoding_reaches lib hx abis addrs cm0 cm \<Longrightarrow> c \<in> snd ` set (preorder 1 calls) \<Longrightarrow>
      \<exists>cm' d. decodeCall lib hx abis addrs cm (Hex2Bytes hx (selector c)) c = Ret (cm', d, None)"
    and cm: "decoding_reaches lib hx abis addrs cm0 cm"
  shows "\<exists>cm' ds. decoding_reaches lib hx abis addrs cm0 cm' \<and> processCalls (decodeCall lib hx abis addrs) hx methods 1 mainSig calls (cm, k, out) =
      Ret (Inr (cm', k + length (preorder 1 calls), out @ ds)) \<and>
    map (\<lambda>d. (NestingLevel d, call_summary d)) ds =
      map (\<lambda>(lvl, c). (lvl, rawFrom c, rawTo c, Bytes2Hex hx (Hex2Bytes hx (selector c)))) (preorder 1 calls)"
proof -
  define good where "good sig c d \<longleftrightarrow> FromAddress d = rawFrom c \<and> ToAddress d = rawTo c \<and> Signature d = Bytes2Hex hx sig"
    for sig c and d :: DecodedCall
  have dec: "\<exists>cm' d. decodeCall lib hx abis addrs cm (Hex2Bytes hx (selector c)) c = Ret (cm', d, None) \<and> good (Hex2Bytes hx (selector c)) c d \<and>
      decoding_reaches lib hx abis addrs cm0 cm'"
    if I: "decoding_reaches lib hx abis addrs cm0 cm" and c: "c \<in> snd ` set (preorder 1 calls)" for cm c
  proof -
    obtain cm' d where d: "decodeCall lib hx abis addrs cm (Hex2Bytes hx (selector c)) c = Ret (cm', d, None)" using clean [OF I c] by blast
    with decodeCall_fields [OF ids(1) selector_bytes [OF ids(2)] d] decoding_reaches.decode [OF I d] show ?thesis
      unfolding good_def by blast
  qed
  obtain cm' ds where r: "processCalls (decodeCall lib hx abis addrs) hx methods 1 mainSig calls (cm, k, out) =
      Ret (Inr (cm', k + length (preorder 1 calls), out @ ds))"
    "list_all2 (\<lambda>(lvl, c) d. \<exists>d0 p. good (Hex2Bytes hx (selector c)) c d0 \<and>
      d = d0\<lparr>NestingLevel := lvl, ParentSignature := p\<rparr>) (preorder 1 calls) ds"
    "decoding_reaches lib hx abis addrs cm0 cm'"
    using processCalls_preorder [where n = 1 and calls = calls and good = good and dec = "decodeCall lib hx abis addrs"
        and I = "decoding_reaches lib hx abis addrs cm0", OF dec cm aligned, where parent = mainSig and out = out] by auto
  have "map (\<lambda>d. (NestingLevel d, call_summary d)) ds =
      map (\<lambda>(lvl, c). (lvl, rawFrom c, rawTo c, Bytes2Hex hx (Hex2Bytes hx (selector c)))) (preorder 1 calls)"
    using r(2) by (induction rule: list_all2_induct) (auto simp: good_def)
  with r(1,3) show ?thesis by auto
qed

text \<open>
  What is appended for a selector of the 4-byte trace that no call of the trace has: a call from an unknown sender, with the selector and
  the name of a method with it from the store, or the fixed unknown call.
\<close>

definition reports_missing :: "abi_lib \<Rightarrow> hex_lib \<Rightarrow> string \<Rightarrow> DecodedCall \<Rightarrow> bool" where
  "reports_missing lib hx k d \<longleftrightarrow> d = unknownCall \<or>
     (FromAddress d = UNKNOWN \<and> Signature d = k \<and>
      (\<exists>a m. MethodById lib a (Hex2Bytes hx (TrimPrefix k ''0x'')) = Inr m \<and> cdMethod d = mName m))"

lemma missed_calls_reports: "list_all2 (reports_missing lib hx) ks (snd (missed_calls lib hx abis cm ks))"
proof (induction ks arbitrary: cm)
  case (Cons k ks)
  obtain cm' r where f: "FindABIByMethod (MethodById lib) abis cm UNKNOWN (Hex2Bytes hx (TrimPrefix k ''0x'')) = (cm', r)" by fastforce
  obtain cm2 cs where m: "missed_calls lib hx abis cm' ks = (cm2, cs)" by fastforce
  have IH: "list_all2 (reports_missing lib hx) ks cs" using Cons [of cm'] m by simp
  show ?case
  proof (cases r)
    case (Inl e)
    have "reports_missing lib hx k unknownCall" by (simp add: reports_missing_def)
    then show ?thesis using IH by (simp add: f m Inl)
  next
    case (Inr ar)
    have "reports_missing lib hx k (missing_call cm' k ar)"
      using FindABIByMethod_method [OF f [unfolded Inr]]
      by (auto simp: reports_missing_def missing_call_def CommonData.extend_def DecodedCall.fields_def)
    then show ?thesis using IH by (simp add: f m Inr)
  qed
qed simp

text \<open>
  C7. If no call of a trace has a malformed output (with any contract map that decoding calls can reach), \<open>DecodeTrace\<close> returns the main call, then every nested call in the
  order of the trace, each with its own addresses, selector and nesting level, and then exactly what
  \<open>checkForMissingCalls\<close> makes of the 4-byte trace: nothing when it counts as many calls as the call trace has, and otherwise one entry for
  each of its selectors that occurs in no call, in their order. The tracer remembers exactly this list.
\<close>

theorem trace_decoded_in_order:
  assumes ids: "method_ids_ok lib" "hex_lengths_ok hx" and main: "getSignature (rawInput (mainCall (CallTrace trace))) = Inr mainSig"
    and gather: "gatherAllMethods (Calls (CallTrace trace)) [mainSig] = Inr methods"
    and clean: "\<And>cm c. decoding_reaches lib hx (ABIs cs) addrs (trMap t) cm \<Longrightarrow>
      c \<in> insert (mainCall (CallTrace trace)) (snd ` set (preorder 1 (Calls (CallTrace trace)))) \<Longrightarrow>
      \<exists>cm' d. decodeCall lib hx (ABIs cs) addrs cm (Hex2Bytes hx (selector c)) c = Ret (cm', d, None)"
  shows "\<exists>t' d0 ds missing cm. DecodeTrace lib hx (Some cs) addrs t trace = Ret (t', Inr (d0 # ds @ missing)) \<and>
    GetDecodedCalls t' (TxHash trace) = d0 # ds @ missing \<and>
    call_summary d0 = (rawFrom (mainCall (CallTrace trace)), rawTo (mainCall (CallTrace trace)), Bytes2Hex hx (Hex2Bytes hx mainSig)) \<and>
    map (\<lambda>d. (NestingLevel d, call_summary d)) ds =
      map (\<lambda>(lvl, c). (lvl, rawFrom c, rawTo c, Bytes2Hex hx (Hex2Bytes hx (selector c)))) (preorder 1 (Calls (CallTrace trace))) \<and>
    checkForMissingCalls lib hx (ABIs cs) cm trace = (trMap t', missing) \<and>
    (if (\<Sum>(k, v) \<leftarrow> FourByte trace. Times v) = 1 + int (length ds) then missing = []
     else list_all2 (reports_missing lib hx) (missingSignatures trace) missing)"
proof -
  let ?main = "mainCall (CallTrace trace)" and ?calls = "Calls (CallTrace trace)"
  have mainSig: "mainSig = selector ?main" using main by (auto simp: getSignature_def selector_def split: if_splits)
  obtain cm1 d0 where d0: "decodeCall lib hx (ABIs cs) addrs (trMap t) (Hex2Bytes hx mainSig) ?main = Ret (cm1, d0, None)"
    using clean [OF decoding_reaches.start, of ?main] unfolding mainSig by blast
  have aligned: "drop (Suc 0) methods = map (selector \<circ> snd) (preorder 1 ?calls) @ []" using gather_preorder [OF gather, of 1] by simp
  obtain cm2 ds where ds: "processCalls (decodeCall lib hx (ABIs cs) addrs) hx methods 1 mainSig ?calls (cm1, 0, [d0]) =
      Ret (Inr (cm2, 0 + length (preorder 1 ?calls), [d0] @ ds))"
    "map (\<lambda>d. (NestingLevel d, call_summary d)) ds =
      map (\<lambda>(lvl, c). (lvl, rawFrom c, rawTo c, Bytes2Hex hx (Hex2Bytes hx (selector c)))) (preorder 1 ?calls)"
    using process_in_order [OF ids aligned _ decoding_reaches.decode [OF decoding_reaches.start d0], where out = "[d0]"] clean by blast
  obtain cm3 missing where m: "checkForMissingCalls lib hx (ABIs cs) cm2 trace = (cm3, missing)" by fastforce
  let ?t = "AddDecodedCalls (TxHash trace) (d0 # ds @ missing) (t\<lparr>trMap := cm3\<rparr>)"
  have run: "DecodeTrace lib hx (Some cs) addrs t trace = Ret (?t, Inr (d0 # ds @ missing))"
    using d0 ds(1) m by (simp add: DecodeTrace_def main gather Let_def)
  have mem: "GetDecodedCalls ?t (TxHash trace) = d0 # ds @ missing" "trMap ?t = cm3"
    by (simp_all add: GetDecodedCalls_def AddDecodedCalls_def update_conv')
  have "length ds = length (preorder 1 ?calls)" using arg_cong [OF ds(2), of length] by simp
  then have "countAllTracedCalls ?calls 1 = 1 + int (length ds)" by (simp add: count_preorder)
  then have "if (\<Sum>(k, v) \<leftarrow> FourByte trace. Times v) = 1 + int (length ds) then missing = []
     else list_all2 (reports_missing lib hx) (missingSignatures trace) missing"
    using m missed_calls_reports [of lib hx "missingSignatures trace" "ABIs cs" cm2] by (auto simp: checkForMissingCalls_def Let_def)
  with run mem m ds(2) decodeCall_fields [OF ids(1) _ d0] selector_bytes [OF ids(2), of ?main] mainSig show ?thesis
    by (intro exI [of _ ?t] exI [of _ d0] exI [of _ ds] exI [of _ missing] exI [of _ cm2]) simp
qed

definition ex_hex :: hex_lib where
  "ex_hex = \<lparr>Hex2Bytes = (\<lambda>s. case hex_DecodeString s of Inl err \<Rightarrow> [] | Inr bs \<Rightarrow> bs), Bytes2Hex = hex_EncodeToString,
     hexutil_Decode = (\<lambda>s. Inl (ErrNew ''bad'')),
     HexToAddr = (\<lambda>s. []), HexToHash = (\<lambda>s. []), hashText = (\<lambda>h. []), addrText = (\<lambda>a. [])\<rparr>"

lemma ex_hex_ok: "hex_lengths_ok ex_hex"
  by (auto simp: hex_lengths_ok_def ex_hex_def split: sum.splits dest: hex_Decode_length)

definition ex_call :: "string \<Rightarrow> string \<Rightarrow> Call list \<Rightarrow> Call" where
  "ex_call input output sub = Call ''f'' [] [] input [] output ''t'' ''CALL'' [] [] sub"

text \<open>Three calls; the 4-byte trace has a fourth.\<close>

definition ex_trace :: Trace where
  "ex_trace = \<lparr>TxHash = ''h'', FourByte = [(''0xbbbbbbbb'', \<lparr>CallSize = 0, Times = 1\<rparr>), (''0xdddddddd'', \<lparr>CallSize = 0, Times = 1\<rparr>)],
     CallTrace = \<lparr>mainCall = ex_call ''0xaaaaaaaa'' [] [],
     Calls = [ex_call ''0xbbbbbbbb'' [] [ex_call ''0xcccccccc'' [] []]]\<rparr>\<rparr>"

definition ex_abi_lib2 :: abi_lib where
  "ex_abi_lib2 = ex_abi_lib\<lparr>MethodById := (\<lambda>a s. if length s < 4 then Inl (ErrNew ''data too short'')
     else Inr \<lparr>mName = ''transfer'', mSig = [], mID = take 4 s, mInputs = [], mOutputs = []\<rparr>)\<rparr>"

definition ex_abis :: "(string, ABI) gomap" where
  "ex_abis = [(''X.abi'', \<lparr>Events = [], Errors = []\<rparr>)]"

lemma ex_ids: "method_ids_ok ex_abi_lib2"
  by (auto simp: method_ids_ok_def ex_abi_lib2_def split: if_splits)

lemma ex_succeeds: "\<exists>cm2 dc. decodeCall ex_abi_lib2 ex_hex ex_abis [] cm sig (ex_call i [] sub) = Ret (cm2, dc, None)"
proof -
  obtain cm1 r where f: "FindABIByMethod (MethodById ex_abi_lib2) ex_abis cm (rawTo (ex_call i [] sub)) sig = (cm1, r)" by fastforce
  show ?thesis
    by (cases r) (simp_all add: decodeCall_def f, simp add: decode_with_abi_def ex_call_def Let_def)
qed

theorem trace_decoded_in_order_witness:
  "\<exists>t' d0 ds d. DecodeTrace ex_abi_lib2 ex_hex (Some \<lparr>ABIs = ex_abis, BINs = []\<rparr>) [] (empty_tracer NewEmptyContractMap) ex_trace =
      Ret (t', Inr (d0 # ds @ [d])) \<and> map NestingLevel ds = [1, 2] \<and> reports_missing ex_abi_lib2 ex_hex ''0xdddddddd'' d"
proof -
  let ?cs = "\<lparr>ABIs = ex_abis, BINs = []\<rparr> :: ContractStore"
  have main: "getSignature (rawInput (mainCall (CallTrace ex_trace))) = Inr ''aaaaaaaa''"
    and gather: "gatherAllMethods (Calls (CallTrace ex_trace)) [''aaaaaaaa''] = Inr [''aaaaaaaa'', ''bbbbbbbb'', ''cccccccc'']"
    by (simp_all add: getSignature_def ex_trace_def ex_call_def)
  have clean: "\<exists>cm' d. decodeCall ex_abi_lib2 ex_hex (ABIs ?cs) [] cm (Hex2Bytes ex_hex (selector c)) c = Ret (cm', d, None)"
    if "decoding_reaches ex_abi_lib2 ex_hex (ABIs ?cs) [] (trMap (empty_tracer NewEmptyContractMap)) cm"
      "c \<in> insert (mainCall (CallTrace ex_trace)) (snd ` set (preorder 1 (Calls (CallTrace ex_trace))))" for cm c
    using that(2) ex_succeeds by (auto simp: ex_trace_def ex_call_def)
  have missed: "missingSignatures ex_trace = [''0xdddddddd'']" by code_simp
  have times: "(\<Sum>(k, v) \<leftarrow> FourByte ex_trace. Times v) = 2" by (simp add: ex_trace_def)
  obtain t' d0 ds missing where r: "DecodeTrace ex_abi_lib2 ex_hex (Some ?cs) [] (empty_tracer NewEmptyContractMap) ex_trace =
      Ret (t', Inr (d0 # ds @ missing))"
    and m: "map (\<lambda>d. (NestingLevel d, call_summary d)) ds =
      map (\<lambda>(lvl, c). (lvl, rawFrom c, rawTo c, Bytes2Hex ex_hex (Hex2Bytes ex_hex (selector c)))) (preorder 1 (Calls (CallTrace ex_trace)))"
    and rest: "if (\<Sum>(k, v) \<leftarrow> FourByte ex_trace. Times v) = 1 + int (length ds) then missing = []
     else list_all2 (reports_missing ex_abi_lib2 ex_hex) (missingSignatures ex_trace) missing"
    using trace_decoded_in_order [OF ex_ids ex_hex_ok main gather clean] by blast
  have "map NestingLevel ds = map fst (map (\<lambda>d. (NestingLevel d, call_summary d)) ds)" by simp
  also have "\<dots> = [1, 2]" unfolding m by (simp add: ex_trace_def ex_call_def)
  finally have lvl: "map NestingLevel ds = [1, 2]" .
  then have "length (map NestingLevel ds) = 2" by (simp only:) simp
  then have "length ds = 2" by simp
  then obtain d where "missing = [d]" "reports_missing ex_abi_lib2 ex_hex ''0xdddddddd'' d"
    using rest times missed by (auto simp: list_all2_Cons1)
  with r lvl show ?thesis by (intro exI [of _ t'] exI [of _ d0] exI [of _ ds] exI [of _ d]) simp
qed

subsection \<open>After a call that cannot be decoded\<close>

lemma processCalls_append:
  "processCalls dec hx methods n parent (xs @ ys) st =
     go_bind (processCalls dec hx methods n parent xs st) (\<lambda>r. case r of
       Inl err \<Rightarrow> Ret (Inl err) | Inr st' \<Rightarrow> processCalls dec hx methods n parent ys st')"
proof (induction xs arbitrary: st)
  case (Cons x xs)
  obtain f g u i l o1 t ty v e sub where x: "x = Call f g u i l o1 t ty v e sub" by (cases x)
  obtain cm k out where st: "st = (cm, k, out)" by (cases st)
  show ?case
  proof (cases "Suc k < length methods")
    case True
    show ?thesis
    proof (cases "dec cm (Hex2Bytes hx (methods ! Suc k)) x")
      case (Ret r)
      obtain cm' d err where r: "r = (cm', d, err)" by (cases r)
      show ?thesis
      proof (cases err)
        case None
        let ?p = "processCalls dec hx methods (n + 1) (methods ! Suc k) sub (cm', Suc k, out @ [d\<lparr>NestingLevel := n, ParentSignature := parent\<rparr>])"
        have "go_bind ?p (\<lambda>r. case r of Inl err \<Rightarrow> Ret (Inl err) | Inr st' \<Rightarrow> processCalls dec hx methods n parent (xs @ ys) st') =
          go_bind (go_bind ?p (\<lambda>r. case r of Inl err \<Rightarrow> Ret (Inl err) | Inr st' \<Rightarrow> processCalls dec hx methods n parent xs st'))
            (\<lambda>r. case r of Inl err \<Rightarrow> Ret (Inl err) | Inr st' \<Rightarrow> processCalls dec hx methods n parent ys st')"
        proof (cases ?p)
          case (Ret q)
          then show ?thesis by (cases q) (simp_all add: Cons)
        qed simp_all
        then show ?thesis using True Ret r None unfolding x st by (simp add: Let_def Cons)
      next
        case (Some e)
        then show ?thesis using True Ret r unfolding x st by (simp add: Let_def Cons)
      qed
    qed (use True in \<open>simp_all add: x st Let_def\<close>)
  qed (simp add: x st)
qed simp

text \<open>One call of the loop: it stops at the counter, or appends an entry and goes on, below a decoded call first.\<close>

lemma processCalls_ConsE:
  assumes "processCalls dec hx methods n parent (c # calls) (cm, k, out) = Ret (Inr st')"
  obtains (failed) cm1 d err where "dec cm (Hex2Bytes hx (methods ! Suc k)) c = Ret (cm1, d, Some err)"
      "processCalls dec hx methods n parent calls (cm1, Suc k, out @ [failed_call c]) = Ret (Inr st')"
  | (decoded) cm1 d st1 where "dec cm (Hex2Bytes hx (methods ! Suc k)) c = Ret (cm1, d, None)"
      "processCalls dec hx methods (n + 1) (methods ! Suc k) (rawCalls c)
         (cm1, Suc k, out @ [d\<lparr>NestingLevel := n, ParentSignature := parent\<rparr>]) = Ret (Inr st1)"
      "processCalls dec hx methods n parent calls st1 = Ret (Inr st')"
proof -
  obtain f g u i l o1 t ty v e sub where c: "c = Call f g u i l o1 t ty v e sub" by (cases c)
  have k: "Suc k < length methods" using assms unfolding c by (simp split: if_splits)
  then obtain cm1 d err where dec: "dec cm (Hex2Bytes hx (methods ! Suc k)) c = Ret (cm1, d, err)"
    using assms unfolding c by (auto simp: Let_def go_bind_Ret_iff)
  show ?thesis
  proof (cases err)
    case (Some e)
    then show ?thesis using assms k dec failed unfolding c by (simp add: Let_def)
  next
    case None
    let ?st = "(cm1, Suc k, out @ [d\<lparr>NestingLevel := n, ParentSignature := parent\<rparr>])"
    have "\<exists>st1. processCalls dec hx methods (n + 1) (methods ! Suc k) sub ?st = Ret (Inr st1) \<and>
      processCalls dec hx methods n parent calls st1 = Ret (Inr st')"
    proof (cases "sub = []")
      case True
      then show ?thesis using assms k dec None unfolding c by (simp add: Let_def)
    next
      case False
      then obtain r where "processCalls dec hx methods (n + 1) (methods ! Suc k) sub ?st = Ret r"
        "(case r of Inl err \<Rightarrow> Ret (Inl err) | Inr st1 \<Rightarrow> processCalls dec hx methods n parent calls st1) = Ret (Inr st')"
        using assms k dec None unfolding c by (auto simp: Let_def go_bind_Ret_iff)
      then show ?thesis by (cases r) auto
    qed
    then show ?thesis using decoded dec None by (auto simp: c)
  qed
qed

lemma processCalls_extends:
  "processCalls dec hx methods n parent calls st = Ret (Inr st') \<Longrightarrow> \<exists>ds. snd (snd st') = snd (snd st) @ ds"
proof (induction n calls arbitrary: parent st st' rule: preorder.induct)
  case (2 n f g u i l o1 t ty v e sub calls)
  obtain cm k out where st: "st = (cm, k, out)" by (cases st)
  from "2.prems" [unfolded st] show ?case
  proof (cases rule: processCalls_ConsE)
    case failed
    from "2.IH"(2) [OF failed(2)] show ?thesis by (auto simp: st)
  next
    case (decoded cm1 d st1)
    from "2.IH"(1) [OF decoded(2) [simplified]] "2.IH"(2) [OF decoded(3)] show ?thesis by (auto simp: st)
  qed
qed simp

lemma processCalls_head:
  assumes "processCalls dec hx methods n parent (c # calls) (cm, k, out) = Ret (Inr (cm', k', out'))"
    and "dec cm (Hex2Bytes hx (methods ! Suc k)) c = Ret (cm1, d, None)"
  shows "\<exists>more. out' = out @ d\<lparr>NestingLevel := n, ParentSignature := parent\<rparr> # more"
  using assms(1)
proof (cases rule: processCalls_ConsE)
  case failed
  then show ?thesis using assms(2) by simp
next
  case (decoded cm2 d' st1)
  from processCalls_extends [OF decoded(2)] processCalls_extends [OF decoded(3)] show ?thesis using assms(2) decoded(1) by auto
qed

lemma DecodeTrace_okE:
  assumes "DecodeTrace lib hx (Some cs) addrs t trace = Ret (t', Inr decoded)"
  obtains mainSig methods cm1 d0 cm2 k decoded' missing where "decoding_reaches lib hx (ABIs cs) addrs (trMap t) cm1" and "gatherAllMethods (Calls (CallTrace trace)) [mainSig] = Inr methods"
    and "processCalls (decodeCall lib hx (ABIs cs) addrs) hx methods 1 mainSig (Calls (CallTrace trace)) (cm1, 0, [d0]) =
      Ret (Inr (cm2, k, decoded'))"
    and "decoded = decoded' @ missing" and "GetDecodedCalls t' (TxHash trace) = decoded"
proof -
  obtain mainSig methods where g: "getSignature (rawInput (mainCall (CallTrace trace))) = Inr mainSig"
    "gatherAllMethods (Calls (CallTrace trace)) [mainSig] = Inr methods"
    using assms by (auto simp: DecodeTrace_def split: sum.splits)
  obtain cm1 d0 where d0: "decodeCall lib hx (ABIs cs) addrs (trMap t) (Hex2Bytes hx mainSig) (mainCall (CallTrace trace)) = Ret (cm1, d0, None)"
    using assms g by (auto simp: DecodeTrace_def Let_def go_bind_Ret_iff split: option.splits)
  obtain r where r: "processCalls (decodeCall lib hx (ABIs cs) addrs) hx methods 1 mainSig (Calls (CallTrace trace)) (cm1, 0, [d0]) = Ret r"
    using assms g d0 by (auto simp: DecodeTrace_def Let_def go_bind_Ret_iff)
  obtain cm2 k decoded' where s: "r = Inr (cm2, k, decoded')"
    using assms g d0 r by (cases r) (auto simp: DecodeTrace_def Let_def)
  obtain cm3 missing where "checkForMissingCalls lib hx (ABIs cs) cm2 trace = (cm3, missing)" by fastforce
  then have "decoded = decoded' @ missing" "GetDecodedCalls t' (TxHash trace) = decoded"
    using assms g d0 r s by (auto simp: DecodeTrace_def Let_def GetDecodedCalls_def AddDecodedCalls_def update_conv')
  then show ?thesis using that decoding_reaches.decode [OF decoding_reaches.start d0] g r s by blast
qed

lemma DecodeTrace_remembers:
  assumes "DecodeTrace lib hx (Some cs) addrs t trace = Ret (t', Inr decoded)"
  shows "decoded \<noteq> [] \<and> GetDecodedCalls t' (TxHash trace) = decoded"
proof -
  obtain mainSig methods cm1 d0 cm2 k decoded' missing where
    "processCalls (decodeCall lib hx (ABIs cs) addrs) hx methods 1 mainSig (Calls (CallTrace trace)) (cm1, 0, [d0]) = Ret (Inr (cm2, k, decoded'))"
    "decoded = decoded' @ missing" "GetDecodedCalls t' (TxHash trace) = decoded"
    by (rule DecodeTrace_okE [OF assms])
  then show ?thesis using processCalls_extends by fastforce
qed

text \<open>
  C37. A top-level call whose output is malformed desynchronises the decoding of the trace. Take the first such call: all before it
  are decoded, it has nested calls, and another top-level call follows. Its nested calls are skipped, but their
  selectors are not, so the next top-level call, if it is decoded, appears with its own addresses and the selector of the
  first skipped call. What comes before and after is arbitrary otherwise.
\<close>

theorem trace_misattributes_after_failure:
  assumes ids: "method_ids_ok lib" "hex_lengths_ok hx"
    and calls: "Calls (CallTrace trace) = before @ a # c # after" and sub: "rawCalls a = b # bs"
    and clean: "\<And>cm x. decoding_reaches lib hx (ABIs cs) addrs (trMap t) cm \<Longrightarrow> x \<in> snd ` set (preorder 1 before) \<Longrightarrow>
      \<exists>cm' d. decodeCall lib hx (ABIs cs) addrs cm (Hex2Bytes hx (selector x)) x = Ret (cm', d, None)"
    and fails: "\<And>cm. decoding_reaches lib hx (ABIs cs) addrs (trMap t) cm \<Longrightarrow>
      \<exists>cm' d err. decodeCall lib hx (ABIs cs) addrs cm (Hex2Bytes hx (selector a)) a = Ret (cm', d, Some err)"
    and next_call: "\<And>cm. decoding_reaches lib hx (ABIs cs) addrs (trMap t) cm \<Longrightarrow>
      \<exists>cm' d. decodeCall lib hx (ABIs cs) addrs cm (Hex2Bytes hx (selector b)) c = Ret (cm', d, None)"
    and run: "DecodeTrace lib hx (Some cs) addrs t trace = Ret (t', Inr decoded)"
  shows "\<exists>d0 ds d more. decoded = d0 # ds @ failed_call a # d # more \<and> length ds = length (preorder 1 before) \<and>
    FromAddress d = rawFrom c \<and> ToAddress d = rawTo c \<and> Signature d = Bytes2Hex hx (Hex2Bytes hx (selector b))"
proof -
  let ?dec = "decodeCall lib hx (ABIs cs) addrs"
  obtain mainSig methods cm1 d0 cm2 k decoded' missing where cm1: "decoding_reaches lib hx (ABIs cs) addrs (trMap t) cm1"
    and gather: "gatherAllMethods (before @ a # c # after) [mainSig] = Inr methods"
    and p: "processCalls ?dec hx methods 1 mainSig (before @ a # c # after) (cm1, 0, [d0]) = Ret (Inr (cm2, k, decoded'))"
    and decoded: "decoded = decoded' @ missing"
    by (rule DecodeTrace_okE [OF run, unfolded calls])
  obtain f g u i l o1 ty v e tt where a: "a = Call f g u i l o1 tt ty v e (b # bs)" using sub by (cases a) auto
  obtain f' g' u' i' l' o' t1 ty' v' e' sub' where c: "c = Call f' g' u' i' l' o' t1 ty' v' e' sub'" by (cases c) auto
  obtain s where s: "preorder 2 (b # bs) = (2, b) # s" by (cases b) simp
  have pre_app: "preorder n (xs @ ys) = preorder n xs @ preorder n ys" for n xs ys
    by (induction n xs rule: preorder.induct) simp_all
  let ?K = "length (preorder 1 before)"
  obtain rest where m: "drop (Suc 0) methods = map (selector \<circ> snd) (preorder 1 before) @ selector a # selector b # rest"
    using gather_preorder [OF gather, of 1] s unfolding pre_app by (simp add: a)
  obtain cm3 ds where before: "processCalls ?dec hx methods 1 mainSig before (cm1, 0, [d0]) = Ret (Inr (cm3, 0 + ?K, [d0] @ ds))"
    "length ds = ?K" and cm3: "decoding_reaches lib hx (ABIs cs) addrs (trMap t) cm3"
    using process_in_order [OF ids m clean cm1, where mainSig = mainSig and out = "[d0]"] map_eq_imp_length_eq by blast
  have nth: "methods ! Suc ?K = selector a" "methods ! Suc (Suc ?K) = selector b" "Suc (Suc ?K) < length methods"
  proof -
    obtain m0 where "methods = m0 # map (selector \<circ> snd) (preorder 1 before) @ selector a # selector b # rest"
      using m by (cases methods) auto
    then show "methods ! Suc ?K = selector a" "methods ! Suc (Suc ?K) = selector b" "Suc (Suc ?K) < length methods"
      by (simp_all add: nth_append)
  qed
  obtain cm4 da err where fa: "?dec cm3 (Hex2Bytes hx (selector a)) a = Ret (cm4, da, Some err)" using fails [OF cm3] by blast
  obtain cm5 dc where dc: "?dec cm4 (Hex2Bytes hx (selector b)) c = Ret (cm5, dc, None)"
    using next_call [OF decoding_reaches.decode [OF cm3 fa]] by blast
  let ?d = "dc\<lparr>NestingLevel := 1, ParentSignature := mainSig\<rparr>"
  have "processCalls ?dec hx methods 1 mainSig (a # c # after) (cm3, ?K, [d0] @ ds) = Ret (Inr (cm2, k, decoded'))"
    using p unfolding processCalls_append before by simp
  then have "processCalls ?dec hx methods 1 mainSig (c # after) (cm4, Suc ?K, ([d0] @ ds) @ [failed_call a]) = Ret (Inr (cm2, k, decoded'))"
    using fa nth unfolding a by (simp add: Let_def)
  then obtain more where "decoded' = (([d0] @ ds) @ [failed_call a]) @ ?d # more"
    using processCalls_head [of ?dec hx methods 1 mainSig c after cm4 "Suc ?K"] dc nth(2) by metis
  moreover have "FromAddress ?d = rawFrom c \<and> ToAddress ?d = rawTo c \<and> Signature ?d = Bytes2Hex hx (Hex2Bytes hx (selector b))"
    using decodeCall_fields [OF ids(1) selector_bytes [OF ids(2)] dc] by simp
  ultimately show ?thesis using decoded before(2)
    by (intro exI [of _ d0] exI [of _ ds] exI [of _ ?d] exI [of _ "more @ missing"]) simp
qed

definition ex_misread :: Trace where
  "ex_misread = ex_trace\<lparr>FourByte := [], CallTrace := \<lparr>mainCall = ex_call ''0xaaaaaaaa'' [] [],
     Calls = [ex_call ''0xbbbbbbbb'' ''zz'' [ex_call ''0xcccccccc'' [] []], ex_call ''0xdddddddd'' [] []]\<rparr>\<rparr>"

text \<open>The only contract name that decoding with this store records is that of its only ABI.\<close>

lemma ex_reached:
  assumes "decoding_reaches lib hx ex_abis addrs NewEmptyContractMap cm"
  shows "get_string (addressMap cm) k \<in> {[], ''X''}"
  using assms
proof (induction arbitrary: k rule: decoding_reaches.induct)
  case (decode cm sig c cm' d err)
  have "fst (FindABIByMethod f ex_abis cm addr sig) \<in> {cm, AddContract cm addr ''X.abi''}"
    for f addr by (auto simp: FindABIByMethod_def ex_abis_def Let_def split: option.splits sum.splits)
  moreover have "cm' = fst (FindABIByMethod (MethodById lib) ex_abis cm (rawTo c) sig)"
    using decode.hyps(2) by (auto simp: decodeCall_def go_bind_Ret_iff split: prod.splits sum.splits)
  ultimately have "cm' \<in> {cm, AddContract cm (rawTo c) ''X.abi''}" by simp
  moreover have "TrimSuffix ''X.abi'' ''.abi'' = ''X''" by (simp add: TrimSuffix_def HasSuffix_def)
  ultimately show ?case using decode.IH [of k] by (auto simp: AddContract_def get_string_def update_conv' split: option.splits if_splits)
qed (simp add: NewEmptyContractMap_def get_string_def)

lemma ex_fails:
  assumes "decoding_reaches ex_abi_lib2 ex_hex ex_abis [] NewEmptyContractMap cm" and "4 \<le> length sig"
  shows "\<exists>cm1 da err. decodeCall ex_abi_lib2 ex_hex ex_abis [] cm sig (ex_call i ''zz'' sub) = Ret (cm1, da, Some err)"
proof -
  have "get_string (addressMap cm) (ToLower ''t'') \<in> {[], ''X''}" by (rule ex_reached [OF assms(1)])
  then show ?thesis using assms(2)
    by (auto simp: decodeCall_def FindABIByMethod_def IsKnownAddress_def GetContractName_def
        ex_abi_lib2_def ex_abis_def decode_with_abi_def ex_call_def Let_def ex_hex_def)
qed

theorem trace_misattributes_after_failure_witness:
  "\<exists>t' d0 d more. DecodeTrace ex_abi_lib2 ex_hex (Some \<lparr>ABIs = ex_abis, BINs = []\<rparr>) [] (empty_tracer NewEmptyContractMap) ex_misread =
      Ret (t', Inr (d0 # failed_call (hd (Calls (CallTrace ex_misread))) # d # more)) \<and> Signature d = ''cccccccc''"
proof -
  let ?b = "ex_call ''0xcccccccc'' [] []" and ?c = "ex_call ''0xdddddddd'' [] []"
  let ?a = "ex_call ''0xbbbbbbbb'' ''zz'' [?b]" and ?cs = "\<lparr>ABIs = ex_abis, BINs = []\<rparr> :: ContractStore"
  let ?t = "empty_tracer NewEmptyContractMap"
  have calls: "Calls (CallTrace ex_misread) = [] @ ?a # ?c # []" "rawCalls ?a = ?b # []" by (simp_all add: ex_misread_def ex_call_def)
  have sel: "selector ?a = ''bbbbbbbb''" "selector ?b = ''cccccccc''" by (simp_all add: selector_def ex_call_def)
  have bytes: "length (Hex2Bytes ex_hex (selector ?a)) = 4" unfolding sel by code_simp
  have fails: "\<exists>cm' d err. decodeCall ex_abi_lib2 ex_hex (ABIs ?cs) [] cm (Hex2Bytes ex_hex (selector ?a)) ?a = Ret (cm', d, Some err)"
    if "decoding_reaches ex_abi_lib2 ex_hex (ABIs ?cs) [] (trMap ?t) cm" for cm
    using ex_fails [of cm "Hex2Bytes ex_hex (selector ?a)"] that bytes by (simp add: empty_tracer_def)
  have succeeds: "\<exists>cm' d. decodeCall ex_abi_lib2 ex_hex (ABIs ?cs) [] cm sig ?c = Ret (cm', d, None)" for cm sig
    using ex_succeeds by simp
  obtain t' decoded where run: "DecodeTrace ex_abi_lib2 ex_hex (Some ?cs) [] ?t ex_misread = Ret (t', Inr decoded)"
  proof -
    let ?m = "ex_call ''0xaaaaaaaa'' [] []" and ?dec = "decodeCall ex_abi_lib2 ex_hex ex_abis []"
    let ?ms = "[''aaaaaaaa'', ''bbbbbbbb'', ''cccccccc'', ''dddddddd'']"
    obtain cm1 d0 where m: "?dec NewEmptyContractMap (Hex2Bytes ex_hex ''aaaaaaaa'') ?m = Ret (cm1, d0, None)" using ex_succeeds by blast
    obtain cm2 da err where a: "?dec cm1 (Hex2Bytes ex_hex ''bbbbbbbb'') ?a = Ret (cm2, da, Some err)"
      using fails [unfolded sel, of cm1] decoding_reaches.decode [OF decoding_reaches.start m] by (auto simp: empty_tracer_def)
    obtain cm3 dc where c: "?dec cm2 (Hex2Bytes ex_hex ''cccccccc'') ?c = Ret (cm3, dc, None)" using ex_succeeds by blast
    have g: "getSignature (rawInput ?m) = Inr ''aaaaaaaa''" "gatherAllMethods [?a, ?c] [''aaaaaaaa''] = Inr ?ms"
      by (simp_all add: getSignature_def ex_call_def)
    have "\<exists>k ds. processCalls ?dec ex_hex ?ms 1 ''aaaaaaaa'' [?a, ?c] (cm1, 0, [d0]) = Ret (Inr (cm3, k, ds))"
      using a c unfolding ex_call_def by (simp add: Let_def)
    then obtain k ds where p: "processCalls ?dec ex_hex ?ms 1 ''aaaaaaaa'' [?a, ?c] (cm1, 0, [d0]) = Ret (Inr (cm3, k, ds))" by blast
    have tr: "mainCall (CallTrace ex_misread) = ?m" "Calls (CallTrace ex_misread) = [?a, ?c]" by (simp_all add: ex_misread_def)
    obtain cm4 ms where "checkForMissingCalls ex_abi_lib2 ex_hex ex_abis cm3 ex_misread = (cm4, ms)" by fastforce
    then have "\<exists>t' decoded. DecodeTrace ex_abi_lib2 ex_hex (Some ?cs) [] ?t ex_misread = Ret (t', Inr decoded)"
      using m p by (simp add: DecodeTrace_def tr g Let_def empty_tracer_def)
    then show ?thesis using that by blast
  qed
  have b: "Bytes2Hex ex_hex (Hex2Bytes ex_hex (selector ?b)) = ''cccccccc''" by code_simp
  obtain d0 ds d more where "decoded = d0 # ds @ failed_call ?a # d # more" "length ds = length (preorder 1 [])"
    "Signature d = Bytes2Hex ex_hex (Hex2Bytes ex_hex (selector ?b))"
    using trace_misattributes_after_failure [OF ex_ids ex_hex_ok calls _ fails succeeds run] by auto
  with run b show ?thesis unfolding calls(1) by auto
qed

end
