(* ===== verification/Tx_Options.thy ===== *)
theory Tx_Options
  imports Gas_Adjuster Tracing Funds
begin

text \<open>
  The client's state and the part of \<^verbatim>\<open>src/client.go\<close> that prepares transactions: call and transaction options, the nonce
  status of a key, gas estimations with their fallbacks, and waiting for pending transactions. The node's answers,
  go-ethereum's transactor and the fee data are parameters. The contract map is one Go map shared by the client, its ABI
  finder and its tracer, so the state has it once. The theorems: every error while preparing a transaction is both
  recorded in the client and carried by the options, options always have exactly one kind of price, and what a key number out
  of range does.
\<close>

record 'pk Client =
  Cfg :: Config
  clAddresses :: "address list"
  PrivateKeys :: "'pk list"
  ChainID :: int
  clURL :: string
  clErrors :: "goerr list"
  clContractStore :: "ContractStore option"
  clNonceManager :: "NonceManager option"
  clTracer :: "Tracer option"
  ContractAddressToNameMap :: ContractMap
  clABIFinder :: bool
  HeaderCache :: "LFUHeaderCache option"

definition client_net :: "'pk Client \<Rightarrow> Network go" where
  "client_net m = deref (Cfg m) (cfgNetwork (Cfg m))"

definition add_error :: "goerr \<Rightarrow> 'pk Client \<Rightarrow> 'pk Client" where
  "add_error err m = m\<lparr>clErrors := clErrors m @ [err]\<rparr>"

subsection \<open>Functional options\<close>

type_synonym 'pk ClientOpt = "'pk Client \<Rightarrow> 'pk Client"

definition WithContractStore :: "ContractStore option \<Rightarrow> 'pk ClientOpt" where
  "WithContractStore as c = c\<lparr>clContractStore := as\<rparr>"

definition WithContractMap :: "ContractMap \<Rightarrow> 'pk ClientOpt" where
  "WithContractMap m c = c\<lparr>ContractAddressToNameMap := m\<rparr>"

definition WithABIFinder :: "'pk ClientOpt" where
  "WithABIFinder c = c\<lparr>clABIFinder := True\<rparr>"

definition WithNonceManager :: "NonceManager option \<Rightarrow> 'pk ClientOpt" where
  "WithNonceManager mgr c = c\<lparr>clNonceManager := mgr\<rparr>"

definition WithTracer :: "Tracer option \<Rightarrow> 'pk ClientOpt" where
  "WithTracer t c = c\<lparr>clTracer := t\<rparr>"

record CallOpts =
  Pending :: bool
  coFrom :: address
  coBlockNumber :: "int option"

type_synonym CallOpt = "CallOpts \<Rightarrow> CallOpts"

definition WithPending :: "bool \<Rightarrow> CallOpt" where
  "WithPending pending o' = o'\<lparr>Pending := pending\<rparr>"

definition WithBlockNumber :: "int \<Rightarrow> CallOpt" where
  "WithBlockNumber bn o' = o'\<lparr>coBlockNumber := Some (int64 bn)\<rparr>"

definition NewCallKeyOpts :: "'pk Client \<Rightarrow> int \<Rightarrow> CallOpt list \<Rightarrow> CallOpts go" where
  "NewCallKeyOpts m keyNum os =
     go_bind (go_index (clAddresses m) keyNum) (\<lambda>a.
     Ret (fold (\<lambda>f co. f co) os \<lparr>Pending = False, coFrom = a, coBlockNumber = None\<rparr>))"

definition NewCallOpts :: "'pk Client \<Rightarrow> CallOpt list \<Rightarrow> CallOpts go" where
  "NewCallOpts m os =
     go_bind (go_index (clAddresses m) 0) (\<lambda>a.
     Ret (fold (\<lambda>f co. f co) os \<lparr>Pending = False, coFrom = a, coBlockNumber = None\<rparr>))"

text \<open>
  \<open>bind.TransactOpts\<close>. The context is nil, the background context, or one that carries an error under
  \<open>ContextErrorKey\<close>; the signer is the key it signs with.
\<close>

datatype tx_context = Background | WithErr goerr

record 'pk TransactOpts =
  optSigner :: "'pk option"
  optNonce :: "int option"
  optValue :: "int option"
  optGasPrice :: "int option"
  optGasFeeCap :: "int option"
  optGasTipCap :: "int option"
  optGasLimit :: int
  optContext :: "tx_context option"
  optNoSend :: bool

definition empty_opts :: "'pk TransactOpts" where
  "empty_opts = \<lparr>optSigner = None, optNonce = None, optValue = None, optGasPrice = None, optGasFeeCap = None,
     optGasTipCap = None, optGasLimit = 0, optContext = None, optNoSend = False\<rparr>"

type_synonym 'pk TransactOpt = "'pk TransactOpts \<Rightarrow> 'pk TransactOpts"

definition WithValue :: "int \<Rightarrow> 'pk TransactOpt" where
  "WithValue v opts = opts\<lparr>optValue := Some v\<rparr>"

definition WithGasPrice :: "int \<Rightarrow> 'pk TransactOpt" where
  "WithGasPrice gasPrice opts = opts\<lparr>optGasPrice := Some gasPrice\<rparr>"

definition WithGasLimit :: "int \<Rightarrow> 'pk TransactOpt" where
  "WithGasLimit gasLimit opts = opts\<lparr>optGasLimit := gasLimit\<rparr>"

definition WithNoSend :: "bool \<Rightarrow> 'pk TransactOpt" where
  "WithNoSend noSend opts = opts\<lparr>optNoSend := noSend\<rparr>"

definition WithNonce :: "int \<Rightarrow> 'pk TransactOpt" where
  "WithNonce nonce opts = opts\<lparr>optNonce := Some nonce\<rparr>"

definition WithGasFeeCap :: "int \<Rightarrow> 'pk TransactOpt" where
  "WithGasFeeCap gasFeeCap opts = opts\<lparr>optGasFeeCap := Some gasFeeCap\<rparr>"

definition WithGasTipCap :: "int \<Rightarrow> 'pk TransactOpt" where
  "WithGasTipCap gasTipCap opts = opts\<lparr>optGasTipCap := Some gasTipCap\<rparr>"

subsection \<open>Gas estimations\<close>

record GasEstimations =
  estGasPrice :: "int option"
  estGasTipCap :: "int option"
  estGasFeeCap :: "int option"

record GasEstimationRequest =
  GasEstimationEnabled :: bool
  FallbackGasPrice :: int
  FallbackGasFeeCap :: int
  FallbackGasTipCap :: int
  rqPriority :: string

text \<open>
  What the fee suggestions depend on: the mathematics and statistics libraries, the node as the EIP-1559 call and then the
  legacy call see it, each with its schedule of the goroutines that fetch headers.
\<close>

record fee_env =
  feLog10 :: "float64 \<Rightarrow> float64"
  feStats :: stats_lib
  feNode :: fee_node
  feHist :: fee_node
  feLegacyNode :: fee_node

definition NewDefaultGasEstimationRequest :: "Network \<Rightarrow> GasEstimationRequest" where
  "NewDefaultGasEstimationRequest n =
     \<lparr>GasEstimationEnabled = GasPriceEstimationEnabled n, FallbackGasPrice = netGasPrice n,
      FallbackGasFeeCap = netGasFeeCap n, FallbackGasTipCap = netGasTipCap n,
      rqPriority = GasPriceEstimationTxPriority n\<rparr>"

definition zero_estimations :: GasEstimations where
  "zero_estimations = \<lparr>estGasPrice = None, estGasTipCap = None, estGasFeeCap = None\<rparr>"

definition disableEstimationsIfNeeded :: "goerr \<Rightarrow> Network \<Rightarrow> Network" where
  "disableEstimationsIfNeeded err n =
     (if Contains (errorText err) ZeroGasSuggestedErr then n\<lparr>GasPriceEstimationEnabled := False\<rparr> else n)"

definition calculateLegacyFees ::
  "fee_env \<Rightarrow> GasEstimationRequest \<Rightarrow> Network \<Rightarrow> LFUHeaderCache option \<Rightarrow> GasEstimations \<Rightarrow>
   (LFUHeaderCache option \<times> Network \<times> GasEstimations) go" where
  "calculateLegacyFees fe request n hc estimations =
     go_bind (GetSuggestedLegacyFees (feLog10 fe) (feLegacyNode fe) n hc (rqPriority request)) (\<lambda>(hc', r).
     Ret (hc', case r of
         Inl err \<Rightarrow> (disableEstimationsIfNeeded err n, estimations\<lparr>estGasPrice := Some (FallbackGasPrice request)\<rparr>)
       | Inr gasPrice \<Rightarrow> (n, estimations\<lparr>estGasPrice := Some gasPrice\<rparr>)))"

text \<open>The four texts by which the code recognises a node without EIP-1559.\<close>

definition eip1559_unsupported :: "goerr \<Rightarrow> bool" where
  "eip1559_unsupported err \<longleftrightarrow>
     Contains (errorText err) ''method eth_maxPriorityFeePerGas'' \<or> Contains (errorText err) ''method eth_maxFeePerGas'' \<or>
     Contains (errorText err) ''method eth_feeHistory'' \<or> Contains (errorText err) ''expected input list for types.txdata''"

definition estimate_fees ::
  "fee_env \<Rightarrow> Config \<Rightarrow> GasEstimationRequest \<Rightarrow> Network \<Rightarrow> LFUHeaderCache option \<Rightarrow>
   (LFUHeaderCache option \<times> Network \<times> GasEstimations) go" where
  "estimate_fees fe cfg request n hc =
     (if EIP1559DynamicFees n then
        go_bind (GetSuggestedEIP1559Fees (feLog10 fe) (feStats fe) (feNode fe) (feHist fe) cfg n hc (rqPriority request)) (\<lambda>(hc', r).
        case r of
          Inl err \<Rightarrow>
            (let estimations = zero_estimations\<lparr>estGasFeeCap := Some (FallbackGasFeeCap request),
                   estGasTipCap := Some (FallbackGasTipCap request)\<rparr>;
                 n1 = disableEstimationsIfNeeded err n in
             if eip1559_unsupported err
             then calculateLegacyFees fe request (n1\<lparr>EIP1559DynamicFees := False\<rparr>) hc' estimations
             else Ret (hc', n1, estimations))
        | Inr (maxFee, priorityFee) \<Rightarrow>
            Ret (hc', n, zero_estimations\<lparr>estGasFeeCap := Some maxFee, estGasTipCap := Some priorityFee\<rparr>))
      else calculateLegacyFees fe request n hc zero_estimations)"

definition CalculateGasEstimations ::
  "fee_env \<Rightarrow> Config \<Rightarrow> LFUHeaderCache option \<Rightarrow> GasEstimationRequest \<Rightarrow> (Config \<times> LFUHeaderCache option \<times> GasEstimations) go" where
  "CalculateGasEstimations fe cfg hc request =
     go_bind (deref cfg (cfgNetwork cfg)) (\<lambda>n.
     if is_simulated_name (netName n) \<or> \<not> GasEstimationEnabled request
     then Ret (cfg, hc, \<lparr>estGasPrice = Some (FallbackGasPrice request), estGasTipCap = Some (FallbackGasTipCap request),
                     estGasFeeCap = Some (FallbackGasFeeCap request)\<rparr>)
     else if TxnTimeout n = None then Panic ''nil pointer dereference''
     else go_bind (estimate_fees fe cfg request n hc) (\<lambda>(hc', n', estimations).
       Ret (upd_net (the (cfgNetwork cfg)) (\<lambda>_. n') cfg, hc', estimations)))"

text \<open>
  The gas price of plain transfers: the suggestion for standard priority, or the configured price when there is none. Start-up,
  \<open>ReturnFunds\<close> and the test helpers all begin with it.
\<close>

definition standard_gas_price :: "(float64 \<Rightarrow> float64) \<Rightarrow> fee_node \<Rightarrow> 'pk Client \<Rightarrow> ('pk Client \<times> int) go" where
  "standard_gas_price Log10 nd m =
     go_bind (client_net m) (\<lambda>n.
     go_bind (GetSuggestedLegacyFees Log10 nd n (HeaderCache m) Priority_Standard) (\<lambda>(hc', r).
     Ret (m\<lparr>HeaderCache := hc'\<rparr>, case r of Inl err \<Rightarrow> netGasPrice n | Inr p \<Rightarrow> p)))"

subsection \<open>Transaction options\<close>

record NonceStatus =
  LastNonce :: int
  PendingNonce :: int

record 'pk opts_env =
  oePendingNonceAt :: "address \<Rightarrow> int res"
  oeNonceAt :: "address \<Rightarrow> int res"
  oeFees :: fee_env
  oeTransactor :: "'pk \<Rightarrow> int \<Rightarrow> 'pk TransactOpts res"

definition getNonceStatus :: "'pk opts_env \<Rightarrow> 'pk Client \<Rightarrow> address \<Rightarrow> NonceStatus res go" where
  "getNonceStatus env m addr =
     go_bind (client_net m) (\<lambda>n.
     if TxnTimeout n = None then Panic ''nil pointer dereference''
     else Ret (res_bind (oePendingNonceAt env addr) (\<lambda>pendingNonce.
               res_bind (oeNonceAt env addr) (\<lambda>lastNonce.
               Inr \<lparr>LastNonce = lastNonce, PendingNonce = pendingNonce\<rparr>))))"

definition pendingNonceErr :: "int \<Rightarrow> int \<Rightarrow> goerr" where
  "pendingNonceErr keyNum n =
     ErrNew (newline @ ''pending nonce for key '' @ Itoa keyNum @ '' is higher than last nonce, there are '' @ Itoa n @
       '' pending transactions.'' @ newline @ newline @ ''This issue is caused by one of two things:'' @ newline @
       ''1. You are using the same keyNum in multiple goroutines, which is not supported. Each goroutine should use an unique keyNum.'' @ newline @
       ''2. You have stuck transaction(s). Speed them up by sending replacement transactions with higher gas price before continuing, otherwise future transactions most probably will also get stuck.'' @ newline)"

definition error_opts :: "goerr \<Rightarrow> 'pk TransactOpts" where
  "error_opts err = empty_opts\<lparr>optContext := Some (WithErr err)\<rparr>"

definition zero_nonce_status :: NonceStatus where
  "zero_nonce_status = \<lparr>LastNonce = 0, PendingNonce = 0\<rparr>"

definition getProposedTransactionOptions ::
  "'pk opts_env \<Rightarrow> 'pk Client \<Rightarrow> int \<Rightarrow> ('pk Client \<times> 'pk TransactOpts \<times> NonceStatus \<times> GasEstimations) go" where
  "getProposedTransactionOptions env m keyNum =
     go_bind (go_index (clAddresses m) keyNum) (\<lambda>addr.
     go_bind (getNonceStatus env m addr) (\<lambda>r. case r of
       Inl err \<Rightarrow> Ret (add_error err m, error_opts err, zero_nonce_status, zero_estimations)
     | Inr nonceStatus \<Rightarrow>
         (let stuck = (PendingNonceProtectionEnabled (Cfg m) \<and> PendingNonce nonceStatus > LastNonce nonceStatus);
              err = pendingNonceErr keyNum (uint64 (PendingNonce nonceStatus - LastNonce nonceStatus));
              m1 = (if stuck then add_error err m else m) in
          go_bind (client_net m) (\<lambda>n.
          go_bind (CalculateGasEstimations (oeFees env) (Cfg m) (HeaderCache m) (NewDefaultGasEstimationRequest n)) (\<lambda>(cfg', hc', estimations).
          let m2 = m1\<lparr>Cfg := cfg', HeaderCache := hc'\<rparr> in
          go_bind (go_index (PrivateKeys m) keyNum) (\<lambda>pk.
          Ret (case oeTransactor env pk (ChainID m) of
              Inl e \<Rightarrow> (let err' = ErrWrap (''failed to create transactor for key '' @ Itoa keyNum) e
                       in (add_error err' m2, error_opts err', zero_nonce_status, zero_estimations))
            | Inr opts \<Rightarrow> (m2, if stuck then opts\<lparr>optContext := Some (WithErr err)\<rparr> else opts, nonceStatus, estimations))))))))"

definition configureTransactionOpts ::
  "Network \<Rightarrow> 'pk TransactOpts \<Rightarrow> int \<Rightarrow> GasEstimations \<Rightarrow> 'pk TransactOpt list \<Rightarrow> 'pk TransactOpts" where
  "configureTransactionOpts n opts nonce estimations os =
     (let opts1 = opts\<lparr>optNonce := Some (int64 nonce), optGasPrice := estGasPrice estimations, optGasLimit := netGasLimit n\<rparr>;
          opts2 = (if EIP1559DynamicFees n
                   then opts1\<lparr>optGasPrice := None, optGasTipCap := estGasTipCap estimations, optGasFeeCap := estGasFeeCap estimations\<rparr>
                   else opts1)
      in fold (\<lambda>f opts. f opts) os opts2)"

definition proposed_opts :: "'pk opts_env \<Rightarrow> 'pk Client \<Rightarrow> int \<Rightarrow> 'pk TransactOpt list \<Rightarrow> ('pk Client \<times> 'pk TransactOpts) go" where
  "proposed_opts env m keyNum os =
     go_bind (getProposedTransactionOptions env m keyNum) (\<lambda>(m', opts, nonce, estimations).
     go_bind (client_net m') (\<lambda>n.
     Ret (m', configureTransactionOpts n opts (PendingNonce nonce) estimations os)))"

definition NewTXOpts :: "'pk opts_env \<Rightarrow> 'pk Client \<Rightarrow> 'pk TransactOpt list \<Rightarrow> ('pk Client \<times> 'pk TransactOpts) go" where
  "NewTXOpts env m os = proposed_opts env m 0 os"

definition keyNumErr :: "'pk Client \<Rightarrow> int \<Rightarrow> goerr" where
  "keyNumErr m keyNum =
     ErrNew (''keyNum is out of range. Expected 0-'' @ Itoa (int (length (clAddresses m)) - 1) @ ''. Got: '' @ Itoa keyNum @
       (if keyNum = TimeoutKeyNum
        then '' (this is a probably because, we didn'' @ quote_char @ ''t manage to find any synced key before timeout)'' else []))"

definition NewTXKeyOpts :: "'pk opts_env \<Rightarrow> 'pk Client \<Rightarrow> int \<Rightarrow> 'pk TransactOpt list \<Rightarrow> ('pk Client \<times> 'pk TransactOpts) go" where
  "NewTXKeyOpts env m keyNum os =
     (if keyNum > int (length (clAddresses m)) \<or> keyNum < 0
      then Ret (add_error (keyNumErr m keyNum) m, error_opts (keyNumErr m keyNum))
      else go_bind (go_index (clAddresses m) keyNum) (\<lambda>_. proposed_opts env m keyNum os))"

subsection \<open>Waiting for pending transactions\<close>

text \<open>
  What the \<open>select\<close> of \<open>WaitUntilNoPendingTx\<close> receives, in order: ticks, each with the nonce status read then, and the
  timeout. \<open>None\<close>: still waiting after the given events.
\<close>

datatype wait_event = Tick "NonceStatus res" | TimeoutFired

fun wait_loop :: "goerr \<Rightarrow> wait_event list \<Rightarrow> goerr option option" where
  "wait_loop timeoutErr [] = None"
| "wait_loop timeoutErr (TimeoutFired # evs) = Some (Some timeoutErr)"
| "wait_loop timeoutErr (Tick (Inl err) # evs) = wait_loop timeoutErr evs"
| "wait_loop timeoutErr (Tick (Inr nonceStatus) # evs) =
     (if PendingNonce nonceStatus > LastNonce nonceStatus then wait_loop timeoutErr evs else Some None)"

definition WaitUntilNoPendingTx :: "(address \<Rightarrow> string) \<Rightarrow> address \<Rightarrow> int \<Rightarrow> wait_event list \<Rightarrow> goerr option option" where
  "WaitUntilNoPendingTx addrString addr timeout evs =
     wait_loop (ErrNew (''after '' @ quote_char @ duration_string timeout @ quote_char @ '' address '' @ quote_char @
       addrString addr @ quote_char @ '' still had pending transactions'')) evs"

definition WaitUntilNoPendingTxFoKeyNum ::
  "(address \<Rightarrow> string) \<Rightarrow> 'pk Client \<Rightarrow> int \<Rightarrow> int \<Rightarrow> (address \<Rightarrow> wait_event list) \<Rightarrow> goerr option option go" where
  "WaitUntilNoPendingTxFoKeyNum addrString m keyNum timeout evs =
     (if keyNum > int (length (clAddresses m)) - 1 \<or> keyNum < 0
      then Ret (Some (Some (ErrNew (''keyNum is out of range. Expected 0-'' @ Itoa (int (length (clAddresses m)) - 1) @
             ''. Got: '' @ Itoa keyNum))))
      else go_bind (go_index (clAddresses m) keyNum) (\<lambda>a. Ret (WaitUntilNoPendingTx addrString a timeout (evs a))))"

definition WaitUntilNoPendingTxForRootKey ::
  "(address \<Rightarrow> string) \<Rightarrow> 'pk Client \<Rightarrow> int \<Rightarrow> (address \<Rightarrow> wait_event list) \<Rightarrow> goerr option option go" where
  "WaitUntilNoPendingTxForRootKey addrString m timeout evs =
     go_bind (MustGetRootKeyAddress (clAddresses m)) (\<lambda>a. Ret (WaitUntilNoPendingTx addrString a timeout (evs a)))"

subsection \<open>Estimations only degrade, and always give a price\<close>

text \<open>The two switches that estimation may turn off; nothing else of the network changes.\<close>

definition degraded :: "Network \<Rightarrow> Network \<Rightarrow> bool" where
  "degraded n n' \<longleftrightarrow>
     n' = n\<lparr>GasPriceEstimationEnabled := GasPriceEstimationEnabled n', EIP1559DynamicFees := EIP1559DynamicFees n'\<rparr> \<and>
     (GasPriceEstimationEnabled n' \<longrightarrow> GasPriceEstimationEnabled n) \<and> (EIP1559DynamicFees n' \<longrightarrow> EIP1559DynamicFees n)"

text \<open>The price fields that \<open>configureTransactionOpts\<close> will read are set.\<close>

definition priced :: "Network \<Rightarrow> GasEstimations \<Rightarrow> bool" where
  "priced n est \<longleftrightarrow> (if EIP1559DynamicFees n then estGasFeeCap est \<noteq> None \<and> estGasTipCap est \<noteq> None else estGasPrice est \<noteq> None)"

lemma degraded_refl [simp]: "degraded n n"
  by (simp add: degraded_def)

lemma disable_degrades: "degraded n (disableEstimationsIfNeeded err n)"
  and disable_keeps_mode [simp]: "EIP1559DynamicFees (disableEstimationsIfNeeded err n) = EIP1559DynamicFees n"
  by (simp_all add: degraded_def disableEstimationsIfNeeded_def)

lemma calculateLegacyFees_ok:
  assumes "calculateLegacyFees fe request n hc est = Ret (hc', n', est')"
  shows "degraded n n' \<and> EIP1559DynamicFees n' = EIP1559DynamicFees n \<and> estGasPrice est' \<noteq> None"
proof -
  obtain r where r: "GetSuggestedLegacyFees (feLog10 fe) (feLegacyNode fe) n hc (rqPriority request) = Ret (hc', r)"
    using assms by (auto simp: calculateLegacyFees_def go_bind_Ret_iff)
  then show ?thesis
    using assms disable_degrades by (cases r) (auto simp: calculateLegacyFees_def)
qed

lemma estimate_fees_ok:
  assumes "estimate_fees fe cfg request n hc = Ret (hc', n', est)"
  shows "degraded n n' \<and> priced n' est"
proof (cases "EIP1559DynamicFees n")
  case False
  then show ?thesis using assms calculateLegacyFees_ok by (fastforce simp: estimate_fees_def priced_def)
next
  case True
  let ?g = "GetSuggestedEIP1559Fees (feLog10 fe) (feStats fe) (feNode fe) (feHist fe) cfg n hc (rqPriority request)"
  obtain hc1 r where r: "?g = Ret (hc1, r)" using assms True by (auto simp: estimate_fees_def go_bind_Ret_iff)
  show ?thesis
  proof (cases r)
    case (Inr p)
    then show ?thesis using assms True r by (cases p) (auto simp: estimate_fees_def priced_def)
  next
    case (Inl err)
    let ?n1 = "disableEstimationsIfNeeded err n"
    let ?est = "zero_estimations\<lparr>estGasFeeCap := Some (FallbackGasFeeCap request), estGasTipCap := Some (FallbackGasTipCap request)\<rparr>"
    have n1: "degraded n ?n1" "EIP1559DynamicFees ?n1" using True disable_degrades by simp_all
    show ?thesis
    proof (cases "eip1559_unsupported err")
      case False
      then have "n' = ?n1" "est = ?est" using assms True r Inl by (auto simp: estimate_fees_def Let_def)
      then show ?thesis using n1 by (simp add: priced_def)
    next
      case unsupported: True
      then have "calculateLegacyFees fe request (?n1\<lparr>EIP1559DynamicFees := False\<rparr>) hc1 ?est = Ret (hc', n', est)"
        using assms True r Inl by (simp add: estimate_fees_def Let_def)
      from calculateLegacyFees_ok [OF this] True show ?thesis
        by (auto simp: degraded_def priced_def disableEstimationsIfNeeded_def split: if_splits)
    qed
  qed
qed

lemma estimations_keep_cache:
  assumes "CalculateGasEstimations fe cfg (Some c) request = Ret (cfg', hc', est)"
  shows "hc' \<noteq> None"
proof -
  have legacy: "hc2 \<noteq> None" if "calculateLegacyFees fe request n (Some c1) est1 = Ret (hc2, n', est2)" for n c1 est1 hc2 n' est2
    using that suggestions_keep_cache(2) by (fastforce simp: calculateLegacyFees_def go_bind_Ret_iff)
  have "hc2 \<noteq> None" if e: "estimate_fees fe cfg request n (Some c) = Ret (hc2, n', est2)" for n hc2 n' est2
  proof (cases "EIP1559DynamicFees n")
    case False
    with e legacy show ?thesis by (auto simp: estimate_fees_def)
  next
    case True
    with e obtain hc1 r where g: "GetSuggestedEIP1559Fees (feLog10 fe) (feStats fe) (feNode fe) (feHist fe) cfg n (Some c) (rqPriority request) = Ret (hc1, r)"
      by (auto simp: estimate_fees_def go_bind_Ret_iff)
    obtain c1 where "hc1 = Some c1" using suggestions_keep_cache(1) [OF g] by auto
    with True e g legacy show ?thesis
      by (cases r) (auto simp: estimate_fees_def Let_def split: if_splits)
  qed
  with assms show ?thesis by (auto simp: CalculateGasEstimations_def go_bind_Ret_iff split: if_splits)
qed

lemma CalculateGasEstimations_ok:
  assumes run: "CalculateGasEstimations fe cfg hc request = Ret (cfg', hc', est)" and n: "deref cfg (cfgNetwork cfg) = Ret n"
  shows "\<exists>n'. deref cfg' (cfgNetwork cfg') = Ret n' \<and> degraded n n' \<and> priced n' est \<and>
    cfg' = upd_net (the (cfgNetwork cfg)) (\<lambda>_. n') cfg"
proof -
  obtain i where i: "cfgNetwork cfg = Some i" "i < length (net_store cfg)" "n = net_store cfg ! i"
    using n by (auto simp: deref_def go_index_def split: option.splits if_splits)
  have upd: "deref (upd_net i (\<lambda>_. n') cfg) (cfgNetwork (upd_net i (\<lambda>_. n') cfg)) = Ret n'" for n'
    using i by (simp add: deref_def upd_net_def)
  have same: "upd_net i (\<lambda>_. n) cfg = cfg" using i by (simp add: upd_net_def)
  show ?thesis
  proof (cases "is_simulated_name (netName n) \<or> \<not> GasEstimationEnabled request")
    case True
    then have "cfg' = cfg" "priced n est" using run n by (auto simp: CalculateGasEstimations_def priced_def)
    then show ?thesis using n i same by (intro exI [of _ n]) simp
  next
    case False
    then obtain n' where e: "estimate_fees fe cfg request n hc = Ret (hc', n', est)" and c: "cfg' = upd_net i (\<lambda>_. n') cfg"
      using run n i(1) by (auto simp: CalculateGasEstimations_def go_bind_Ret_iff split: if_splits)
    from estimate_fees_ok [OF e] upd [of n'] c i(1) show ?thesis by (intro exI [of _ n']) simp
  qed
qed

subsection \<open>How a proposal can end\<close>

definition pending_err :: "'pk Client \<Rightarrow> int \<Rightarrow> NonceStatus \<Rightarrow> goerr option" where
  "pending_err m keyNum ns =
     (if PendingNonceProtectionEnabled (Cfg m) \<and> PendingNonce ns > LastNonce ns
      then Some (pendingNonceErr keyNum (uint64 (PendingNonce ns - LastNonce ns))) else None)"

lemma getProposed_cases:
  assumes run: "getProposedTransactionOptions env m keyNum = Ret (m', opts, ns, est)"
  obtains (failed) cfg' hc' errs err where "m' = m\<lparr>Cfg := cfg', clErrors := clErrors m @ errs @ [err], HeaderCache := hc'\<rparr>" "opts = error_opts err"
      "cfg' = Cfg m \<or> (\<exists>n est'. client_net m = Ret n \<and>
         CalculateGasEstimations (oeFees env) (Cfg m) (HeaderCache m) (NewDefaultGasEstimationRequest n) = Ret (cfg', hc', est'))"
  | (proposed) addr pk n cfg' hc' keyed where "go_index (clAddresses m) keyNum = Ret addr" "go_index (PrivateKeys m) keyNum = Ret pk"
      "oePendingNonceAt env addr = Inr (PendingNonce ns)" "oeNonceAt env addr = Inr (LastNonce ns)" "client_net m = Ret n"
      "CalculateGasEstimations (oeFees env) (Cfg m) (HeaderCache m) (NewDefaultGasEstimationRequest n) = Ret (cfg', hc', est)"
      "oeTransactor env pk (ChainID m) = Inr keyed"
      "m' = (case pending_err m keyNum ns of None \<Rightarrow> m | Some err \<Rightarrow> add_error err m)\<lparr>Cfg := cfg', HeaderCache := hc'\<rparr>"
      "opts = (case pending_err m keyNum ns of None \<Rightarrow> keyed | Some err \<Rightarrow> keyed\<lparr>optContext := Some (WithErr err)\<rparr>)"
proof -
  obtain addr where addr: "go_index (clAddresses m) keyNum = Ret addr"
    using run by (auto simp: getProposedTransactionOptions_def go_bind_Ret_iff)
  obtain r where r: "getNonceStatus env m addr = Ret r"
    using run addr by (auto simp: getProposedTransactionOptions_def go_bind_Ret_iff)
  show ?thesis
  proof (cases r)
    case (Inl err)
    then have "m' = add_error err m" "opts = error_opts err"
      using run addr r by (auto simp: getProposedTransactionOptions_def)
    then show ?thesis using failed [where cfg' = "Cfg m" and hc' = "HeaderCache m" and errs = "[]" and err = err] by (simp add: add_error_def)
  next
    case (Inr ns0)
    have status: "oePendingNonceAt env addr = Inr (PendingNonce ns0)" "oeNonceAt env addr = Inr (LastNonce ns0)"
      using r Inr by (auto simp: getNonceStatus_def go_bind_Ret_iff res_bind_Inr_iff split: if_splits)
    obtain n where n: "client_net m = Ret n"
      using r by (auto simp: getNonceStatus_def go_bind_Ret_iff)
    obtain cfg' hc' est0 where e: "CalculateGasEstimations (oeFees env) (Cfg m) (HeaderCache m) (NewDefaultGasEstimationRequest n) = Ret (cfg', hc', est0)"
      using run addr r Inr n by (auto simp: getProposedTransactionOptions_def go_bind_Ret_iff Let_def)
    obtain pk where pk: "go_index (PrivateKeys m) keyNum = Ret pk"
      using run addr r Inr n e by (auto simp: getProposedTransactionOptions_def go_bind_Ret_iff Let_def)
    define m2 where "m2 = (case pending_err m keyNum ns0 of None \<Rightarrow> m | Some err \<Rightarrow> add_error err m)\<lparr>Cfg := cfg', HeaderCache := hc'\<rparr>"
    show ?thesis
    proof (cases "oeTransactor env pk (ChainID m)")
      case (Inl e0)
      define err' where "err' = ErrWrap (''failed to create transactor for key '' @ Itoa keyNum) e0"
      have "m' = add_error err' m2" "opts = error_opts err'"
        using run addr r Inr n e pk Inl
        by (auto simp: getProposedTransactionOptions_def Let_def m2_def err'_def pending_err_def add_error_def)
      then show ?thesis using n e
        by (intro failed [where cfg' = cfg' and hc' = hc' and err = err' and errs = "case pending_err m keyNum ns0 of None \<Rightarrow> [] | Some err \<Rightarrow> [err]"])
          (auto simp: m2_def add_error_def split: option.splits)
    next
      case keyed: (Inr keyed)
      have "m' = m2" "ns = ns0" "est = est0"
        "opts = (case pending_err m keyNum ns0 of None \<Rightarrow> keyed | Some err \<Rightarrow> keyed\<lparr>optContext := Some (WithErr err)\<rparr>)"
        using run addr r Inr n e pk keyed
        by (auto simp: getProposedTransactionOptions_def Let_def m2_def pending_err_def add_error_def)
      then show ?thesis using addr status n e pk keyed
        by (intro proposed [where addr = addr and pk = pk and n = n and cfg' = cfg' and hc' = hc' and keyed = keyed]) (simp_all add: m2_def)
    qed
  qed
qed

subsection \<open>Properties of transaction options\<close>

text \<open>What go-ethereum documents of its transactor: signer and background context, everything else unset.\<close>

definition fresh_transactor :: "('pk \<Rightarrow> int \<Rightarrow> 'pk TransactOpts res) \<Rightarrow> bool" where
  "fresh_transactor transactor \<longleftrightarrow>
     (\<forall>pk chainID opts. transactor pk chainID = Inr opts \<longrightarrow>
        opts = empty_opts\<lparr>optSigner := Some pk, optContext := Some Background\<rparr>)"

lemma fresh_transactorD:
  "fresh_transactor tr \<Longrightarrow> tr pk chainID = Inr opts \<Longrightarrow> opts = empty_opts\<lparr>optSigner := Some pk, optContext := Some Background\<rparr>"
  by (simp add: fresh_transactor_def)

definition keeps_context :: "'pk TransactOpt \<Rightarrow> bool" where
  "keeps_context f \<longleftrightarrow> (\<forall>opts. optContext (f opts) = optContext opts)"

lemma options_keep_context:
  "keeps_context (WithValue v)" "keeps_context (WithGasPrice p)" "keeps_context (WithGasLimit l)" "keeps_context (WithNoSend b)"
  "keeps_context (WithNonce n)" "keeps_context (WithGasFeeCap p)" "keeps_context (WithGasTipCap p)"
  by (simp_all add: keeps_context_def WithValue_def WithGasPrice_def WithGasLimit_def WithNoSend_def WithNonce_def
      WithGasFeeCap_def WithGasTipCap_def)

lemma fold_keeps_context:
  "\<forall>f \<in> set os. keeps_context f \<Longrightarrow> optContext (fold (\<lambda>f opts. f opts) os opts) = optContext opts"
  by (induction os arbitrary: opts) (simp_all add: keeps_context_def)

lemma configure_context:
  "\<forall>f \<in> set os. keeps_context f \<Longrightarrow> optContext (configureTransactionOpts n opts nonce est os) = optContext opts"
  by (simp add: configureTransactionOpts_def fold_keeps_context Let_def)

lemma NewTXKeyOpts_proposed:
  assumes "NewTXKeyOpts env m keyNum os = Ret (m', opts)" and "0 \<le> keyNum" "keyNum \<le> int (length (clAddresses m))"
  obtains base ns est n where "getProposedTransactionOptions env m keyNum = Ret (m', base, ns, est)" "client_net m' = Ret n"
    "opts = configureTransactionOpts n base (PendingNonce ns) est os"
  using assms by (auto simp: NewTXKeyOpts_def proposed_opts_def go_bind_Ret_iff)

text \<open>
  What goes wrong while options for a key are prepared, as a specification that does not follow the control flow of the code: a key
  number out of the checked range; a nonce the node does not tell, the pending one being asked for first; and then
  pending transactions under pending nonce protection, and a transactor that cannot be made. The last two can come together.
\<close>

definition nonce_query_errors :: "'pk opts_env \<Rightarrow> address \<Rightarrow> goerr list" where
  "nonce_query_errors env a =
     (case (oePendingNonceAt env a, oeNonceAt env a) of (Inl err, _) \<Rightarrow> [err] | (Inr _, Inl err) \<Rightarrow> [err] | (Inr _, Inr _) \<Rightarrow> [])"

definition pending_errors :: "'pk opts_env \<Rightarrow> 'pk Client \<Rightarrow> int \<Rightarrow> goerr list" where
  "pending_errors env m keyNum =
     (case (oePendingNonceAt env (clAddresses m ! nat keyNum), oeNonceAt env (clAddresses m ! nat keyNum)) of
        (Inr pending, Inr last_nonce) \<Rightarrow>
          (if PendingNonceProtectionEnabled (Cfg m) \<and> pending > last_nonce
           then [pendingNonceErr keyNum (uint64 (pending - last_nonce))] else [])
      | _ \<Rightarrow> [])"

definition transactor_errors :: "'pk opts_env \<Rightarrow> 'pk Client \<Rightarrow> int \<Rightarrow> goerr list" where
  "transactor_errors env m keyNum =
     (case oeTransactor env (PrivateKeys m ! nat keyNum) (ChainID m) of
        Inl e \<Rightarrow> [ErrWrap (''failed to create transactor for key '' @ Itoa keyNum) e] | Inr _ \<Rightarrow> [])"

definition proposal_errors :: "'pk opts_env \<Rightarrow> 'pk Client \<Rightarrow> int \<Rightarrow> goerr list" where
  "proposal_errors env m keyNum =
     (let asked = nonce_query_errors env (clAddresses m ! nat keyNum) in
      if asked \<noteq> [] then asked else pending_errors env m keyNum @ transactor_errors env m keyNum)"

definition preparation_errors :: "'pk opts_env \<Rightarrow> 'pk Client \<Rightarrow> int \<Rightarrow> goerr list" where
  "preparation_errors env m keyNum =
     (if keyNum < 0 \<or> int (length (clAddresses m)) < keyNum then [keyNumErr m keyNum] else proposal_errors env m keyNum)"

text \<open>The context that tells about the last of some errors.\<close>

definition context_of :: "goerr list \<Rightarrow> tx_context" where
  "context_of errs = (if errs = [] then Background else WithErr (last errs))"

lemma getProposed_errors:
  assumes run: "getProposedTransactionOptions env m keyNum = Ret (m', opts, ns, est)" and transactor: "fresh_transactor (oeTransactor env)"
  shows "clErrors m' = clErrors m @ proposal_errors env m keyNum"
    and "optContext opts = Some (context_of (proposal_errors env m keyNum))"
proof -
  obtain addr r where addr: "go_index (clAddresses m) keyNum = Ret addr" and r: "getNonceStatus env m addr = Ret r"
    using run by (auto simp: getProposedTransactionOptions_def go_bind_Ret_iff)
  have a: "addr = clAddresses m ! nat keyNum" using addr by (auto simp: go_index_def split: if_splits)
  have "clErrors m' = clErrors m @ proposal_errors env m keyNum \<and> optContext opts = Some (context_of (proposal_errors env m keyNum))"
  proof (cases r)
    case (Inl err)
    have "nonce_query_errors env addr = [err]"
      using r Inl by (auto simp: getNonceStatus_def go_bind_Ret_iff res_bind_Inl_iff nonce_query_errors_def split: if_splits sum.splits)
    moreover have "m' = add_error err m" "opts = error_opts err"
      using run addr r Inl by (auto simp: getProposedTransactionOptions_def)
    ultimately show ?thesis by (simp add: add_error_def error_opts_def proposal_errors_def a context_of_def)
  next
    case (Inr ns0)
    have status: "oePendingNonceAt env addr = Inr (PendingNonce ns0)" "oeNonceAt env addr = Inr (LastNonce ns0)"
      using r Inr by (auto simp: getNonceStatus_def go_bind_Ret_iff res_bind_Inr_iff split: if_splits)
    obtain pk where pk: "go_index (PrivateKeys m) keyNum = Ret pk"
      using run addr r Inr by (auto simp: getProposedTransactionOptions_def go_bind_Ret_iff Let_def)
    have pk': "pk = PrivateKeys m ! nat keyNum" using pk by (auto simp: go_index_def split: if_splits)
    have asked: "nonce_query_errors env (clAddresses m ! nat keyNum) = []" using status by (simp add: nonce_query_errors_def a)
    have keyed: "optContext keyed = Some Background" if "oeTransactor env pk (ChainID m) = Inr keyed" for keyed
      using fresh_transactorD [OF transactor that] by simp
    show ?thesis
      using run addr r Inr pk status unfolding proposal_errors_def asked
      by (cases "oeTransactor env pk (ChainID m)")
        (auto simp: getProposedTransactionOptions_def go_bind_Ret_iff Let_def add_error_def error_opts_def pending_errors_def
          transactor_errors_def context_of_def keyed simp flip: a pk' split: if_splits)
  qed
  then show "clErrors m' = clErrors m @ proposal_errors env m keyNum"
    and "optContext opts = Some (context_of (proposal_errors env m keyNum))" by simp_all
qed

lemma proposed_opts_errors:
  assumes run: "proposed_opts env m keyNum os = Ret (m', opts)"
    and transactor: "fresh_transactor (oeTransactor env)" and os: "\<forall>f \<in> set os. keeps_context f"
  shows "clErrors m' = clErrors m @ proposal_errors env m keyNum \<and> optContext opts = Some (context_of (proposal_errors env m keyNum))"
proof -
  obtain base ns est n where p: "getProposedTransactionOptions env m keyNum = Ret (m', base, ns, est)"
    and opts: "opts = configureTransactionOpts n base (PendingNonce ns) est os"
    using run by (auto simp: proposed_opts_def go_bind_Ret_iff)
  show ?thesis using getProposed_errors [OF p transactor] unfolding opts by (simp add: configure_context [OF os])
qed


definition ex_fee_env :: fee_env where
  "ex_fee_env = \<lparr>feLog10 = ex_log10, feStats = ex_lib, feNode = ex_fees, feHist = ex_fees,
     feLegacyNode = ex_fees\<rparr>"

definition ex_opts_env :: "nat opts_env" where
  "ex_opts_env = \<lparr>oePendingNonceAt = (\<lambda>a. Inr 7), oeNonceAt = (\<lambda>a. Inr 5), oeFees = ex_fee_env,
     oeTransactor = (\<lambda>pk chainID. Inr (empty_opts\<lparr>optSigner := Some pk, optContext := Some Background\<rparr>))\<rparr>"

definition ex_net_fixed :: Network where
  "ex_net_fixed = ex_net\<lparr>GasPriceEstimationEnabled := False\<rparr>"

definition ex_client :: "nat Client" where
  "ex_client = \<lparr>Cfg = ex_cfg\<lparr>net_store := [ex_net_fixed], PendingNonceProtectionEnabled := True\<rparr>, clAddresses = [[7]],
     PrivateKeys = [42], ChainID = 1337, clURL = [], clErrors = [], clContractStore = None, clNonceManager = None, clTracer = None,
     ContractAddressToNameMap = NewEmptyContractMap, clABIFinder = False, HeaderCache = None\<rparr>"

lemmas ex_opts_simps = ex_opts_env_def ex_client_def ex_cfg_def ex_net_fixed_def ex_net_def NewTXKeyOpts_def proposed_opts_def
  getProposedTransactionOptions_def getNonceStatus_def client_net_def deref_def go_index_def CalculateGasEstimations_def
  NewDefaultGasEstimationRequest_def add_error_def Let_def

lemma ex_fresh: "fresh_transactor (oeTransactor ex_opts_env)"
  by (simp add: fresh_transactor_def ex_opts_env_def)


text \<open>
  C15. Options prepared without an error are complete: signed by the requested key, with the node's pending nonce, and with exactly
  one kind of price, the two EIP-1559 caps or a gas price, whichever the network is configured for after the estimation. Failed
  estimations fall back to configured values and only ever turn estimation or EIP-1559 off; but for the header cache nothing
  else of the client changes.
  The caller's options are applied last.
\<close>

theorem tx_opts_complete:
  assumes run: "NewTXKeyOpts env m keyNum os = Ret (m', opts)" and ok: "clErrors m' = clErrors m"
    and transactor: "fresh_transactor (oeTransactor env)"
  shows "\<exists>base n n' hc' pending. opts = fold (\<lambda>f opts. f opts) os base \<and> client_net m = Ret n \<and> client_net m' = Ret n' \<and>
    degraded n n' \<and> m' = m\<lparr>Cfg := upd_net (the (cfgNetwork (Cfg m))) (\<lambda>_. n') (Cfg m), HeaderCache := hc'\<rparr> \<and>
    optSigner base = Some (PrivateKeys m ! nat keyNum) \<and>
    oePendingNonceAt env (clAddresses m ! nat keyNum) = Inr pending \<and> optNonce base = Some (int64 pending) \<and>
    (if EIP1559DynamicFees n' then optGasPrice base = None \<and> optGasFeeCap base \<noteq> None \<and> optGasTipCap base \<noteq> None
     else optGasPrice base \<noteq> None \<and> optGasFeeCap base = None \<and> optGasTipCap base = None)"
proof -
  have range: "0 \<le> keyNum" "keyNum \<le> int (length (clAddresses m))"
    using run ok by (auto simp: NewTXKeyOpts_def add_error_def split: if_splits)
  obtain base ns est n1 where p: "getProposedTransactionOptions env m keyNum = Ret (m', base, ns, est)"
    and n1: "client_net m' = Ret n1" and opts: "opts = configureTransactionOpts n1 base (PendingNonce ns) est os"
    using run range by (auto elim: NewTXKeyOpts_proposed)
  from p show ?thesis
  proof (cases rule: getProposed_cases)
    case (failed cfg' hc' errs err)
    then show ?thesis using ok by simp
  next
    case (proposed addr pk n cfg' hc' keyed)
    have none: "pending_err m keyNum ns = None"
      using ok proposed(8) by (cases "pending_err m keyNum ns") (auto simp: add_error_def)
    have m': "m' = m\<lparr>Cfg := cfg', HeaderCache := hc'\<rparr>" and base: "base = keyed" using proposed(8,9) none by simp_all
    have keyed: "keyed = empty_opts\<lparr>optSigner := Some pk, optContext := Some Background\<rparr>"
      by (rule fresh_transactorD [OF transactor proposed(7)])
    obtain n' where n': "deref cfg' (cfgNetwork cfg') = Ret n'" "degraded n n'" "priced n' est"
      "cfg' = upd_net (the (cfgNetwork (Cfg m))) (\<lambda>_. n') (Cfg m)"
      using CalculateGasEstimations_ok [OF proposed(6)] proposed(5) by (auto simp: client_net_def)
    have "n1 = n'" using n1 n'(1) m' by (simp add: client_net_def)
    define final where "final = configureTransactionOpts n' keyed (PendingNonce ns) est []"
    have fold: "opts = fold (\<lambda>f opts. f opts) os final"
      using opts base \<open>n1 = n'\<close> by (simp add: configureTransactionOpts_def final_def Let_def)
    have price: "if EIP1559DynamicFees n' then optGasPrice final = None \<and> optGasFeeCap final \<noteq> None \<and> optGasTipCap final \<noteq> None
     else optGasPrice final \<noteq> None \<and> optGasFeeCap final = None \<and> optGasTipCap final = None"
      using n'(3) by (simp add: final_def configureTransactionOpts_def keyed empty_opts_def priced_def Let_def)
    have "optSigner final = Some pk" "optNonce final = Some (int64 (PendingNonce ns))"
      by (simp_all add: final_def configureTransactionOpts_def keyed Let_def)
    moreover have "addr = clAddresses m ! nat keyNum" "pk = PrivateKeys m ! nat keyNum"
      using proposed(1,2) by (auto simp: go_index_def split: if_splits)
    moreover have "m' = m\<lparr>Cfg := upd_net (the (cfgNetwork (Cfg m))) (\<lambda>_. n') (Cfg m), HeaderCache := hc'\<rparr>" using m' n'(4) by simp
    ultimately show ?thesis using fold price n1 \<open>n1 = n'\<close> n'(2) proposed(3,5) by blast
  qed
qed

definition ex_opts_env_quiet :: "nat opts_env" where
  "ex_opts_env_quiet = ex_opts_env\<lparr>oeNonceAt := (\<lambda>a. Inr 7)\<rparr>"

theorem tx_opts_complete_witness:
  "\<exists>m' opts. NewTXKeyOpts ex_opts_env_quiet ex_client 0 [] = Ret (m', opts) \<and> optSigner opts = Some 42 \<and> optNonce opts = Some 7 \<and>
     optGasPrice opts = None \<and> optGasFeeCap opts \<noteq> None"
proof -
  obtain m' opts where run: "NewTXKeyOpts ex_opts_env_quiet ex_client 0 [] = Ret (m', opts)" and errs: "clErrors m' = clErrors ex_client"
    and net: "client_net m' = Ret ex_net_fixed"
    by (simp add: ex_opts_simps ex_opts_env_quiet_def)
  have fresh: "fresh_transactor (oeTransactor ex_opts_env_quiet)"
    by (simp add: fresh_transactor_def ex_opts_env_quiet_def ex_opts_env_def)
  have "EIP1559DynamicFees ex_net_fixed" by (simp add: ex_net_fixed_def ex_net_def)
  then have "optSigner opts = Some 42 \<and> optNonce opts = Some (int64 7) \<and> optGasPrice opts = None \<and> optGasFeeCap opts \<noteq> None"
    using tx_opts_complete [OF run errs fresh] net by (auto simp: ex_client_def ex_opts_env_quiet_def ex_opts_env_def)
  moreover have "int64 7 = 7" by (simp add: int64_def)
  ultimately show ?thesis using run by auto
qed

text \<open>
  Out of range key numbers: negative ones and those above the number of addresses give options with the error, as the comment
  in the code promises, but the number of addresses itself passes the check and panics.
\<close>

theorem tx_key_range:
  "NewTXKeyOpts env m keyNum os =
     (if keyNum < 0 \<or> int (length (clAddresses m)) < keyNum
      then Ret (add_error (keyNumErr m keyNum) m, error_opts (keyNumErr m keyNum))
      else if keyNum = int (length (clAddresses m)) then Panic ''index out of range''
      else proposed_opts env m keyNum os)"
  by (auto simp: NewTXKeyOpts_def go_index_def)

subsection \<open>Waiting\<close>

text \<open>
  The wait skips ticks that fail or see pending transactions; what follows decides: a quiet tick ends it well, the timeout with
  the error, and without either it goes on.
\<close>

definition keeps_waiting :: "wait_event \<Rightarrow> bool" where
  "keeps_waiting ev = (case ev of
      TimeoutFired \<Rightarrow> False
    | Tick (Inl _) \<Rightarrow> True
    | Tick (Inr nonceStatus) \<Rightarrow> PendingNonce nonceStatus > LastNonce nonceStatus)"

lemma wait_loop_decides:
  "wait_loop e evs = (case dropWhile keeps_waiting evs of [] \<Rightarrow> None | TimeoutFired # _ \<Rightarrow> Some (Some e) | Tick _ # _ \<Rightarrow> Some None)"
  by (induction e evs rule: wait_loop.induct) (simp_all add: keeps_waiting_def)

subsection \<open>The price of plain transfers\<close>

text \<open>Without a header cache there is never a suggestion: the congestion metric fails and its error is not one to be ignored.\<close>

lemma standard_price_uncached:
  assumes run: "standard_gas_price Log10 nd c = Ret (c', p)" and cache: "HeaderCache c = None"
  shows "c' = c \<and> (\<exists>n. client_net c = Ret n \<and> p = netGasPrice n)"
proof -
  obtain n hc' r where n: "client_net c = Ret n" and r: "GetSuggestedLegacyFees Log10 nd n None Priority_Standard = Ret (hc', r)"
    and c': "c' = c\<lparr>HeaderCache := hc'\<rparr>" and p: "p = (case r of Inl err \<Rightarrow> netGasPrice n | Inr p \<Rightarrow> p)"
    using run cache by (auto simp: standard_gas_price_def go_bind_Ret_iff)
  have "\<not> Contains ''header cache is nil'' BlockFetchingErr" by (simp add: BlockFetchingErr_def HasPrefix_def)
  then have buf: "congestion_buffer (Inl (ErrNew ''header cache is nil'')) = Inl (ErrNew ''header cache is nil'')"
    by (simp add: congestion_buffer_def del: Contains.simps)
  have "hc' = None \<and> (\<exists>err. r = Inl err)"
  proof (cases "SuggestGasPrice nd")
    case (Inl e)
    then have "GetSuggestedLegacyFees Log10 nd n None Priority_Standard = Ret (None, Inl e)" by (simp add: GetSuggestedLegacyFees_def)
    with r have "r = Inl e" "hc' = None" by simp_all
    then show ?thesis by blast
  next
    case (Inr s)
    with r show ?thesis
      by (auto simp: GetSuggestedLegacyFees_def network_congestion_def congestion_run_def buf go_bind_Ret_iff case_sum_eq split: if_splits)
  qed
  then show ?thesis using c' p n cache by (cases c) auto
qed

end
