(* ===== verification/Client_Ops.thy ===== *)
theory Client_Ops
  imports Tx_Options
begin

text \<open>
  The client's operations on sent transactions: \<open>Decode\<close> with gas bumping, \<open>DeployContract\<close> and its variants, \<open>LoadContract\<close>
  (\<^verbatim>\<open>src/client.go\<close>) and \<open>RetryTxAndDecode\<close> (\<^verbatim>\<open>src/retry.go\<close>). The retry library is a parameter: a function of the number
  of attempts, the retry test, the callback and the retried function, which both change a state. Node answers are indexed by
  the attempt. DOT and JSON files and contract map entries that are written are returned as \<open>artifact\<close>s. The theorems: what \<open>Decode\<close>
  returns is the fate of the caller's own transaction under the nonce it was sent with, a revert is always an error, and a deployed
  contract is found under its own ABI.
\<close>

subsection \<open>Retrying\<close>

type_synonym 's retry_do =
  "int \<Rightarrow> (goerr \<Rightarrow> bool) \<Rightarrow> (goerr \<Rightarrow> 's \<Rightarrow> 's go) \<Rightarrow> ('s \<Rightarrow> ('s \<times> goerr option) go) \<Rightarrow> 's \<Rightarrow> ('s \<times> goerr option) go"

text \<open>The states reached by failed runs of the function and by callbacks.\<close>

inductive retry_reach :: "(goerr \<Rightarrow> 's \<Rightarrow> 's go) \<Rightarrow> ('s \<Rightarrow> ('s \<times> goerr option) go) \<Rightarrow> 's \<Rightarrow> 's \<Rightarrow> bool" for onRetry f s0 where
  start: "retry_reach onRetry f s0 s0"
| failed_run: "retry_reach onRetry f s0 s \<Longrightarrow> f s = Ret (s', Some err) \<Longrightarrow> retry_reach onRetry f s0 s'"
| callback: "retry_reach onRetry f s0 s \<Longrightarrow> onRetry err s = Ret s' \<Longrightarrow> retry_reach onRetry f s0 s'"

text \<open>
  What the code relies on: the library reports success only right after a successful run of the function, in a state reached in
  this way; and when the first run succeeds it is the only one.
\<close>

definition retry_sound :: "'s retry_do \<Rightarrow> bool" where
  "retry_sound Do \<longleftrightarrow> (\<forall>attempts retryIf onRetry f s0 s'. Do attempts retryIf onRetry f s0 = Ret (s', None) \<longrightarrow>
     (\<exists>s. retry_reach onRetry f s0 s \<and> f s = Ret (s', None)))"

definition retry_first :: "'s retry_do \<Rightarrow> bool" where
  "retry_first Do \<longleftrightarrow> (\<forall>attempts retryIf onRetry f s0 s'. 0 < attempts \<longrightarrow> f s0 = Ret (s', None) \<longrightarrow>
     Do attempts retryIf onRetry f s0 = Ret (s', None))"

subsection \<open>The environment\<close>

datatype artifact =
    DotFile string dot_file
  | TraceJson string
  | TxJson string
  | RevertedHash string
  | ContractEntry string string string

record wait_state =
  wsTx :: Transaction
  wsReceipt :: "Receipt option"
  wsTry :: nat

record 'pk client_env =
  ceLib :: abi_lib
  ceHex :: hex_lib
  hashString :: "hash \<Rightarrow> string"
  addrString :: "address \<Rightarrow> string"
  isProtected :: "Transaction \<Rightarrow> bool"
  ceSender :: "Transaction \<Rightarrow> address res"
  ceTxEnv :: "nat \<Rightarrow> 'pk tx_env"
  cePolls :: "nat \<Rightarrow> Transaction \<Rightarrow> Receipt res list"
  ceCallContract :: "CallMsg \<Rightarrow> int \<Rightarrow> goerr option"
  ceCodeAt :: "address \<Rightarrow> int \<Rightarrow> byte list res"
  ceFourByte :: "string \<Rightarrow> (string, int) gomap res"
  ceCallTrace :: "string \<Rightarrow> TXCallTraceOutput res"
  ceDotGraph :: dot_env
  ceBindDeploy :: "'pk TransactOpts \<Rightarrow> ABI \<Rightarrow> byte list \<Rightarrow> (address \<times> Transaction \<times> nat) res"
  ceWaitDeployed :: "nat \<Rightarrow> Transaction \<Rightarrow> goerr option"
  ceBindWaitMined :: "nat \<Rightarrow> Transaction \<Rightarrow> Receipt res"
  ceWrappedErrors :: "goerr \<Rightarrow> goerr option list option"
  ceRetryError :: "goerr list \<Rightarrow> goerr"

text \<open>\<open>errors.Is\<close> against a value just made by \<open>errors.New\<close> compares pointers, and no other error is that pointer.\<close>

definition errors_Is_new :: "goerr \<Rightarrow> string \<Rightarrow> bool" where
  "errors_Is_new err m = False"

subsection \<open>Decode\<close>

text \<open>The function \<open>Decode\<close> retries, its callback that bumps the gas, the number of attempts and the retry test.\<close>

definition wait_attempt :: "'pk client_env \<Rightarrow> wait_state \<Rightarrow> (wait_state \<times> goerr option) go" where
  "wait_attempt env st =
     (case WaitMined ErrDeadlineExceeded (cePolls env (wsTry st) (wsTx st)) of
        Inl err \<Rightarrow> Ret (st\<lparr>wsReceipt := None\<rparr>, Some err)
      | Inr receipt \<Rightarrow> Ret (st\<lparr>wsReceipt := Some receipt\<rparr>, None))"

definition bump_gas :: "'pk client_env \<Rightarrow> 'pk Client \<Rightarrow> wait_state \<Rightarrow> wait_state go" where
  "bump_gas env m st =
     go_bind (prepareReplacementTransaction (ceTxEnv env (wsTry st)) (addrString env) (Cfg m) (clAddresses m) (PrivateKeys m) (wsTx st))
       (\<lambda>(sent, r). Ret (case r of
           Inl replacementErr \<Rightarrow> st\<lparr>wsTry := Suc (wsTry st)\<rparr>
         | Inr replacementTx \<Rightarrow> st\<lparr>wsTx := replacementTx, wsTry := Suc (wsTry st)\<rparr>))"

definition decode_attempts :: "Config \<Rightarrow> int" where
  "decode_attempts cfg = (if GasBumpRetries cfg = 0 then 1 else GasBumpRetries cfg)"

definition decode_retryIf :: "Config \<Rightarrow> goerr \<Rightarrow> bool" where
  "decode_retryIf cfg err \<longleftrightarrow> GasBumpRetries cfg \<noteq> 0 \<and> isDeadlineExceeded err"

text \<open>The part of \<open>Decode\<close> after decoding: tracing, by level, with the graph it draws, and the JSON files.\<close>

definition trace_decoded ::
  "'pk client_env \<Rightarrow> 'pk Client \<Rightarrow> DecodedTransaction \<Rightarrow> goerr option \<Rightarrow> ('pk Client \<times> artifact list) go" where
  "trace_decoded env m decoded revertErr =
     (let json = hasOutput (Cfg m) TraceOutput_JSON; h = dtHash decoded in
      if TracingLevel (Cfg m) = TracingLevel_All \<or> TracingLevel (Cfg m) = TracingLevel_Reverted \<and> revertErr \<noteq> None then
        (case clTracer m of
           None \<Rightarrow> Panic ''nil pointer dereference''
         | Some t \<Rightarrow>
             go_bind (TraceGethTX (ceLib env) (ceHex env) (clContractStore m) (clAddresses m) (ceFourByte env h) (ceCallTrace env h)
                 (ceDotGraph env) (Cfg m) h revertErr (t\<lparr>trMap := ContractAddressToNameMap m\<rparr>)) (\<lambda>(t', dot, traceErr).
             let drawn = (case dot of None \<Rightarrow> [] | Some d \<Rightarrow> [DotFile h d]);
                 m1 = m\<lparr>clTracer := Some t', ContractAddressToNameMap := trMap t'\<rparr> in
             Ret (case traceErr of
                 Some err \<Rightarrow>
                   (if Contains (errorText err) ''debug_traceTransaction does not exist''
                    then m1\<lparr>Cfg := (Cfg m1)\<lparr>TracingLevel := TracingLevel_None\<rparr>\<rparr> else m1,
                    drawn @ (if json then [TxJson h] else []))
               | None \<Rightarrow> (m1, drawn @ (if json then [TraceJson h] else [])))))
      else Ret (m, []))"

text \<open>The part of \<open>Decode\<close> after the receipt is there.\<close>

definition decode_mined ::
  "'pk client_env \<Rightarrow> 'pk Client \<Rightarrow> Transaction \<Rightarrow> Receipt \<Rightarrow> ('pk Client \<times> artifact list \<times> DecodedTransaction option \<times> goerr option) go" where
  "decode_mined env m tx receipt =
     go_bind (if Status receipt = 0
              then callAndGetRevertReason (ceLib env) (ceSender env) (ceCallContract env) (ceCodeAt env) (clContractStore m) tx receipt
              else Ret None) (\<lambda>revertErr.
     go_bind (decodeTransaction (ceLib env) (hashString env) (addrString env) (isProtected env) (clContractStore m) (clABIFinder m)
         (ContractAddressToNameMap m) tx (Some receipt)) (\<lambda>(cm', decoded, decodeErr).
     let m1 = m\<lparr>ContractAddressToNameMap := cm'\<rparr> in
     if (case decodeErr of None \<Rightarrow> False | Some e \<Rightarrow> errors_Is_new e ErrNoABIMethod)
     then Ret (m1, if hasOutput (Cfg m) TraceOutput_JSON then [RevertedHash (hashString env (txHash tx))] else [], Some decoded, revertErr)
     else if TracingLevel (Cfg m) = TracingLevel_None then Ret (m1, [], Some decoded, revertErr)
     else go_bind (trace_decoded env m1 decoded revertErr) (\<lambda>(m2, files). Ret (m2, files, Some decoded, revertErr))))"

definition Decode ::
  "wait_state retry_do \<Rightarrow> 'pk client_env \<Rightarrow> 'pk Client \<Rightarrow> Transaction option \<Rightarrow> goerr option \<Rightarrow>
   ('pk Client \<times> artifact list \<times> DecodedTransaction option \<times> goerr option) go" where
  "Decode retryDo env m tx txErr =
     (if clErrors m \<noteq> [] then Ret (m, [], None, Some (ErrJoin (clErrors m)))
      else case txErr of
        Some e \<Rightarrow>
          go_bind (DecodeCustomABIErr (ceLib env) (clContractStore m) (Some e)) (\<lambda>r.
          Ret (m, [], None, Some (case r of Inr reason \<Rightarrow> ErrWrap reason e | Inl decodingErr \<Rightarrow> e)))
      | None \<Rightarrow>
          (case tx of
             None \<Rightarrow> Ret (m, [], None, None)
           | Some tx0 \<Rightarrow>
               go_bind (client_net m) (\<lambda>n.
               if TxnTimeout n = None then Panic ''nil pointer dereference''
               else go_bind (retryDo (decode_attempts (Cfg m)) (decode_retryIf (Cfg m)) (\<lambda>err. bump_gas env m) (wait_attempt env)
                   \<lparr>wsTx = tx0, wsReceipt = None, wsTry = 0\<rparr>) (\<lambda>(st, err).
                 case err of
                   Some e \<Rightarrow> Ret (m, [], None, Some e)
                 | None \<Rightarrow>
                     (case wsReceipt st of
                        None \<Rightarrow> Panic ''nil pointer dereference''
                      | Some receipt \<Rightarrow> decode_mined env m (wsTx st) receipt)))))"

definition ErrRPCConnectionRefused :: string where "ErrRPCConnectionRefused = ''connection refused''"
definition ErrRetryTimeout :: string where "ErrRetryTimeout = ''retry timeout''"

text \<open>
  \<open>RetryTxAndDecode\<close>: the caller's function gives an answer per call; the state is the number of calls and the last
  transaction. The result has no transaction when the code returns an empty one.
\<close>

definition RetryTxAndDecode ::
  "(nat \<times> Transaction option) retry_do \<Rightarrow> wait_state retry_do \<Rightarrow> 'pk client_env \<Rightarrow> 'pk Client \<Rightarrow> (nat \<Rightarrow> Transaction option \<times> goerr option) \<Rightarrow>
   ('pk Client \<times> artifact list \<times> DecodedTransaction option \<times> goerr option) go" where
  "RetryTxAndDecode retryTx retryDo env m f =
     go_bind (retryTx 10 (\<lambda>err. Contains (errorText err) ErrRPCConnectionRefused) (\<lambda>err st. Ret st)
         (\<lambda>(k, tx). let (tx', err) = f k in Ret ((Suc k, tx'), err)) (0, None)) (\<lambda>((k, tx), err).
     case err of
       Some e \<Rightarrow> Ret (m, [], None, Some (ErrNew ErrRetryTimeout))
     | None \<Rightarrow>
         go_bind (Decode retryDo env m tx None) (\<lambda>(m', files, dt, err').
         Ret (case err' of
             Some e \<Rightarrow> (m', files, None, Some (ErrWrap ''error decoding transaction'' e))
           | None \<Rightarrow> (m', files, dt, None))))"

subsection \<open>Deployment\<close>

definition wrapErrInMessageWithASuggestion :: "goerr \<Rightarrow> goerr" where
  "wrapErrInMessageWithASuggestion err =
     ErrNew (newline @ newline @ ''This error could be caused by several issues. Please try these steps to resolve it:'' @ newline @ newline @
       ''1. Make sure the address you are using has sufficient funds.'' @ newline @
       ''2. Use a different RPC node. The current one might be out of sync or malfunctioning.'' @ newline @
       ''3. Review the logs to see if automatic gas estimations were unsuccessful. If they were, check that the fallback gas prices are set correctly.'' @ newline @
       ''4. If a gas limit was manually set, try commenting it out to let the node estimate it instead and see if that resolves the issue.'' @ newline @
       ''5. Conversely, if a gas limit was set manually, try increasing it to a higher value. This adjustment is especially crucial for some Layer 2 solutions that have variable gas limits.'' @ newline @ newline @
       ''Original error:'' @ newline @ errorText err)"

definition notMinedErr :: "Network \<Rightarrow> goerr" where
  "notMinedErr n = ErrNew (''deployment transaction was not mined within '' @
     duration_string (case TxnTimeout n of None \<Rightarrow> 0 | Some d \<Rightarrow> Duration_Duration d))"

text \<open>The loop that sets \<open>areAllTimeouts\<close>: it stops at the first error that is not a timeout, and keeps what it has seen before.\<close>

fun areAllTimeouts :: "goerr option list \<Rightarrow> bool \<Rightarrow> bool" where
  "areAllTimeouts [] seen = seen"
| "areAllTimeouts (e # es) seen =
     (if \<not> (case e of None \<Rightarrow> False | Some err \<Rightarrow> isDeadlineExceeded err) then seen else areAllTimeouts es True)"

definition rewriteDeploymentError :: "'pk client_env \<Rightarrow> Network \<Rightarrow> goerr \<Rightarrow> goerr" where
  "rewriteDeploymentError env n err =
     (case ceWrappedErrors env err of
        Some wrapped \<Rightarrow>
          if areAllTimeouts wrapped False then ceRetryError env (map (\<lambda>_. notMinedErr n) wrapped) else err
      | None \<Rightarrow> if isDeadlineExceeded err then notMinedErr n else err)"

record DeploymentData =
  ddAddress :: address
  ddTransaction :: Transaction
  BoundContract :: nat

definition ErrContractDeploymentFailed :: string where
  "ErrContractDeploymentFailed = ''contract deployment failed''"

definition deploy_attempt :: "'pk client_env \<Rightarrow> wait_state \<Rightarrow> (wait_state \<times> goerr option) go" where
  "deploy_attempt env st =
     Ret (st, case ceWaitDeployed env (wsTry st) (wsTx st) of
         None \<Rightarrow> None
       | Some err \<Rightarrow>
           if isDeadlineExceeded err then Some err
           else (case ceBindWaitMined env (wsTry st) (wsTx st) of
                   Inl mineErr \<Rightarrow> Some mineErr
                 | Inr receipt \<Rightarrow> if Status receipt = 0 then Some (ErrNew ''deployment transaction was reverted'') else Some err))"

definition deploy_onRetry :: "'pk client_env \<Rightarrow> 'pk Client \<Rightarrow> goerr \<Rightarrow> wait_state \<Rightarrow> wait_state go" where
  "deploy_onRetry env m retryErr st =
     (if isDeadlineExceeded retryErr then bump_gas env m st else Ret (st\<lparr>wsTry := Suc (wsTry st)\<rparr>))"

definition deploy_attempts :: "Config \<Rightarrow> int" where
  "deploy_attempts cfg = (if GasBumpRetries cfg \<noteq> 0 then GasBumpRetries cfg else 10)"

definition deploy_retryIf :: "Config \<Rightarrow> goerr \<Rightarrow> bool" where
  "deploy_retryIf cfg err \<longleftrightarrow>
     Contains (ToLower (errorText err)) ''no contract code at given address'' \<or>
     Contains (ToLower (errorText err)) ''no contract code after deployment'' \<or>
     GasBumpRetries cfg \<noteq> 0 \<and> isDeadlineExceeded err"

text \<open>The address book and the ABI store after the deployment transaction was sent.\<close>

definition register_contract :: "string \<Rightarrow> string \<Rightarrow> ABI \<Rightarrow> 'pk Client \<Rightarrow> 'pk Client go" where
  "register_contract addr name a m =
     (case clContractStore m of
        None \<Rightarrow> Panic ''nil pointer dereference''
      | Some cs \<Rightarrow>
          Ret (m\<lparr>ContractAddressToNameMap := AddContract (ContractAddressToNameMap m) addr name,
                clContractStore := Some (if GetABI cs name = None then AddABI cs name a else cs)\<rparr>))"

definition DeployContract ::
  "wait_state retry_do \<Rightarrow> 'pk client_env \<Rightarrow> 'pk Client \<Rightarrow> 'pk TransactOpts \<Rightarrow> string \<Rightarrow> ABI \<Rightarrow> byte list \<Rightarrow>
   ('pk Client \<times> artifact list \<times> DeploymentData res) go" where
  "DeployContract retryDo env m auth name a bytecode =
     (case optContext auth of
        Some (WithErr err) \<Rightarrow>
          Ret (m, [], Inl (ErrWrap (''aborted contract deployment for '' @ name @ '', because context passed in transaction options had an error set'') err))
      | _ \<Rightarrow>
          (case ceBindDeploy env auth a bytecode of
             Inl err \<Rightarrow> Ret (m, [], Inl (wrapErrInMessageWithASuggestion err))
           | Inr (addr, tx, contract) \<Rightarrow>
               go_bind (register_contract (addrString env addr) name a m) (\<lambda>m1.
               go_bind (client_net m1) (\<lambda>n.
               if TxnTimeout n = None then Panic ''nil pointer dereference''
               else go_bind (retryDo (deploy_attempts (Cfg m1)) (deploy_retryIf (Cfg m1)) (deploy_onRetry env m1) (deploy_attempt env)
                   \<lparr>wsTx = tx, wsReceipt = None, wsTry = 0\<rparr>) (\<lambda>(st, err).
                 case err of
                   Some e \<Rightarrow>
                     go_bind (Decode retryDo env m1 (Some (wsTx st)) (Some (ErrNew ErrContractDeploymentFailed))) (\<lambda>(m2, files, _, _).
                     Ret (m2, files, Inl (wrapErrInMessageWithASuggestion (rewriteDeploymentError env n e))))
                 | None \<Rightarrow>
                     go_bind (ShouldSaveDeployedContractMap (Cfg m1)) (\<lambda>save.
                     Ret (m1, if save then [ContractEntry (ContractMapFile (Cfg m1)) name (addrString env addr)] else [],
                          Inr \<lparr>ddAddress = addr, ddTransaction = wsTx st, BoundContract = contract\<rparr>)))))))"

definition DeployContractFromContractStore ::
  "wait_state retry_do \<Rightarrow> 'pk client_env \<Rightarrow> 'pk Client \<Rightarrow> 'pk TransactOpts \<Rightarrow> string \<Rightarrow> ('pk Client \<times> artifact list \<times> DeploymentData res) go" where
  "DeployContractFromContractStore retryDo env m auth name0 =
     (case clContractStore m of
        None \<Rightarrow> Ret (m, [], Inl (ErrNew ''ABIStore is nil''))
      | Some cs \<Rightarrow>
          (let name = TrimSuffix (TrimSuffix name0 ''.abi'') ''.bin'' in
           case map_of (ABIs cs) (name @ ''.abi'') of
             None \<Rightarrow> Ret (m, [], Inl (ErrNew ''ABI not found''))
           | Some contractAbi \<Rightarrow>
               (case map_of (BINs cs) (name @ ''.bin'') of
                  None \<Rightarrow> Ret (m, [], Inl (ErrNew ''BIN not found''))
                | Some bytecode \<Rightarrow> DeployContract retryDo env m auth name contractAbi bytecode)))"

definition LoadContract ::
  "'pk Client \<Rightarrow> string \<Rightarrow> string \<Rightarrow> ABI res \<Rightarrow> 'w res \<Rightarrow> ('pk Client \<times> 'w res) go" where
  "LoadContract m name addr abiLoad wrapperInit =
     (case abiLoad of
        Inl err \<Rightarrow> Ret (m, Inl err)
      | Inr abiData \<Rightarrow>
          (case clContractStore m of
             None \<Rightarrow> Panic ''nil pointer dereference''
           | Some cs \<Rightarrow>
               Ret (m\<lparr>clContractStore := Some (AddABI cs name abiData),
                      ContractAddressToNameMap := AddContract (ContractAddressToNameMap m) addr name\<rparr>, wrapperInit)))"

subsection \<open>Gas bumping stays with the caller's transaction\<close>

text \<open>What go-ethereum documents of signing: the signed transaction has the fields of the data, for the given chain.\<close>

definition signs_data :: "'pk tx_env \<Rightarrow> bool" where
  "signs_data env \<longleftrightarrow> (\<forall>pk chainID d r. SignNewTx env pk chainID d = Inr r \<longrightarrow>
     txNonce r = dNonce (data_common d) \<and> txTo r = dTo (data_common d) \<and> txGas r = dGas (data_common d) \<and>
     txData r = dData (data_common d) \<and> txChainId r = chainID)"

definition same_call :: "Transaction \<Rightarrow> Transaction \<Rightarrow> bool" where
  "same_call tx tx' \<longleftrightarrow> txNonce tx' = txNonce tx \<and> txTo tx' = txTo tx \<and> txGas tx' = txGas tx \<and> txData tx' = txData tx \<and>
     txChainId tx' = txChainId tx"

lemma same_call_refl [simp]: "same_call tx tx"
  and same_call_trans: "same_call a b \<Longrightarrow> same_call b c \<Longrightarrow> same_call a c"
  by (simp_all add: same_call_def)

lemma replacement_signed:
  assumes "prepareReplacementTransaction env addrS cfg addrs pks tx = Ret (sent, Inr r)"
  shows "\<exists>pk mx d. replacement_data cfg mx tx = Ret (Inr d) \<and> SignNewTx env pk (txChainId tx) d = Inr r"
  using assms
  by (auto simp: prepareReplacementTransaction_def go_bind_Ret_iff sign_and_send_Inr split: if_splits sum.splits option.splits)

lemma replacement_same_call:
  assumes "prepareReplacementTransaction env addrS cfg addrs pks tx = Ret (sent, Inr r)" and "signs_data env"
  shows "same_call tx r"
proof -
  obtain pk mx d where d: "replacement_data cfg mx tx = Ret (Inr d)" and s: "SignNewTx env pk (txChainId tx) d = Inr r"
    using replacement_signed [OF assms(1)] by blast
  then show ?thesis using assms(2) replacement_data_keeps(1-4) [OF d] by (simp add: signs_data_def same_call_def)
qed

lemma bump_gas_same_call:
  assumes "bump_gas env m st = Ret st'" and "\<forall>k. signs_data (ceTxEnv env k)"
  shows "same_call (wsTx st) (wsTx st')"
proof -
  obtain sent r where p: "prepareReplacementTransaction (ceTxEnv env (wsTry st)) (addrString env) (Cfg m) (clAddresses m) (PrivateKeys m)
      (wsTx st) = Ret (sent, r)" and st': "st' = (case r of Inl e \<Rightarrow> st\<lparr>wsTry := Suc (wsTry st)\<rparr> | Inr t \<Rightarrow> st\<lparr>wsTx := t, wsTry := Suc (wsTry st)\<rparr>)"
    using assms(1) by (auto simp: bump_gas_def go_bind_Ret_iff)
  then show ?thesis using replacement_same_call [OF _ assms(2) [rule_format]] by (cases r) auto
qed

lemma reach_same_call:
  assumes "retry_reach onRetry f s0 s"
    and "\<And>st st' err. f st = Ret (st', err) \<Longrightarrow> wsTx st' = wsTx st"
    and "\<And>st st' err. onRetry err st = Ret st' \<Longrightarrow> same_call (wsTx st) (wsTx st')"
  shows "same_call (wsTx s0) (wsTx s)"
  using assms(1)
proof (induction rule: retry_reach.induct)
  case start
  then show ?case by simp
next
  case (failed_run s s' err)
  then show ?case using assms(2) by metis
next
  case (callback s err s')
  then show ?case using assms(3) same_call_trans by metis
qed

lemma WaitMined_polled: "WaitMined e polls = Inr receipt \<Longrightarrow> Inr receipt \<in> set polls"
  by (induction e polls rule: WaitMined.induct) auto

lemma decodeTransaction_about:
  assumes "decodeTransaction lib hx as pr store hasFinder cm tx rc = Ret (cm', decoded, err)"
  shows "dtTransaction decoded = tx \<and> dtReceipt decoded = rc"
proof -
  have dflt: "dtTransaction (defaultTxn hx pr tx rc) = tx" "dtReceipt (defaultTxn hx pr tx rc) = rc"
    by (simp_all add: defaultTxn_def CommonData.defs DecodedTransaction.defs zero_common_def)
  let ?addr = "case txTo tx of None \<Rightarrow> UNKNOWN | Some a \<Rightarrow> as a"
  show ?thesis
  proof (cases "length (txData tx) < 4 \<or> store = None \<or> \<not> hasFinder")
    case True
    then have "decodeTransaction lib hx as pr store hasFinder cm tx rc = Ret (cm, defaultTxn hx pr tx rc, None)"
      by (cases store) (auto simp: decodeTransaction_def Let_def)
    then show ?thesis using assms dflt by simp
  next
    case False
    then obtain cs where cs: "store = Some cs" by auto
    obtain cm1 r where find: "FindABIByMethod (MethodById lib) (ABIs cs) cm ?addr (take 4 (txData tx)) = (cm1, r)"
      by (cases "FindABIByMethod (MethodById lib) (ABIs cs) cm ?addr (take 4 (txData tx))")
    show ?thesis
    proof (cases r)
      case (Inl e)
      then show ?thesis using assms dflt False cs find by (auto simp: decodeTransaction_def Let_def)
    next
      case (Inr abiResult)
      show ?thesis
      proof (cases "decodeTxInputs lib (txData tx) (resMethod abiResult)")
        case (Inl e)
        then show ?thesis using assms dflt False cs find Inr by (auto simp: decodeTransaction_def Let_def)
      next
        case inp: (Inr txInput)
        have "\<exists>q. (case q of
            Inl err \<Rightarrow> (cm1, defaultTxn hx pr tx rc, Some err)
          | Inr (txEvents, txIndex) \<Rightarrow>
              (cm1, (defaultTxn hx pr tx rc)\<lparr>Signature := hex_EncodeToString (mID (resMethod abiResult)),
                 cdMethod := mSig (resMethod abiResult), Input := txInput, dtIndex := txIndex, dtEvents := txEvents\<rparr>, None)) = (cm', decoded, err)"
          using assms False cs find Inr inp by (auto simp: decodeTransaction_def Let_def go_bind_Ret_iff)
        then obtain q where "(case q of
            Inl err \<Rightarrow> (cm1, defaultTxn hx pr tx rc, Some err)
          | Inr (txEvents, txIndex) \<Rightarrow>
              (cm1, (defaultTxn hx pr tx rc)\<lparr>Signature := hex_EncodeToString (mID (resMethod abiResult)),
                 cdMethod := mSig (resMethod abiResult), Input := txInput, dtIndex := txIndex, dtEvents := txEvents\<rparr>, None)) = (cm', decoded, err)"
          by blast
        then show ?thesis using dflt by (cases q) auto
      qed
    qed
  qed
qed

lemma decode_mined_about:
  assumes "decode_mined env m tx receipt = Ret (m', files, out, err)"
  shows "\<exists>decoded. out = Some decoded \<and> dtTransaction decoded = tx \<and> dtReceipt decoded = Some receipt \<and>
    (Status receipt \<noteq> 0 \<longrightarrow> err = None) \<and> (Status receipt = 0 \<and> (\<exists>a. ceSender env tx = Inr a) \<longrightarrow> err \<noteq> None)"
proof -
  let ?reason = "callAndGetRevertReason (ceLib env) (ceSender env) (ceCallContract env) (ceCodeAt env) (clContractStore m) tx receipt"
  obtain revertErr where rev: "(if Status receipt = 0 then ?reason else Ret None) = Ret revertErr"
    using assms by (auto simp: decode_mined_def go_bind_Ret_iff)
  obtain cm' decoded decodeErr where dec: "decodeTransaction (ceLib env) (hashString env) (addrString env) (isProtected env)
      (clContractStore m) (clABIFinder m) (ContractAddressToNameMap m) tx (Some receipt) = Ret (cm', decoded, decodeErr)"
    using assms rev by (auto simp: decode_mined_def go_bind_Ret_iff)
  have never: "(case decodeErr of None \<Rightarrow> False | Some e \<Rightarrow> errors_Is_new e ErrNoABIMethod) = False"
    by (simp add: errors_Is_new_def split: option.splits)
  have out: "out = Some decoded" "err = revertErr"
    using assms rev dec never
    by (auto simp: decode_mined_def Let_def go_bind_Ret_iff split: if_splits)
  have "revertErr \<noteq> None" if "Status receipt = 0" "ceSender env tx = Inr a" for a
    using revert_reported [where SenderOf = "ceSender env", OF that(2)] rev that(1) by metis
  moreover have "revertErr = None" if "Status receipt \<noteq> 0" using rev that by simp
  ultimately show ?thesis using out decodeTransaction_about [OF dec] by blast
qed

lemma Decode_waits:
  assumes "Decode retryDo env m (Some tx) None = Ret (m', files, Some decoded, err)"
  obtains st receipt where "retryDo (decode_attempts (Cfg m)) (decode_retryIf (Cfg m)) (\<lambda>err. bump_gas env m) (wait_attempt env)
      \<lparr>wsTx = tx, wsReceipt = None, wsTry = 0\<rparr> = Ret (st, None)" "wsReceipt st = Some receipt"
    "decode_mined env m (wsTx st) receipt = Ret (m', files, Some decoded, err)" "clErrors m = []"
  using assms
  by (auto simp: Decode_def go_bind_Ret_iff split: if_splits option.splits)

text \<open>
  C2. When \<open>Decode\<close> returns a decoded transaction, it is the caller's: the transaction itself or a replacement of it, with the same
  nonce, recipient, gas limit, call data and chain, mined with the receipt that is returned with it. The error says how it
  ended: no error for a successful transaction, even when decoding or tracing failed, and an error for a reverted one
  whose sender can be recovered.
\<close>

theorem Decode_reports_own_fate:
  assumes run: "Decode retryDo env m (Some tx) None = Ret (m', files, Some decoded, err)"
    and lib: "retry_sound retryDo" and signer: "\<forall>k. signs_data (ceTxEnv env k)"
  shows "\<exists>receipt k. same_call tx (dtTransaction decoded) \<and> dtReceipt decoded = Some receipt \<and>
    Inr receipt \<in> set (cePolls env k (dtTransaction decoded)) \<and>
    (Status receipt \<noteq> 0 \<longrightarrow> err = None) \<and>
    (Status receipt = 0 \<and> (\<exists>a. ceSender env (dtTransaction decoded) = Inr a) \<longrightarrow> err \<noteq> None)"
proof -
  let ?s0 = "\<lparr>wsTx = tx, wsReceipt = None, wsTry = 0\<rparr>"
  obtain st receipt where st: "retryDo (decode_attempts (Cfg m)) (decode_retryIf (Cfg m)) (\<lambda>err. bump_gas env m) (wait_attempt env) ?s0 =
      Ret (st, None)" and rc: "wsReceipt st = Some receipt" and mined: "decode_mined env m (wsTx st) receipt = Ret (m', files, Some decoded, err)"
    by (rule Decode_waits [OF run])
  obtain s where s: "retry_reach (\<lambda>err. bump_gas env m) (wait_attempt env) ?s0 s" "wait_attempt env s = Ret (st, None)"
    using lib st unfolding retry_sound_def by blast
  have keep: "wsTx st2 = wsTx st1" if "wait_attempt env st1 = Ret (st2, e)" for st1 st2 e
    using that by (auto simp: wait_attempt_def split: sum.splits)
  have "same_call (wsTx ?s0) (wsTx s)"
    using s(1) keep bump_gas_same_call [OF _ signer] by (rule reach_same_call)
  moreover have tx: "wsTx st = wsTx s" using keep [OF s(2)] .
  moreover have "Inr receipt \<in> set (cePolls env (wsTry s) (wsTx s))"
    using s(2) rc by (auto simp: wait_attempt_def intro: WaitMined_polled split: sum.splits)
  ultimately show ?thesis using decode_mined_about [OF mined] by auto
qed

text \<open>A retry function with the documented behaviour, and a node that mines only the replacement.\<close>

fun run_attempts :: "nat \<Rightarrow> (goerr \<Rightarrow> bool) \<Rightarrow> (goerr \<Rightarrow> 's \<Rightarrow> 's go) \<Rightarrow> ('s \<Rightarrow> ('s \<times> goerr option) go) \<Rightarrow> 's \<Rightarrow> ('s \<times> goerr option) go" where
  "run_attempts 0 retryIf onRetry f s = Ret (s, Some (ErrLib ''no attempts'' []))"
| "run_attempts (Suc k) retryIf onRetry f s =
     go_bind (f s) (\<lambda>(s', err). case err of
         None \<Rightarrow> Ret (s', None)
       | Some e \<Rightarrow> if \<not> retryIf e then Ret (s', Some e)
                  else go_bind (onRetry e s') (run_attempts k retryIf onRetry f))"

definition ex_retry :: "'s retry_do" where
  "ex_retry attempts = run_attempts (nat attempts)"

lemma run_attempts_reach:
  "run_attempts k retryIf onRetry f s = Ret (s', None) \<Longrightarrow> retry_reach onRetry f s0 s \<Longrightarrow>
     \<exists>s1. retry_reach onRetry f s0 s1 \<and> f s1 = Ret (s', None)"
proof (induction k arbitrary: s)
  case 0
  then show ?case by simp
next
  case (Suc k)
  obtain s2 err where f: "f s = Ret (s2, err)" using Suc.prems(1) by (auto simp: go_bind_Ret_iff)
  show ?case
  proof (cases err)
    case None
    then show ?thesis using Suc.prems f by auto
  next
    case (Some e)
    then obtain s3 where s3: "onRetry e s2 = Ret s3" "run_attempts k retryIf onRetry f s3 = Ret (s', None)"
      using Suc.prems(1) f by (auto simp: go_bind_Ret_iff split: if_splits)
    have "retry_reach onRetry f s0 s3"
      using retry_reach.callback [OF retry_reach.failed_run [OF Suc.prems(2)]] f Some s3(1) by blast
    then show ?thesis using Suc.IH s3(2) by blast
  qed
qed

lemma ex_retry_sound: "retry_sound ex_retry"
  unfolding retry_sound_def ex_retry_def
  by (intro allI impI, erule run_attempts_reach, rule retry_reach.start)

lemma ex_retry_first: "retry_first ex_retry"
  unfolding retry_first_def ex_retry_def by (auto simp: gr0_conv_Suc dest!: zero_less_nat_eq [THEN iffD2])

fun ex_signed :: "int \<Rightarrow> TxData \<Rightarrow> Transaction" where
  "ex_signed chainID d =
     ex_tx\<lparr>txHash := [2], txChainId := chainID, txNonce := dNonce (data_common d), txTo := dTo (data_common d),
           txGas := dGas (data_common d), txData := dData (data_common d), txGasPrice := (case bid d of None \<Rightarrow> 0 | Some p \<Rightarrow> p)\<rparr>"

definition ex_client_env :: "nat client_env" where
  "ex_client_env = \<lparr>ceLib = ex_abi_lib, ceHex = ex_hex, hashString = (\<lambda>h. []), addrString = (\<lambda>a. ''0x1''), isProtected = (\<lambda>t. True),
     ceSender = (\<lambda>t. Inr [7]), ceTxEnv = (\<lambda>k. ex_env\<lparr>SignNewTx := (\<lambda>pk c d. Inr (ex_signed c d))\<rparr>),
     cePolls = (\<lambda>k t. if txHash t = [2] then [Inl ErrNotFound, Inr (ex_receipt\<lparr>Status := 1\<rparr>)] else [Inl ErrNotFound]),
     ceCallContract = (\<lambda>m b. None), ceCodeAt = (\<lambda>a b. Inr []), ceFourByte = (\<lambda>h. Inr []), ceCallTrace = (\<lambda>h. Inl ErrNotFound),
     ceDotGraph = ex_dot_env, ceBindDeploy = (\<lambda>auth a b. Inr ([9], ex_tx, 0)), ceWaitDeployed = (\<lambda>k t. None),
     ceBindWaitMined = (\<lambda>k t. Inl ErrNotFound), ceWrappedErrors = (\<lambda>e. None), ceRetryError = ErrLib []\<rparr>"

lemma ex_signs: "signs_data (ceTxEnv ex_client_env k)"
  by (simp add: signs_data_def ex_client_env_def)

definition ex_bumping :: "nat Client" where
  "ex_bumping = ex_client\<lparr>Cfg := (Cfg ex_client)\<lparr>GasBump := Some ex_bump, TracingLevel := TracingLevel_None\<rparr>\<rparr>"

lemmas ex_decode_simps = Decode_def ex_bumping_def ex_client_def ex_cfg_def ex_net_fixed_def ex_net_def client_net_def deref_def
  go_index_def decode_attempts_def decode_retryIf_def GasBumpRetries_def ex_bump_def ex_retry_def wait_attempt_def ex_client_env_def
  bump_gas_def prepareReplacementTransaction_def replacement_cases call_strategy_def ex_env_def ex_tx_def checkMaxPrice_def
  HasMaxBumpGasPrice_def LegacyTxType_def common_of_def decode_mined_def decodeTransaction_def errors_Is_new_def ex_receipt_def

theorem Decode_reports_own_fate_witness:
  "\<exists>m' files decoded. Decode ex_retry ex_client_env ex_bumping (Some ex_tx) None = Ret (m', files, Some decoded, None) \<and>
     txGasPrice (dtTransaction decoded) = 2000 \<and> same_call ex_tx (dtTransaction decoded)"
proof -
  have "Decode ex_retry ex_client_env ex_bumping (Some ex_tx) None = Ret (ex_bumping, [],
      Some (defaultTxn (\<lambda>h. []) (\<lambda>t. True) (ex_tx\<lparr>txHash := [2], txGasPrice := 2000\<rparr>) (Some (ex_receipt\<lparr>Status := 1\<rparr>))), None)"
    (is "_ = Ret (_, _, Some ?d, _)")
    by (simp add: ex_decode_simps Let_def numeral_3_eq_3)
  moreover have "same_call ex_tx (dtTransaction ?d)"
    using Decode_reports_own_fate [OF calculation ex_retry_sound] ex_signs by blast
  moreover have "txGasPrice (dtTransaction ?d) = 2000"
    by (simp add: defaultTxn_def CommonData.defs DecodedTransaction.defs zero_common_def)
  ultimately show ?thesis by blast
qed

text \<open>
  A client with recorded errors decodes nothing: \<open>Decode\<close> returns all of them joined, whatever it is given, without asking the
  node. Otherwise, when the transaction was sent and its receipt is there at the first wait, \<open>Decode\<close> does not retry and goes
  straight on to decoding it, with any number of gas bumps configured.
\<close>

theorem Decode_first_receipt:
  assumes lib: "retry_first retryDo" and n: "client_net m = Ret n" "TxnTimeout n \<noteq> None" and retries: "0 \<le> GasBumpRetries (Cfg m)"
    and mined: "WaitMined ErrDeadlineExceeded (cePolls env 0 tx) = Inr receipt"
  shows "Decode retryDo env m (Some tx) None =
    (if clErrors m \<noteq> [] then Ret (m, [], None, Some (ErrJoin (clErrors m))) else decode_mined env m tx receipt)"
proof -
  let ?s0 = "\<lparr>wsTx = tx, wsReceipt = None, wsTry = 0\<rparr>"
  have "wait_attempt env ?s0 = Ret (?s0\<lparr>wsReceipt := Some receipt\<rparr>, None)" using mined by (simp add: wait_attempt_def)
  moreover have "0 < decode_attempts (Cfg m)" using retries by (simp add: decode_attempts_def)
  ultimately have "retryDo (decode_attempts (Cfg m)) (decode_retryIf (Cfg m)) (\<lambda>err. bump_gas env m) (wait_attempt env) ?s0 =
      Ret (?s0\<lparr>wsReceipt := Some receipt\<rparr>, None)"
    using lib unfolding retry_first_def by blast
  then show ?thesis using n by (auto simp: Decode_def)
qed

theorem Decode_first_receipt_witness:
  "Decode ex_retry ex_client_env ex_bumping (Some (ex_tx\<lparr>txHash := [2]\<rparr>)) None =
     decode_mined ex_client_env ex_bumping (ex_tx\<lparr>txHash := [2]\<rparr>) (ex_receipt\<lparr>Status := 1\<rparr>)"
proof -
  have "client_net ex_bumping = Ret ex_net_fixed" by (simp add: ex_decode_simps)
  from Decode_first_receipt [OF ex_retry_first this, of ex_client_env "ex_tx\<lparr>txHash := [2]\<rparr>" "ex_receipt\<lparr>Status := 1\<rparr>"]
  show ?thesis by (simp add: ex_decode_simps)
qed

subsection \<open>Deployed contracts are found again\<close>

lemma abi_name_trim: "TrimSuffix name ''.abi'' @ ''.abi'' = abi_name name"
  by (cases "HasSuffix name ''.abi''") (auto simp: abi_name_def HasSuffix_iff)

lemma register_contract_Ret:
  assumes "register_contract addr name a m = Ret m'"
  obtains cs cs' where "clContractStore m = Some cs" "cs' = (if GetABI cs name = None then AddABI cs name a else cs)"
    "m' = m\<lparr>ContractAddressToNameMap := AddContract (ContractAddressToNameMap m) addr name, clContractStore := Some cs'\<rparr>"
  using assms by (auto simp: register_contract_def split: option.splits)

text \<open>A known address whose recorded ABI has the method is found without a search.\<close>

lemma Find_registered:
  assumes "addr \<noteq> UNKNOWN" and "TrimSuffix name ''.abi'' \<noteq> []" and "GetABI cs name = Some a" and "mbi a sig = Inr method"
  shows "FindABIByMethod mbi (ABIs cs) (AddContract cm addr name) addr sig =
    (AddContract cm addr name, Inr \<lparr>resABI = a, resMethod = method, DuplicateCount = 0, contractName = TrimSuffix name ''.abi''\<rparr>)"
proof -
  have "get_string (addressMap (AddContract cm addr name)) (ToLower addr) = TrimSuffix name ''.abi''"
    using assms(1) by (simp add: AddContract_def get_string_def update_conv')
  then show ?thesis using assms(2-4)
    by (simp add: FindABIByMethod_def IsKnownAddress_def GetContractName_def abi_name_trim GetABI_def Let_def)
qed

lemma DeployContract_registers:
  assumes "DeployContract retryDo env m auth name a bytecode = Ret (m', files, Inr deployed)"
  obtains tx0 contract st n where "ceBindDeploy env auth a bytecode = Inr (ddAddress deployed, tx0, contract)"
    "register_contract (addrString env (ddAddress deployed)) name a m = Ret m'"
    "retryDo (deploy_attempts (Cfg m')) (deploy_retryIf (Cfg m')) (deploy_onRetry env m') (deploy_attempt env)
       \<lparr>wsTx = tx0, wsReceipt = None, wsTry = 0\<rparr> = Ret (st, None)" "ddTransaction deployed = wsTx st"
    "\<forall>err. optContext auth \<noteq> Some (WithErr err)"
proof -
  have ctx: "\<forall>err. optContext auth \<noteq> Some (WithErr err)" using assms by (auto simp: DeployContract_def)
  obtain addr tx0 contract where b: "ceBindDeploy env auth a bytecode = Inr (addr, tx0, contract)"
    using assms ctx by (cases "ceBindDeploy env auth a bytecode") (auto simp: DeployContract_def split: option.splits tx_context.splits)
  obtain m1 n where m1: "register_contract (addrString env addr) name a m = Ret m1" and n: "client_net m1 = Ret n"
    using assms ctx b by (auto simp: DeployContract_def go_bind_Ret_iff split: option.splits tx_context.splits)
  obtain st err where st: "retryDo (deploy_attempts (Cfg m1)) (deploy_retryIf (Cfg m1)) (deploy_onRetry env m1) (deploy_attempt env)
       \<lparr>wsTx = tx0, wsReceipt = None, wsTry = 0\<rparr> = Ret (st, err)"
    using assms ctx b m1 n
    by (auto simp: DeployContract_def go_bind_Ret_iff split: option.splits tx_context.splits if_splits)
  have err: "err = None" and "m' = m1" "ddAddress deployed = addr" "ddTransaction deployed = wsTx st"
    using assms ctx b m1 n st
    by (cases err; auto simp: DeployContract_def go_bind_Ret_iff split: option.splits tx_context.splits if_splits)+
  then show ?thesis using that b m1 st ctx by blast
qed

text \<open>
  C14. A deployment that succeeds was sent with options that carried no error, ended with the transaction that was sent or a
  replacement of it, and is known from then on: a call to the new address with any method of the stored ABI is decoded with
  exactly that ABI, and the stored ABI is the deployed one unless the store already had another under that name.
\<close>

theorem deployed_contract_found:
  assumes run: "DeployContract retryDo env m auth name a bytecode = Ret (m', files, Inr deployed)"
    and lib: "retry_sound retryDo" and signer: "\<forall>k. signs_data (ceTxEnv env k)"
    and known: "addrString env (ddAddress deployed) \<noteq> UNKNOWN" "TrimSuffix name ''.abi'' \<noteq> []"
  shows "\<exists>cs stored tx0 contract. clContractStore m' = Some cs \<and> GetABI cs name = Some stored \<and>
    ceBindDeploy env auth a bytecode = Inr (ddAddress deployed, tx0, contract) \<and> same_call tx0 (ddTransaction deployed) \<and>
    (\<forall>err. optContext auth \<noteq> Some (WithErr err)) \<and>
    ((\<forall>old. clContractStore m = Some old \<longrightarrow> GetABI old name = None) \<longrightarrow> stored = a) \<and>
    (\<forall>mbi sig method. mbi stored sig = Inr method \<longrightarrow>
       FindABIByMethod mbi (ABIs cs) (ContractAddressToNameMap m') (addrString env (ddAddress deployed)) sig =
         (ContractAddressToNameMap m', Inr \<lparr>resABI = stored, resMethod = method, DuplicateCount = 0,
            contractName = TrimSuffix name ''.abi''\<rparr>))"
proof -
  obtain tx0 contract st where b: "ceBindDeploy env auth a bytecode = Inr (ddAddress deployed, tx0, contract)"
    and reg: "register_contract (addrString env (ddAddress deployed)) name a m = Ret m'"
    and r: "retryDo (deploy_attempts (Cfg m')) (deploy_retryIf (Cfg m')) (deploy_onRetry env m') (deploy_attempt env)
       \<lparr>wsTx = tx0, wsReceipt = None, wsTry = 0\<rparr> = Ret (st, None)" and tx: "ddTransaction deployed = wsTx st"
    and ctx: "\<forall>err. optContext auth \<noteq> Some (WithErr err)"
    by (rule DeployContract_registers [OF run])
  obtain s where s: "retry_reach (deploy_onRetry env m') (deploy_attempt env) \<lparr>wsTx = tx0, wsReceipt = None, wsTry = 0\<rparr> s"
    "deploy_attempt env s = Ret (st, None)"
    using lib r unfolding retry_sound_def by blast
  have keep: "wsTx st2 = wsTx st1" if "deploy_attempt env st1 = Ret (st2, e)" for st1 st2 e
    using that by (simp add: deploy_attempt_def)
  have bump: "same_call (wsTx st1) (wsTx st2)" if "deploy_onRetry env m' e st1 = Ret st2" for st1 st2 e
    using that bump_gas_same_call [OF _ signer] by (auto simp: deploy_onRetry_def split: if_splits)
  have "same_call (wsTx \<lparr>wsTx = tx0, wsReceipt = None, wsTry = 0\<rparr>) (wsTx s)"
    using s(1) keep bump by (rule reach_same_call)
  then have same: "same_call tx0 (ddTransaction deployed)" using keep [OF s(2)] tx by simp
  obtain cs cs' where cs: "clContractStore m = Some cs" "cs' = (if GetABI cs name = None then AddABI cs name a else cs)"
    and m': "m' = m\<lparr>ContractAddressToNameMap := AddContract (ContractAddressToNameMap m) (addrString env (ddAddress deployed)) name,
      clContractStore := Some cs'\<rparr>"
    by (rule register_contract_Ret [OF reg])
  obtain stored where stored: "GetABI cs' name = Some stored" "GetABI cs name = None \<longrightarrow> stored = a"
    using cs(2) by (cases "GetABI cs name") (auto simp: GetABI_def AddABI_def update_conv')
  show ?thesis
    using m' cs(1) stored b same ctx Find_registered [OF known stored(1)]
    by (intro exI [of _ cs'] exI [of _ stored] exI [of _ tx0] exI [of _ contract]) simp
qed

definition ex_deployer :: "nat Client" where
  "ex_deployer = ex_bumping\<lparr>clContractStore := Some \<lparr>ABIs = [], BINs = []\<rparr>\<rparr>"

theorem deployed_contract_found_witness:
  "\<exists>m' files deployed cs. DeployContract ex_retry ex_client_env ex_deployer empty_opts ''Token'' (ex_abi []) [] = Ret (m', files, Inr deployed) \<and>
     clContractStore m' = Some cs \<and> GetABI cs ''Token'' = Some (ex_abi []) \<and> same_call ex_tx (ddTransaction deployed)"
proof -
  obtain m' files deployed where run: "DeployContract ex_retry ex_client_env ex_deployer empty_opts ''Token'' (ex_abi []) [] =
      Ret (m', files, Inr deployed)"
    by (simp add: DeployContract_def empty_opts_def register_contract_def ex_deployer_def deploy_attempts_def deploy_attempt_def
        ShouldSaveDeployedContractMap_def IsSimulatedNetwork_def ex_decode_simps numeral_3_eq_3)
  have unknown: "addrString ex_client_env (ddAddress deployed) \<noteq> UNKNOWN" by (simp add: ex_client_env_def UNKNOWN_def)
  have trim: "TrimSuffix ''Token'' ''.abi'' \<noteq> []" by (simp add: TrimSuffix_def HasSuffix_def)
  have fresh: "\<forall>old. clContractStore ex_deployer = Some old \<longrightarrow> GetABI old ''Token'' = None"
    by (simp add: ex_deployer_def GetABI_def)
  have signer: "\<forall>k. signs_data (ceTxEnv ex_client_env k)" using ex_signs by blast
  obtain cs stored tx0 contract where cs: "clContractStore m' = Some cs" "GetABI cs ''Token'' = Some stored"
    and tx0: "ceBindDeploy ex_client_env empty_opts (ex_abi []) [] = Inr (ddAddress deployed, tx0, contract)" "same_call tx0 (ddTransaction deployed)"
    and stored: "stored = ex_abi []"
    using deployed_contract_found [OF run ex_retry_sound signer unknown trim] fresh by (elim exE conjE) (rule that, simp_all)
  from tx0 have "same_call ex_tx (ddTransaction deployed)" by (simp add: ex_client_env_def)
  with cs stored run show ?thesis by blast
qed

text \<open>
  The rewriting of deployment errors does not check that all attempts timed out: it is enough that the first one did. Whatever
  the other attempts failed with, the result then says that the transaction was not mined in time.
\<close>

theorem rewrite_hides_later_errors:
  assumes "ceWrappedErrors env err = Some (Some e # rest)" and "isDeadlineExceeded e"
  shows "rewriteDeploymentError env n err = ceRetryError env (replicate (Suc (length rest)) (notMinedErr n))"
proof -
  have "areAllTimeouts es True" for es
    by (induction es) auto
  then show ?thesis using assms by (simp add: rewriteDeploymentError_def map_replicate_const)
qed

theorem rewrite_hides_later_errors_witness:
  "rewriteDeploymentError (ex_client_env\<lparr>ceWrappedErrors := (\<lambda>e. Some [Some ErrDeadlineExceeded, Some (ErrNew ''deployment transaction was reverted'')])\<rparr>)
     ex_net (ErrLib [] []) = ErrLib [] [notMinedErr ex_net, notMinedErr ex_net]"
  by (subst rewrite_hides_later_errors [of _ _ ErrDeadlineExceeded "[Some (ErrNew ''deployment transaction was reverted'')]"])
    (simp_all add: ex_client_env_def)

end
