(* ===== verification/Transfers.thy ===== *)
theory Transfers
  imports Tx_Options
begin

text \<open>
  Plain transfers through a client, alone and in the groups of goroutines that \<^verbatim>\<open>src/client.go\<close>, \<^verbatim>\<open>src/keyfile.go\<close> and
  \<^verbatim>\<open>src/test_utils/client.go\<close> start, and \<open>ReturnFunds\<close> of \<^verbatim>\<open>src/keyfile.go\<close>. A group is a list of jobs in the order in which
  they take their nonces (the only state they share, behind a mutex), with the order in which they end. The theorem:
  \<open>ReturnFunds\<close> empties every key that can pay for a transfer, and no other.
\<close>

subsection \<open>Groups of goroutines\<close>

definition sent_list :: "Transaction option \<Rightarrow> Transaction list" where
  "sent_list sent = (case sent of None \<Rightarrow> [] | Some tx \<Rightarrow> [tx])"

text \<open>Every job runs, whatever happens to the others; the result collects what was sent and the errors by job.\<close>

fun run_group ::
  "(nat \<Rightarrow> 'c \<Rightarrow> ('c \<times> Transaction option \<times> goerr option) go) \<Rightarrow> nat list \<Rightarrow> 'c \<Rightarrow> ('c \<times> Transaction list \<times> (nat \<times> goerr) list) go" where
  "run_group job [] c = Ret (c, [], [])"
| "run_group job (i # is) c =
     go_bind (job i c) (\<lambda>(c1, sent, err).
     go_bind (run_group job is c1) (\<lambda>(c2, txs, errs).
     Ret (c2, sent_list sent @ txs, (case err of None \<Rightarrow> [] | Some e \<Rightarrow> [(i, e)]) @ errs)))"

text \<open>\<open>Wait\<close> returns the error of the job that fails first.\<close>

definition first_failure :: "nat list \<Rightarrow> (nat \<times> goerr) list \<Rightarrow> goerr option" where
  "first_failure ends errs = (case filter (\<lambda>i. map_of errs i \<noteq> None) ends of [] \<Rightarrow> None | i # _ \<Rightarrow> map_of errs i)"

lemma run_group_errs: "run_group job is c = Ret (c', txs, errs) \<Longrightarrow> fst ` set errs \<subseteq> set is"
  by (induction job "is" c arbitrary: c' txs errs rule: run_group.induct) (force simp: go_bind_Ret_iff split: option.splits)+

lemma first_failure_None:
  assumes "first_failure ends errs = None" and "fst ` set errs \<subseteq> set ends"
  shows "errs = []"
proof (rule ccontr)
  assume "errs \<noteq> []"
  then obtain i e rest where "errs = (i, e) # rest" by (cases errs) auto
  then have "map_of errs i \<noteq> None" "i \<in> set ends" using assms(2) by auto
  then obtain j js where f: "filter (\<lambda>i. map_of errs i \<noteq> None) ends = j # js" by (cases "filter (\<lambda>i. map_of errs i \<noteq> None) ends") (auto simp: filter_empty_conv)
  then have "map_of errs j \<noteq> None" by (metis (mono_tags, lifting) filter_eq_ConsD)
  with assms(1) f show False by (simp add: first_failure_def)
qed

subsection \<open>Transfers of a client\<close>

text \<open>A transfer through the client's nonce manager; a nil nonce manager panics when it is asked for a nonce.\<close>

definition transfer_from_key ::
  "('pk, 'r) transfer_env \<Rightarrow> 'pk Client \<Rightarrow> int \<Rightarrow> string \<Rightarrow> int \<Rightarrow> int \<Rightarrow> ('pk Client \<times> Transaction option \<times> goerr option) go" where
  "transfer_from_key tenv m keyNum to_hex val gasPrice =
     (case clNonceManager m of
       None \<Rightarrow>
         (if keyNum > int (length (PrivateKeys m)) \<or> keyNum > int (length (clAddresses m))
          then Ret (m, None, Some (ErrWrap (''requested key: '' @ Itoa keyNum) (ErrNew ErrNoKeyLoaded)))
          else case NetworkID tenv of
            Inl err \<Rightarrow> Ret (m, None, Some (ErrWrap ''failed to get network ID'' err))
          | Inr _ \<Rightarrow> go_bind (go_index (clAddresses m) keyNum) (\<lambda>_. Panic ''nil pointer dereference''))
     | Some mgr \<Rightarrow>
         go_bind (client_net m) (\<lambda>n.
         go_bind (TransferETHFromKey tenv n (clAddresses m) (PrivateKeys m) mgr keyNum to_hex val (Some gasPrice)) (\<lambda>(mgr', sent, err).
         Ret (m\<lparr>clNonceManager := Some mgr'\<rparr>, sent, err))))"

lemma transfer_from_key_frame:
  assumes "transfer_from_key tenv c k to_hex val p = Ret (c', sent, err)" and "clNonceManager c = Some mgr"
  shows "\<exists>mgr'. c' = c\<lparr>clNonceManager := Some mgr'\<rparr>"
  using assms by (auto simp: transfer_from_key_def go_bind_Ret_iff)

text \<open>Documented behaviour of go-ethereum: a signed legacy transaction carries the data it was made from.\<close>

definition signs_transfer :: "('pk, 'r) transfer_env \<Rightarrow> bool" where
  "signs_transfer tenv \<longleftrightarrow> (\<forall>pk chainID d p tx. SignTransfer tenv pk chainID (LegacyTx d (Some p)) = Inr tx \<longrightarrow>
     txNonce tx = dNonce d \<and> txTo tx = dTo d \<and> txValue tx = dValue d \<and> txGas tx = dGas d \<and> txGasPrice tx = p)"

lemma transfer_key_sent:
  assumes run: "transfer_from_key tenv c (int k) to_hex val p = Ret (c', sent, None)" and mgr: "clNonceManager c = Some mgr"
    and sig: "signs_transfer tenv"
  obtains tx n where "sent = Some tx" "k < length (clAddresses c)" "client_net c = Ret n"
    "c' = c\<lparr>clNonceManager := Some (fst (NextNonce mgr (clAddresses c ! k)))\<rparr>"
    "txNonce tx = uint64 (nonce_of mgr (clAddresses c ! k))" "txTo tx = Some (HexToAddress tenv to_hex)" "txValue tx = val" "txGasPrice tx = p"
    "txGas tx = uint64 (transfer_gas_limit (EstimateGas tenv) (TransferGasFee n) (clAddresses c ! k) (HexToAddress tenv to_hex) val)"
proof -
  obtain n mgr' where n: "client_net c = Ret n"
    and t: "TransferETHFromKey tenv n (clAddresses c) (PrivateKeys c) mgr (int k) to_hex val (Some p) = Ret (mgr', sent, None)"
    and c': "c' = c\<lparr>clNonceManager := Some mgr'\<rparr>"
    using run mgr by (auto simp: transfer_from_key_def go_bind_Ret_iff)
  obtain chainID where chain: "NetworkID tenv = Inr chainID"
    using t by (cases "NetworkID tenv") (auto simp: TransferETHFromKey_def split: if_splits)
  have k: "k < length (clAddresses c)"
    using t chain by (auto simp: TransferETHFromKey_def go_bind_Ret_iff go_index_def split: if_splits)
  let ?a = "clAddresses c ! k"
  let ?d = "\<lparr>dNonce = uint64 (nonce_of mgr ?a), dTo = Some (HexToAddress tenv to_hex), dValue = val,
    dGas = uint64 (transfer_gas_limit (EstimateGas tenv) (TransferGasFee n) ?a (HexToAddress tenv to_hex) val), dData = []\<rparr>"
  obtain pk where s: "sign_send_wait tenv pk chainID (LegacyTx ?d (Some p)) = (sent, None)" and m': "mgr' = fst (NextNonce mgr ?a)"
    using t chain k by (auto simp: TransferETHFromKey_def go_bind_Ret_iff Let_def NextNonce_def split: if_splits)
  obtain tx where tx: "SignTransfer tenv pk chainID (LegacyTx ?d (Some p)) = Inr tx" "sent = Some tx"
    using s by (auto simp: sign_send_wait_def split: sum.splits option.splits)
  then have "txNonce tx = dNonce ?d \<and> txTo tx = dTo ?d \<and> txValue tx = dValue ?d \<and> txGas tx = dGas ?d \<and> txGasPrice tx = p"
    using sig unfolding signs_transfer_def by blast
  then show ?thesis using that tx(2) k n c' m' by simp
qed

lemma transfer_from_key_sent:
  assumes run: "transfer_from_key tenv c 0 to_hex val p = Ret (c', sent, None)" and mgr: "clNonceManager c = Some mgr"
    and sig: "signs_transfer tenv" and nonce: "0 \<le> nonce_of mgr (hd (clAddresses c))" "nonce_of mgr (hd (clAddresses c)) < 2 ^ 63"
  obtains tx where "sent = Some tx" "c' = c\<lparr>clNonceManager := Some (fst (NextNonce mgr (hd (clAddresses c))))\<rparr>" "clAddresses c \<noteq> []"
    "txNonce tx = nonce_of mgr (hd (clAddresses c))" "txTo tx = Some (HexToAddress tenv to_hex)" "txValue tx = val" "txGasPrice tx = p"
proof (rule transfer_key_sent [of tenv c 0, simplified, OF run mgr sig], goal_cases)
  case (1 tx n)
  then have a: "clAddresses c ! 0 = hd (clAddresses c)" by (simp add: hd_conv_nth)
  with 1 nonce that [of tx] show ?case by (simp add: uint64_id)
qed

text \<open>A group of transfers from the root key, to the recipients \<open>to i\<close>.\<close>

lemma root_group_frame:
  assumes "run_group (\<lambda>i c. transfer_from_key (tenv i) c 0 (to i) val p) is c = Ret (c', txs, errs)" and "clNonceManager c = Some mgr"
  shows "\<exists>mgr'. c' = c\<lparr>clNonceManager := Some mgr'\<rparr>"
  using assms
proof (induction "is" arbitrary: c mgr txs errs)
  case Nil
  then show ?case by (intro exI [of _ mgr]) auto
next
  case (Cons i "is")
  then obtain c1 sent err txs' errs' where t: "transfer_from_key (tenv i) c 0 (to i) val p = Ret (c1, sent, err)"
    and rest: "run_group (\<lambda>i c. transfer_from_key (tenv i) c 0 (to i) val p) is c1 = Ret (c', txs', errs')"
    by (auto simp: go_bind_Ret_iff)
  obtain mgr1 where "c1 = c\<lparr>clNonceManager := Some mgr1\<rparr>" using transfer_from_key_frame [OF t Cons.prems(2)] by blast
  with Cons.IH [OF rest] show ?case by fastforce
qed

lemma root_group_targets:
  assumes "run_group (\<lambda>i c. transfer_from_key (tenv i) c 0 (to i) val p) is c = Ret (c', txs, [])" and "clNonceManager c = Some mgr"
    and sig: "\<And>i. signs_transfer (tenv i)"
  shows "map txTo txs = map (\<lambda>i. Some (HexToAddress (tenv i) (to i))) is \<and> (\<forall>tx \<in> set txs. txValue tx = val \<and> txGasPrice tx = p)"
  using assms(1,2)
proof (induction "is" arbitrary: c mgr txs)
  case Nil
  then show ?case by simp
next
  case (Cons i "is")
  obtain c1 sent txs' where t: "transfer_from_key (tenv i) c 0 (to i) val p = Ret (c1, sent, None)"
    and rest: "run_group (\<lambda>i c. transfer_from_key (tenv i) c 0 (to i) val p) is c1 = Ret (c', txs', [])" and txs: "txs = sent_list sent @ txs'"
    using Cons.prems(1) by (auto simp: go_bind_Ret_iff split: option.splits)
  obtain tx where tx: "sent = Some tx" "txTo tx = Some (HexToAddress (tenv i) (to i))" "txValue tx = val" "txGasPrice tx = p"
    "c1 = c\<lparr>clNonceManager := Some (fst (NextNonce mgr (clAddresses c ! 0)))\<rparr>"
    by (rule transfer_key_sent [of "tenv i" c 0, simplified, OF t Cons.prems(2) sig]) blast
  with Cons.IH [OF rest] show ?case by (simp add: txs sent_list_def)
qed

lemma root_group_nonces:
  assumes "run_group (\<lambda>i c. transfer_from_key (tenv i) c 0 (to i) val p) is c = Ret (c', txs, [])" and "clNonceManager c = Some mgr"
    and sig: "\<And>i. signs_transfer (tenv i)" and "0 \<le> nonce_of mgr (hd (clAddresses c))"
    and "nonce_of mgr (hd (clAddresses c)) + int (length is) < 2 ^ 63"
  shows "map txNonce txs = map (\<lambda>j. nonce_of mgr (hd (clAddresses c)) + int j) [0..<length is]"
  using assms(1,2,4,5)
proof (induction "is" arbitrary: c mgr txs)
  case Nil
  then show ?case by simp
next
  case (Cons i "is")
  let ?a = "hd (clAddresses c)"
  obtain c1 sent txs' where t: "transfer_from_key (tenv i) c 0 (to i) val p = Ret (c1, sent, None)"
    and rest: "run_group (\<lambda>i c. transfer_from_key (tenv i) c 0 (to i) val p) is c1 = Ret (c', txs', [])" and txs: "txs = sent_list sent @ txs'"
    using Cons.prems(1) by (auto simp: go_bind_Ret_iff split: option.splits)
  have "nonce_of mgr ?a < 2 ^ 63" using Cons.prems(4) by simp
  then obtain tx where tx: "sent = Some tx" "c1 = c\<lparr>clNonceManager := Some (fst (NextNonce mgr ?a))\<rparr>" "txNonce tx = nonce_of mgr ?a"
    using transfer_from_key_sent [OF t Cons.prems(2) sig Cons.prems(3)] by metis
  have "nonce_of (fst (NextNonce mgr ?a)) ?a = nonce_of mgr ?a + 1"
    using Cons.prems(3,4) by (simp add: nonce_of_NextNonce int64_id)
  then have IH: "map txNonce txs' = map (\<lambda>j. nonce_of mgr ?a + 1 + int j) [0..<length is]"
    using Cons.IH [OF rest, of "fst (NextNonce mgr ?a)"] Cons.prems(3,4) tx(2) by (simp add: add.assoc)
  have shift: "map (\<lambda>j. nonce_of mgr ?a + int j) [0..<length (i # is)] =
      nonce_of mgr ?a # map (\<lambda>j. nonce_of mgr ?a + 1 + int j) [0..<length is]"
    by (simp add: upt_conv_Cons map_Suc_upt [symmetric] del: upt_Suc)
  show ?case unfolding shift using IH tx by (simp add: txs sent_list_def)
qed

subsection \<open>Returning funds\<close>

text \<open>
  What one goroutine of \<open>ReturnFunds\<close> decides for its key: an error, nothing (the balance does not cover
  the fee), or the amount to send back.
\<close>

definition return_amount :: "(address \<Rightarrow> int res) \<Rightarrow> (address \<Rightarrow> address \<Rightarrow> int \<Rightarrow> int res) \<Rightarrow> Network \<Rightarrow> int \<Rightarrow> address \<Rightarrow> address \<Rightarrow> int option res" where
  "return_amount BalanceAt EstimateGasFn net gasPrice toAddr addr =
     (case BalanceAt addr of
        Inl err \<Rightarrow> Inl err
      | Inr balance \<Rightarrow>
          (let gasLimit = transfer_gas_limit EstimateGasFn (TransferGasFee net) addr toAddr balance;
               networkTransferFee = int64 (int64 gasPrice * gasLimit);
               fundsToReturn = balance - networkTransferFee
           in if fundsToReturn < 0 then Inr None else Inr (Some fundsToReturn)))"

text \<open>What \<open>ReturnFunds\<close> needs from outside: the node, per goroutine for the transfers, and the orders of the goroutines.\<close>

record ('pk, 'r) return_env =
  reLog10 :: "float64 \<Rightarrow> float64"
  reFeeNode :: fee_node
  reBalanceAt :: "address \<Rightarrow> int res"
  reEstimateGas :: "address \<Rightarrow> address \<Rightarrow> int \<Rightarrow> int res"
  reHexToAddress :: "string \<Rightarrow> address"
  reAddrHex :: "address \<Rightarrow> string"
  reTransfer :: "nat \<Rightarrow> ('pk, 'r) transfer_env"
  reTakes :: "nat \<Rightarrow> nat list"
  reEnds :: "nat \<Rightarrow> nat list"

definition return_job ::
  "('pk, 'r) return_env \<Rightarrow> int \<Rightarrow> string \<Rightarrow> nat \<Rightarrow> 'pk Client \<Rightarrow> ('pk Client \<times> Transaction option \<times> goerr option) go" where
  "return_job env gasPrice toAddr idx c =
     go_bind (client_net c) (\<lambda>n.
     go_bind (go_index (clAddresses c) (int idx)) (\<lambda>addr.
     case return_amount (reBalanceAt env) (reEstimateGas env) n gasPrice (reHexToAddress env toAddr) addr of
       Inl err \<Rightarrow> Ret (c, None, Some err)
     | Inr None \<Rightarrow> Ret (c, None, None)
     | Inr (Some fundsToReturn) \<Rightarrow> transfer_from_key (reTransfer env idx) c (int idx) toAddr fundsToReturn gasPrice))"

definition ReturnFunds ::
  "('pk, 'r) return_env \<Rightarrow> 'pk Client \<Rightarrow> string \<Rightarrow> ('pk Client \<times> Transaction list \<times> goerr option) go" where
  "ReturnFunds env c0 toAddr0 =
     go_bind (if toAddr0 = [] then go_bind (go_index (clAddresses c0) 0) (\<lambda>a. Ret (reAddrHex env a)) else Ret toAddr0) (\<lambda>toAddr.
     go_bind (standard_gas_price (reLog10 env) (reFeeNode env) c0) (\<lambda>(c, gasPrice).
     if length (clAddresses c) = 1
     then Ret (c, [], Some (ErrNew ''No addresses to return funds from. Have you passed correct key file?''))
     else
       go_bind (run_group (return_job env gasPrice toAddr) (reTakes env (length (clAddresses c))) c) (\<lambda>(c', txs, errs).
       Ret (c', txs, first_failure (reEnds env (length (clAddresses c))) errs))))"

subsection \<open>What is returned\<close>

text \<open>
  A node on which a transfer from an address costs a fixed amount of gas and whose balances can be read, a signer that
  signs what it is given, and one conversion of address texts.
\<close>

definition fixed_costs :: "('pk, 'r) return_env \<Rightarrow> (address \<Rightarrow> int) \<Rightarrow> (address \<Rightarrow> int) \<Rightarrow> bool" where
  "fixed_costs env gas bal \<longleftrightarrow>
     (\<forall>i. signs_transfer (reTransfer env i)) \<and> (\<forall>a. reBalanceAt env a = Inr (bal a)) \<and>
     (\<forall>a t v. reEstimateGas env a t v = Inr (gas a)) \<and> (\<forall>i a t v. EstimateGas (reTransfer env i) a t v = Inr (gas a)) \<and>
     (\<forall>i s. HexToAddress (reTransfer env i) s = reHexToAddress env s) \<and> (\<forall>a. 0 \<le> gas a \<and> gas a < 2 ^ 63)"

text \<open>The transfer that empties an address: nonce, recipient, value, gas limit and gas price.\<close>

definition sweep :: "NonceManager \<Rightarrow> (address \<Rightarrow> int) \<Rightarrow> (address \<Rightarrow> int) \<Rightarrow> int \<Rightarrow> address \<Rightarrow> address \<Rightarrow> int \<times> address option \<times> int \<times> int \<times> int" where
  "sweep mgr gas bal p to a = (uint64 (nonce_of mgr a), Some to, bal a - p * gas a, gas a, p)"

definition transfer_fields :: "Transaction \<Rightarrow> int \<times> address option \<times> int \<times> int \<times> int" where
  "transfer_fields tx = (txNonce tx, txTo tx, txValue tx, txGas tx, txGasPrice tx)"

lemma return_amount_fixed:
  assumes "fixed_costs env gas bal" and "0 \<le> p" "p < 2 ^ 63" "p * gas a < 2 ^ 63"
  shows "return_amount (reBalanceAt env) (reEstimateGas env) n p to a =
    Inr (if p * gas a \<le> bal a then Some (bal a - p * gas a) else None)"
proof -
  have g: "0 \<le> gas a" "gas a < 2 ^ 63" using assms(1) by (simp_all add: fixed_costs_def)
  have "0 \<le> p * gas a" using assms(2) g by simp
  then have "int64 (p * gas a) = p * gas a" using assms(4) by (intro int64_id) simp_all
  then have "int64 (int64 p * int64 (gas a)) = p * gas a" using g assms(2,3) by (simp add: int64_id)
  then show ?thesis
    using assms(1) by (auto simp: return_amount_def fixed_costs_def transfer_gas_limit_def EstimateGasLimitForFundTransfer_def Let_def)
qed

lemma return_group_sent:
  assumes "run_group (return_job env p toAddr) is c = Ret (c', txs, [])" and "clNonceManager c = Some mgr"
    and "distinct (clAddresses c)" and "distinct is" and "set is \<subseteq> {..<length (clAddresses c)}"
    and fixed: "fixed_costs env gas bal" and p: "0 \<le> p" "p < 2 ^ 63" and fees: "\<And>a. p * gas a < 2 ^ 63"
  shows "map transfer_fields txs = map (sweep mgr gas bal p (reHexToAddress env toAddr))
    (filter (\<lambda>a. p * gas a \<le> bal a) (map ((!) (clAddresses c)) is))"
  using assms(1-5)
proof (induction "is" arbitrary: c mgr txs)
  case Nil
  then show ?case by simp
next
  case (Cons i "is")
  let ?a = "clAddresses c ! i"
  obtain c1 sent txs' where job: "return_job env p toAddr i c = Ret (c1, sent, None)"
    and rest: "run_group (return_job env p toAddr) is c1 = Ret (c', txs', [])" and txs: "txs = sent_list sent @ txs'"
    using Cons.prems(1) by (auto simp: go_bind_Ret_iff split: option.splits)
  have i: "i < length (clAddresses c)" using Cons.prems(5) by simp
  obtain n where n: "client_net c = Ret n" using job by (auto simp: return_job_def go_bind_Ret_iff)
  note amount = return_amount_fixed [OF fixed p fees, of n "reHexToAddress env toAddr" ?a]
  show ?case
  proof (cases "p * gas ?a \<le> bal ?a")
    case False
    then have "c1 = c" "sent = None" using job n i amount by (auto simp: return_job_def)
    then show ?thesis using Cons.IH [OF rest] Cons.prems False txs by (simp add: sent_list_def)
  next
    case True
    then have t: "transfer_from_key (reTransfer env i) c (int i) toAddr (bal ?a - p * gas ?a) p = Ret (c1, sent, None)"
      using job n i amount by (simp add: return_job_def)
    have sig: "signs_transfer (reTransfer env i)" using fixed by (simp add: fixed_costs_def)
    obtain tx and n' :: Network where tx: "sent = Some tx" "c1 = c\<lparr>clNonceManager := Some (fst (NextNonce mgr ?a))\<rparr>"
      "txNonce tx = uint64 (nonce_of mgr ?a)" "txTo tx = Some (HexToAddress (reTransfer env i) toAddr)" "txValue tx = bal ?a - p * gas ?a"
      "txGasPrice tx = p" "txGas tx = uint64 (transfer_gas_limit (EstimateGas (reTransfer env i)) (TransferGasFee n') ?a
        (HexToAddress (reTransfer env i) toAddr) (bal ?a - p * gas ?a))"
      by (rule transfer_key_sent [OF t Cons.prems(2) sig]) blast
    have g: "0 \<le> gas ?a" "gas ?a < 2 ^ 63" using fixed by (simp_all add: fixed_costs_def)
    then have "uint64 (gas ?a) = gas ?a" by (intro uint64_id) simp_all
    then have "transfer_fields tx = sweep mgr gas bal p (reHexToAddress env toAddr) ?a"
      using tx fixed by (simp add: transfer_fields_def sweep_def fixed_costs_def transfer_gas_limit_def
          EstimateGasLimitForFundTransfer_def int64_id uint64_id)
    moreover have "?a \<noteq> a" if "a \<in> (!) (clAddresses c) ` set is" for a
      using that Cons.prems(3-5) i by (auto simp: nth_eq_iff_index_eq)
    then have "sweep (fst (NextNonce mgr ?a)) gas bal p to a = sweep mgr gas bal p to a" if "a \<in> (!) (clAddresses c) ` set is" for a to
      using that by (simp add: sweep_def nonce_of_NextNonce)
    then have "map (sweep (fst (NextNonce mgr ?a)) gas bal p to) (filter P (map ((!) (clAddresses c)) is)) =
        map (sweep mgr gas bal p to) (filter P (map ((!) (clAddresses c)) is))" for to P
      by (intro map_cong) auto
    ultimately show ?thesis
      using Cons.IH [OF rest, of "fst (NextNonce mgr ?a)"] Cons.prems True tx(1,2) txs by (simp add: sent_list_def)
  qed
qed

text \<open>
  C12. \<open>ReturnFunds\<close> that succeeds has sent exactly one transfer from every key but the root key whose balance covers the fee, in
  whatever order the goroutines ran: with that key's next nonce, to the given address or the root address, and with the whole
  balance less the fee, so that the key is left with nothing. Keys that cannot pay are skipped. (Transfers cost a fixed amount
  of gas, fees fit 63 bits, addresses are distinct.)
\<close>

theorem ReturnFunds_sweeps:
  assumes run: "ReturnFunds env c toAddr = Ret (c', txs, None)" and price: "standard_gas_price (reLog10 env) (reFeeNode env) c = Ret (c1, p)"
    and mgr: "clNonceManager c = Some mgr" and addrs: "distinct (clAddresses c)" "clAddresses c = a0 # others"
    and sched: "\<And>n. mset (reTakes env n) = mset [1..<n] \<and> mset (reEnds env n) = mset [1..<n]"
    and fixed: "fixed_costs env gas bal" and p: "0 \<le> p" "p < 2 ^ 63" and fees: "\<And>a. p * gas a < 2 ^ 63"
  shows "mset (map transfer_fields txs) =
    mset (map (sweep mgr gas bal p (reHexToAddress env (if toAddr = [] then reAddrHex env a0 else toAddr)))
      (filter (\<lambda>a. p * gas a \<le> bal a) others))"
proof -
  let ?to = "if toAddr = [] then reAddrHex env a0 else toAddr" and ?n = "length (clAddresses c)"
  obtain hc where c1: "c1 = c\<lparr>HeaderCache := hc\<rparr>" using price by (auto simp: standard_gas_price_def go_bind_Ret_iff)
  obtain errs where group: "run_group (return_job env p ?to) (reTakes env ?n) c1 = Ret (c', txs, errs)"
    and none: "first_failure (reEnds env ?n) errs = None"
    using run price c1 addrs(2) by (auto simp: ReturnFunds_def go_bind_Ret_iff go_index_def split: if_splits)
  have sets: "set (reTakes env ?n) = {1..<?n}" "set (reEnds env ?n) = {1..<?n}"
    using sched [of ?n] by (metis atLeastLessThan_upt mset_eq_setD)+
  have "errs = []" using first_failure_None [OF none] run_group_errs [OF group] sets by simp
  moreover have "distinct (reTakes env ?n)" using sched [of ?n] by (metis distinct_upt mset_eq_imp_distinct_iff)
  ultimately have "map transfer_fields txs = map (sweep mgr gas bal p (reHexToAddress env ?to))
      (filter (\<lambda>a. p * gas a \<le> bal a) (map ((!) (clAddresses c1)) (reTakes env ?n)))"
    using group mgr addrs(1) sets c1 by (intro return_group_sent [OF _ _ _ _ _ fixed p fees]) auto
  moreover have "mset (map ((!) (clAddresses c1)) (reTakes env ?n)) = mset (map ((!) (clAddresses c)) [1..<?n])"
    using sched [of ?n] by (simp add: c1 del: upt_Suc)
  moreover have "map ((!) (clAddresses c)) [1..<?n] = others"
    by (rule nth_equalityI) (simp_all add: addrs(2) del: upt_Suc)
  ultimately show ?thesis by (metis (no_types, lifting) mset_filter mset_map)
qed

definition ex_return_transfer :: "(nat, unit) transfer_env" where
  "ex_return_transfer = \<lparr>NetworkID = Inr 1337, HexToAddress = (\<lambda>s. [9]), EstimateGas = (\<lambda>f t v. Inr 10),
     SignTransfer = (\<lambda>k i raw. case raw of
         LegacyTx d (Some p) \<Rightarrow> Inr (ex_tx\<lparr>txNonce := dNonce d, txTo := dTo d, txValue := dValue d, txGas := dGas d, txGasPrice := p\<rparr>)
       | _ \<Rightarrow> Inl ErrNotFound),
     SendTransfer = (\<lambda>tx. None), Polls = (\<lambda>tx. [Inr ()]), CtxErr = ErrDeadlineExceeded\<rparr>"

definition ex_balance :: "address \<Rightarrow> int" where
  "ex_balance a = (if a = [2] then 5 else 100)"

definition ex_return_env :: "(nat, unit) return_env" where
  "ex_return_env = \<lparr>reLog10 = ex_log10, reFeeNode = ex_fees\<lparr>SuggestGasPrice := Inl ErrNotFound\<rparr>, reBalanceAt = (\<lambda>a. Inr (ex_balance a)),
     reEstimateGas = (\<lambda>f t v. Inr 10), reHexToAddress = (\<lambda>s. [9]), reAddrHex = (\<lambda>a. []), reTransfer = (\<lambda>i. ex_return_transfer),
     reTakes = (\<lambda>n. rev [1..<n]), reEnds = (\<lambda>n. [1..<n])\<rparr>"

definition ex_return_client :: "nat Client" where
  "ex_return_client = ex_client\<lparr>clAddresses := [[1], [2], [3]], PrivateKeys := [0, 0, 0], clNonceManager := Some ex_manager\<rparr>"

lemma ex_return_price: "standard_gas_price (reLog10 ex_return_env) (reFeeNode ex_return_env) ex_return_client = Ret (ex_return_client, 1)"
  by (simp add: standard_gas_price_def ex_return_client_def ex_client_def client_net_def deref_def go_index_def ex_cfg_def ex_net_fixed_def
      ex_net_def ex_return_env_def GetSuggestedLegacyFees_def)

lemma ex_return_run: "\<exists>c' txs. ReturnFunds ex_return_env ex_return_client ''0x9'' = Ret (c', txs, None) \<and> length txs = 1"
proof -
  have "case ReturnFunds ex_return_env ex_return_client ''0x9'' of Ret (c', txs, None) \<Rightarrow> length txs = 1 | _ \<Rightarrow> False"
    by code_simp
  then show ?thesis by (auto split: go.splits prod.splits option.splits)
qed

theorem ReturnFunds_sweeps_witness:
  "\<exists>c' txs. ReturnFunds ex_return_env ex_return_client ''0x9'' = Ret (c', txs, None) \<and>
     mset (map transfer_fields txs) = {#sweep ex_manager (\<lambda>a. 10) ex_balance 1 [9] [3]#}"
proof -
  obtain c' txs where run: "ReturnFunds ex_return_env ex_return_client ''0x9'' = Ret (c', txs, None)" using ex_return_run by blast
  have mgr: "clNonceManager ex_return_client = Some ex_manager" by (simp add: ex_return_client_def)
  have addrs: "distinct (clAddresses ex_return_client)" "clAddresses ex_return_client = [1] # [[2], [3]]"
    by (simp_all add: ex_return_client_def)
  have sched: "mset (reTakes ex_return_env n) = mset [1..<n] \<and> mset (reEnds ex_return_env n) = mset [1..<n]" for n
    by (simp add: ex_return_env_def)
  have fixed: "fixed_costs ex_return_env (\<lambda>a. 10) ex_balance"
    by (simp add: fixed_costs_def ex_return_env_def ex_return_transfer_def signs_transfer_def)
  have "mset (map transfer_fields txs) = mset (map (sweep ex_manager (\<lambda>a. 10) ex_balance 1 (reHexToAddress ex_return_env
      (if ''0x9'' = [] then reAddrHex ex_return_env [1] else ''0x9''))) (filter (\<lambda>a. 1 * 10 \<le> ex_balance a) [[2], [3]]))"
    by (rule ReturnFunds_sweeps [OF run ex_return_price mgr addrs sched fixed]) simp_all
  then have "mset (map transfer_fields txs) = {#sweep ex_manager (\<lambda>a. 10) ex_balance 1 [9] [3]#}"
    by (simp add: ex_balance_def ex_return_env_def)
  with run show ?thesis by (intro exI [of _ c'] exI [of _ txs] conjI)
qed

end
