(* ===== verification/Client_New.thy ===== *)
theory Client_New
  imports Client_Ops Client_Builder Transfers
begin

text \<open>
  Creating a client (\<^verbatim>\<open>src/client.go\<close>): \<open>NewClientWithConfig\<close>, \<open>NewClient\<close> and \<open>NewClientRaw\<close> with the nonce
  synchronisation, the RPC health check, the funding of ephemeral keys, the tracer, the header cache and the default bumping
  strategy. The node, the file system, key derivation and the rate limiter are fields of \<open>start_env\<close>. A step gives the
  transactions it signs and sends, and its result. The ephemeral transfers run in goroutines; their order is a field of the
  environment and the theorems hold for every order. The theorems: what a new client always has, how the root key's money is
  handed out, and the gas price the first transactions use.
\<close>

definition ErrCreateABIStore :: string where "ErrCreateABIStore = ''failed to create ABI store''"
definition ErrReadingKeys :: string where "ErrReadingKeys = ''failed to read keys''"
definition ErrCreateTracer :: string where "ErrCreateTracer = ''failed to create tracer''"
definition ErrReadContractMap :: string where "ErrReadContractMap = ''failed to read deployed contract map''"
definition ErrRpcHealthCheckFailed :: string where
  "ErrRpcHealthCheckFailed = ''RPC health check failed '' @
     map char_of [194 :: nat, 175, 92, 95, 40, 227, 131, 132, 41, 95, 47, 194, 175]"

subsection \<open>Paths\<close>

text \<open>\<open>filepath.Join\<close> of the standard library: \<open>Clean\<close> works on the components with a stack, topmost first.\<close>

fun clean_step :: "bool \<Rightarrow> string \<Rightarrow> string list \<Rightarrow> string list" where
  "clean_step rooted c stack =
     (if c = [] \<or> c = ''.'' then stack
      else if c = ''..'' then
        (case stack of
           [] \<Rightarrow> if rooted then [] else [''..'']
         | d # rest \<Rightarrow> if d = ''..'' then ''..'' # stack else rest)
      else c # stack)"

definition filepath_Clean :: "string \<Rightarrow> string" where
  "filepath_Clean p =
     (let rooted = HasPrefix p ''/''; s = Join (rev (fold (clean_step rooted) (Split1 p CHR ''/'') [])) ''/'' in
      if rooted then ''/'' @ s else if s = [] then ''.'' else s)"

definition filepath_Join :: "string list \<Rightarrow> string" where
  "filepath_Join elems =
     (case dropWhile (\<lambda>e. e = []) elems of [] \<Rightarrow> [] | e # es \<Rightarrow> filepath_Clean (Join (e # es) ''/''))"

subsection \<open>Steps of the start-up\<close>

type_synonym 'a start = "(Transaction list \<times> 'a res) go"

definition start_bind :: "'a start \<Rightarrow> ('a \<Rightarrow> 'b start) \<Rightarrow> 'b start" where
  "start_bind m f =
     go_bind m (\<lambda>(txs, r). case r of
         Inl err \<Rightarrow> Ret (txs, Inl err)
       | Inr x \<Rightarrow> go_bind (f x) (\<lambda>(txs', r'). Ret (txs @ txs', r')))"

definition quiet :: "'a res go \<Rightarrow> 'a start" where
  "quiet m = go_bind m (\<lambda>r. Ret ([], r))"

definition pure_step :: "'a go \<Rightarrow> 'a start" where
  "pure_step m = go_bind m (\<lambda>x. Ret ([], Inr x))"

definition wrap_err :: "string \<Rightarrow> 'a res \<Rightarrow> 'a res" where
  "wrap_err msg r = (case r of Inl err \<Rightarrow> Inl (ErrWrap msg err) | Inr x \<Rightarrow> Inr x)"

lemma start_bind_Inr:
  "start_bind m f = Ret (txs, Inr y) \<longleftrightarrow> (\<exists>t1 x t2. m = Ret (t1, Inr x) \<and> f x = Ret (t2, Inr y) \<and> txs = t1 @ t2)"
proof (cases m)
  case (Ret p)
  obtain t r where p: "p = (t, r)" by (cases p)
  show ?thesis by (cases r) (auto simp: start_bind_def Ret p go_bind_Ret_iff)
qed (simp_all add: start_bind_def)

lemma quiet_Inr: "quiet m = Ret (txs, Inr x) \<longleftrightarrow> txs = [] \<and> m = Ret (Inr x)"
  by (auto simp: quiet_def go_bind_Ret_iff)

lemma pure_step_Inr: "pure_step m = Ret (txs, Inr x) \<longleftrightarrow> txs = [] \<and> m = Ret x"
  by (auto simp: pure_step_def go_bind_Ret_iff)

lemma wrap_err_Inr: "wrap_err msg r = Inr x \<longleftrightarrow> r = Inr x"
  by (cases r) (simp_all add: wrap_err_def)

lemmas start_simps = start_bind_Inr quiet_Inr pure_step_Inr wrap_err_Inr

text \<open>
  What the start-up needs from outside. \<open>seTransfer\<close> is what the node does with the health check's transfer (0) and with the
  transfer to each ephemeral address; \<open>seTakes\<close> and \<open>seEnds\<close> are the orders in which the goroutines take their nonces and finish.
\<close>

record 'pk start_env =
  seDial :: "string \<Rightarrow> goerr option"
  seChainID :: "int res"
  seOpenFile :: "string \<Rightarrow> string res"
  seContractsToml :: "string \<Rightarrow> (address, string) gomap res"
  seAddrHex :: "address \<Rightarrow> string"
  seReadDir :: "string \<Rightarrow> string list res"
  seOpenIn :: "string \<Rightarrow> string \<Rightarrow> string res"
  seAbiJSON :: "string \<Rightarrow> ABI res"
  seFromHex :: "string \<Rightarrow> byte list"
  seHexToECDSA :: "string \<Rightarrow> 'pk res"
  sePubkeyToAddress :: "'pk \<Rightarrow> address"
  seKeyGen :: "nat \<Rightarrow> (string \<times> string) res go"
  seRateLimiter :: "int \<Rightarrow> unit go"
  seNonceAt :: "address \<Rightarrow> int res"
  seFeeNode :: "nat \<Rightarrow> fee_node"
  seTransfer :: "nat \<Rightarrow> ('pk, Receipt) transfer_env"
  seBalanceAt :: "address \<Rightarrow> int res"
  seNewAddress :: "(string \<times> string) res go"
  seHexToAddress :: "string \<Rightarrow> address"
  seEstimateGas :: "address \<Rightarrow> address \<Rightarrow> int \<Rightarrow> int res"
  seTakes :: "nat \<Rightarrow> nat list"
  seEnds :: "nat \<Rightarrow> nat list"
  seFees :: fee_env
  seNow :: string

definition new_store :: "'pk start_env \<Rightarrow> Config \<Rightarrow> ContractStore res" where
  "new_store env cfg =
     wrap_err ErrCreateABIStore
       (NewContractStore (seReadDir env) (seOpenIn env) (seAbiJSON env) (seFromHex env)
          (filepath_Join [ConfigDir cfg, ABIDir cfg]) (filepath_Join [ConfigDir cfg, BINDir cfg]))"

definition load_contract_map :: "'pk start_env \<Rightarrow> Config \<Rightarrow> ContractMap res go" where
  "load_contract_map env cfg =
     go_bind (IsSimulatedNetwork cfg) (\<lambda>simulated.
     Ret (if simulated then Inr NewEmptyContractMap
          else case wrap_err ErrReadContractMap
                      (LoadDeployedContracts (seOpenFile env) (seContractsToml env) (seAddrHex env) (ContractMapFile cfg)) of
            Inl err \<Rightarrow> Inl err
          | Inr contracts \<Rightarrow> Inr (NewContractMap contracts)))"

text \<open>The options of the package; \<open>WithContractMap\<close> gives a map that is not nil, which the first component remembers.\<close>

datatype client_option =
    OptContractStore ContractStore
  | OptContractMap ContractMap
  | OptABIFinder
  | OptNonceManager NonceManager
  | OptTracer Tracer

fun apply_option :: "client_option \<Rightarrow> bool \<times> 'pk Client \<Rightarrow> bool \<times> 'pk Client" where
  "apply_option (OptContractStore cs) (mapSet, c) = (mapSet, WithContractStore (Some cs) c)"
| "apply_option (OptContractMap cm) (mapSet, c) = (True, WithContractMap cm c)"
| "apply_option OptABIFinder (mapSet, c) = (mapSet, WithABIFinder c)"
| "apply_option (OptNonceManager mgr) (mapSet, c) = (mapSet, WithNonceManager (Some mgr) c)"
| "apply_option (OptTracer t) (mapSet, c) = (mapSet, WithTracer (Some t) c)"

definition sync_nonces :: "'pk start_env \<Rightarrow> 'pk Client \<Rightarrow> 'pk Client res go" where
  "sync_nonces env c =
     (case clNonceManager c of
        None \<Rightarrow> Ret (Inr c)
      | Some mgr \<Rightarrow>
          go_bind (client_net c) (\<lambda>n.
          if netPrivateKeys n = [] then Ret (Inr c)
          else go_bind (UpdateNonces (seNonceAt env) mgr) (\<lambda>(mgr', err).
            Ret (case err of Some e \<Rightarrow> Inl e | None \<Rightarrow> Inr (c\<lparr>clNonceManager := Some mgr'\<rparr>)))))"

text \<open>The gas price of the transfers at start-up: of the health check (0) and of the funding (1).\<close>

definition startup_gas_price :: "'pk start_env \<Rightarrow> nat \<Rightarrow> 'pk Client \<Rightarrow> ('pk Client \<times> int) go" where
  "startup_gas_price env i m = standard_gas_price (feLog10 (seFees env)) (seFeeNode env i) m"

definition checkRPCHealth :: "'pk start_env \<Rightarrow> 'pk Client \<Rightarrow> 'pk Client start" where
  "checkRPCHealth env m =
     go_bind (client_net m) (\<lambda>n.
     if TxnTimeout n = None then Panic ''nil pointer dereference''
     else go_bind (startup_gas_price env 0 m) (\<lambda>(m1, gasPrice).
       go_bind (go_index (clAddresses m) 0) (\<lambda>rootAddr.
       go_bind (transfer_from_key (seTransfer env 0) m1 0 (seAddrHex env rootAddr) 10000 gasPrice) (\<lambda>(m', sent, err).
       Ret (sent_list sent, case err of Some e \<Rightarrow> Inl (ErrWrap ErrRpcHealthCheckFailed e) | None \<Rightarrow> Inr m')))))"

definition health_check :: "'pk start_env \<Rightarrow> 'pk Client \<Rightarrow> 'pk Client start" where
  "health_check env c =
     (if CheckRpcHealthOnStart (Cfg c) \<and> clNonceManager c \<noteq> None then checkRPCHealth env c else Ret ([], Inr c))"

subsection \<open>Funding the ephemeral keys\<close>

text \<open>The goroutines in the order in which they take their nonces.\<close>

definition fund_loop ::
  "'pk start_env \<Rightarrow> address list \<Rightarrow> int \<Rightarrow> int \<Rightarrow> nat list \<Rightarrow> 'pk Client \<Rightarrow> ('pk Client \<times> Transaction list \<times> (nat \<times> goerr) list) go" where
  "fund_loop env addrs val gasPrice =
     run_group (\<lambda>i c. transfer_from_key (seTransfer env (Suc i)) c 0 (seAddrHex env (addrs ! i)) val gasPrice)"

definition fund_ephemeral :: "'pk start_env \<Rightarrow> 'pk Client \<Rightarrow> 'pk Client start" where
  "fund_ephemeral env c0 =
     start_bind (pure_step (startup_gas_price env 1 c0)) (\<lambda>(c, gasPrice).
     start_bind (pure_step (client_net c)) (\<lambda>n.
     case (EphemeralAddrs (Cfg c), RootKeyFundsBuffer (Cfg c)) of
       (Some addrs, Some buffer) \<Rightarrow>
         start_bind (quiet (CalculateSubKeyFunding (seBalanceAt env) (seNewAddress env) (seHexToAddress env) (seEstimateGas env)
             n (clAddresses c) addrs (int64 gasPrice) buffer)) (\<lambda>bd.
         start_bind (pure_step (go_slice (clAddresses c) 1 (int (length (clAddresses c))))) (\<lambda>rest.
         go_bind (fund_loop env rest (AddrFunding bd) gasPrice (seTakes env (length rest)) c) (\<lambda>(c', txs, errs).
         Ret (txs, case first_failure (seEnds env (length rest)) errs of Some e \<Rightarrow> Inl e | None \<Rightarrow> Inr c'))))
     | _ \<Rightarrow> Panic ''nil pointer dereference''))"

subsection \<open>The rest of the client\<close>

definition ensure_tracer :: "'pk start_env \<Rightarrow> 'pk Client \<Rightarrow> 'pk Client res go" where
  "ensure_tracer env c =
     (if TracingLevel (Cfg c) \<noteq> TracingLevel_None \<and> clTracer c = None then
        (case (case clContractStore c of Some cs \<Rightarrow> Inr cs | None \<Rightarrow> new_store env (Cfg c)) of
           Inl err \<Rightarrow> Ret (Inl err)
         | Inr cs \<Rightarrow>
             go_bind (NewTracer (seDial env) (Cfg c) (ContractAddressToNameMap c)) (\<lambda>r.
             Ret (case wrap_err ErrCreateTracer r of
                 Inl err \<Rightarrow> Inl err
               | Inr tr \<Rightarrow> Inr (c\<lparr>clContractStore := Some cs, clABIFinder := True, clTracer := Some tr\<rparr>))))
      else Ret (Inr c))"

definition reverted_file :: "'pk start_env \<Rightarrow> Config \<Rightarrow> Network \<Rightarrow> string" where
  "reverted_file env cfg n =
     filepath_Join [ArtifactsDir cfg, ''reverted_transactions_'' @ netName n @ ''_'' @ seNow env @ ''.json'']"

definition init_estimations :: "'pk start_env \<Rightarrow> 'pk Client \<Rightarrow> 'pk Client go" where
  "init_estimations env c =
     go_bind (client_net c) (\<lambda>n.
     let c1 = c\<lparr>Cfg := (Cfg c)\<lparr>revertedTransactionsFile := reverted_file env (Cfg c) n\<rparr>\<rparr> in
     if GasPriceEstimationEnabled n then
       (let c2 = c1\<lparr>HeaderCache := Some (NewLFUBlockCache (GasPriceEstimationBlocks n))\<rparr> in
        if EIP1559DynamicFees n then
          go_bind (CalculateGasEstimations (seFees env) (Cfg c2) (HeaderCache c2)
              \<lparr>GasEstimationEnabled = True, FallbackGasPrice = netGasPrice n, FallbackGasFeeCap = netGasFeeCap n,
               FallbackGasTipCap = netGasTipCap n, rqPriority = Priority_Standard\<rparr>) (\<lambda>(cfg', hc', _).
          Ret (c2\<lparr>Cfg := cfg', HeaderCache := hc'\<rparr>))
        else Ret c2)
     else Ret c1)"

definition default_strategy :: "Config \<Rightarrow> string \<Rightarrow> Config" where
  "default_strategy cfg priority =
     (case GasBump cfg of
        None \<Rightarrow> cfg
      | Some g \<Rightarrow>
          (case StrategyFn g of
             Some fn \<Rightarrow> cfg
           | None \<Rightarrow> cfg\<lparr>GasBump := Some (g\<lparr>StrategyFn := Some
               (if GasBumpRetries cfg \<noteq> 0 then PriorityBasedGasBumpingStrategyFn priority else NoOpGasBumpStrategyFn)\<rparr>)\<rparr>))"

definition set_strategy :: "'pk Client \<Rightarrow> 'pk Client go" where
  "set_strategy c =
     go_bind (client_net c) (\<lambda>n. Ret (c\<lparr>Cfg := default_strategy (Cfg c) (GasPriceEstimationTxPriority n)\<rparr>))"

definition raw_client :: "Config \<Rightarrow> address list \<Rightarrow> 'pk list \<Rightarrow> int \<Rightarrow> string \<Rightarrow> 'pk Client" where
  "raw_client cfg addrs pkeys cID url =
     \<lparr>Cfg = cfg, clAddresses = addrs, PrivateKeys = pkeys, ChainID = cID, clURL = url, clErrors = [], clContractStore = None,
      clNonceManager = None, clTracer = None, ContractAddressToNameMap = NewEmptyContractMap, clABIFinder = False, HeaderCache = None\<rparr>"

text \<open>The client before any transaction: connected, its chain ID read, options applied, its contract map loaded.\<close>

definition connect :: "'pk start_env \<Rightarrow> Config \<Rightarrow> (Config \<times> int \<times> string) res go" where
  "connect env cfg =
     go_bind (deref cfg (cfgNetwork cfg)) (\<lambda>n.
     if URLs n = [] then Ret (Inl (ErrNew ''no RPC URL provided''))
     else if DialTimeout n = None then Panic ''nil pointer dereference''
     else go_bind (FirstNetworkURL cfg) (\<lambda>url.
       Ret (case seDial env url of
           Some err \<Rightarrow> Inl (ErrWrap (''failed to connect RPC client to '' @ quote_char @ url @ quote_char @ '' due to'') err)
         | None \<Rightarrow>
             (case wrap_err ''failed to get chain ID'' (seChainID env) of
                Inl err \<Rightarrow> Inl err
              | Inr chainId \<Rightarrow>
                  (case Atoi (Itoa chainId) of
                     Inl err \<Rightarrow> Inl err
                   | Inr cID \<Rightarrow> Inr (upd_net (the (cfgNetwork cfg)) (\<lambda>n. n\<lparr>netChainID := Itoa chainId\<rparr>) cfg, cID, url))))))"

definition with_contract_map :: "'pk start_env \<Rightarrow> bool \<times> 'pk Client \<Rightarrow> 'pk Client res go" where
  "with_contract_map env mc =
     (case mc of (mapSet, c) \<Rightarrow>
        if mapSet then Ret (Inr c)
        else go_bind (load_contract_map env (Cfg c)) (\<lambda>r.
          Ret (case r of Inl err \<Rightarrow> Inl err | Inr cm \<Rightarrow> Inr (c\<lparr>ContractAddressToNameMap := cm\<rparr>))))"

definition NewClientRaw ::
  "'pk start_env \<Rightarrow> Config \<Rightarrow> address list \<Rightarrow> 'pk list \<Rightarrow> client_option list \<Rightarrow> 'pk Client start" where
  "NewClientRaw env cfg addrs pkeys opts =
     start_bind (quiet (connect env cfg)) (\<lambda>(cfg1, cID, url).
     start_bind (quiet (with_contract_map env (fold apply_option opts (False, raw_client cfg1 addrs pkeys cID url)))) (\<lambda>c1.
     start_bind (quiet (sync_nonces env c1)) (\<lambda>c2.
     start_bind (health_check env c2) (\<lambda>c3.
     let c4 = c3\<lparr>Cfg := setEphemeralAddrs (Cfg c3)\<rparr> in
     start_bind (if ephemeral (Cfg c4) then fund_ephemeral env c4 else Ret ([], Inr c4)) (\<lambda>c5.
     start_bind (quiet (ensure_tracer env c5)) (\<lambda>c6.
     start_bind (pure_step (init_estimations env c6)) (\<lambda>c7.
     pure_step (set_strategy c7))))))))"

subsection \<open>Clients from a configuration\<close>

text \<open>
  The slice \<^verbatim>\<open>[:1]\<close> of the keys is taken up to the length of the list and panics on an empty one. Go allows it up to the capacity:
  for an empty key list with spare capacity it returns a key left in the underlying array, or an empty key.
\<close>

definition ephemeral_keys :: "'pk start_env \<Rightarrow> Config \<Rightarrow> Config res go" where
  "ephemeral_keys env cfg =
     (if ephemeral cfg then
        go_bind (deref cfg (cfgNetwork cfg)) (\<lambda>n.
        go_bind (go_slice (netPrivateKeys n) 0 1) (\<lambda>rootKey.
        case EphemeralAddrs cfg of
          None \<Rightarrow> Panic ''nil pointer dereference''
        | Some k \<Rightarrow>
            go_bind (NewEphemeralKeys (seKeyGen env) k) (\<lambda>r.
            Ret (case r of
                Inl err \<Rightarrow> Inl err
              | Inr pkeys \<Rightarrow> Inr (upd_net (the (cfgNetwork cfg)) (\<lambda>n. n\<lparr>netPrivateKeys := rootKey @ pkeys\<rparr>) cfg)))))
      else Ret (Inr cfg))"

text \<open>\<open>NewNonceManager\<close> with the rate limiter it creates from the configuration.\<close>

definition limited_nonce_manager :: "'pk start_env \<Rightarrow> Config \<Rightarrow> address list \<Rightarrow> NonceManager go" where
  "limited_nonce_manager env cfg addrs =
     (case cfgNonceManager cfg of
        None \<Rightarrow> Panic ''nil pointer dereference''
      | Some nmc \<Rightarrow> go_bind (seRateLimiter env (KeySyncRateLimitSec nmc)) (\<lambda>_. Ret (NewNonceManager addrs)))"

definition contract_map_file :: "'pk start_env \<Rightarrow> Config \<Rightarrow> Config go" where
  "contract_map_file env cfg =
     go_bind (IsSimulatedNetwork cfg) (\<lambda>simulated.
     if \<not> simulated \<and> SaveDeployedContractsMap cfg \<and> ContractMapFile cfg = []
     then go_bind (GenerateContractMapFileName (seNow env) cfg) (\<lambda>f. Ret (cfg\<lparr>ContractMapFile := f\<rparr>))
     else Ret cfg)"

definition validated :: "Config \<Rightarrow> Config res go" where
  "validated cfg =
     go_bind (ValidateConfig cfg) (\<lambda>(cfg1, err). Ret (case err of Some e \<Rightarrow> Inl e | None \<Rightarrow> Inr (setEphemeralAddrs cfg1)))"

definition first_tracer :: "'pk start_env \<Rightarrow> Config \<Rightarrow> ContractMap \<Rightarrow> Tracer res go" where
  "first_tracer env cfg cm =
     go_bind (deref cfg (cfgNetwork cfg)) (\<lambda>n.
     if URLs n = [] then
       Ret (Inl (ErrNew (''at least one url should be present in config in '' @ quote_char @ ''secret_urls = []'' @ quote_char)))
     else go_bind (NewTracer (seDial env) cfg cm) (\<lambda>r. Ret (wrap_err ErrCreateTracer r)))"

definition NewClientWithConfig :: "'pk start_env \<Rightarrow> Config \<Rightarrow> 'pk Client start" where
  "NewClientWithConfig env cfg =
     start_bind (quiet (validated cfg)) (\<lambda>cfg2.
     start_bind (quiet (Ret (new_store env cfg2))) (\<lambda>cs.
     start_bind (quiet (ephemeral_keys env cfg2)) (\<lambda>cfg3.
     start_bind (pure_step (deref cfg3 (cfgNetwork cfg3))) (\<lambda>n.
     start_bind (quiet (Ret (wrap_err ErrReadingKeys (ParseKeys (seHexToECDSA env) (sePubkeyToAddress env) (netPrivateKeys n))))) (\<lambda>(addrs, pkeys).
     start_bind (pure_step (limited_nonce_manager env cfg3 addrs)) (\<lambda>mgr.
     start_bind (pure_step (contract_map_file env cfg3)) (\<lambda>cfg4.
     start_bind (quiet (load_contract_map env cfg4)) (\<lambda>cm.
     start_bind (quiet (first_tracer env cfg4 cm)) (\<lambda>tr.
     NewClientRaw env cfg4 addrs pkeys [OptContractStore cs, OptNonceManager mgr, OptTracer tr, OptContractMap cm, OptABIFinder])))))))))"

definition NewClient ::
  "'pk start_env \<Rightarrow> (string \<Rightarrow> string) \<Rightarrow> (string \<Rightarrow> string res) \<Rightarrow> (string \<Rightarrow> Config res) \<Rightarrow> (string \<Rightarrow> string res) \<Rightarrow> 'pk Client start" where
  "NewClient env getenv readFile tomlUnmarshal absDir =
     start_bind (quiet (Ret (ReadConfig getenv readFile tomlUnmarshal absDir))) (NewClientWithConfig env)"

definition Build :: "'pk start_env \<Rightarrow> Config \<Rightarrow> 'pk Client start" where
  "Build env builder = NewClientWithConfig env builder"

definition DefaultClient :: "'pk start_env \<Rightarrow> string \<Rightarrow> string list \<Rightarrow> 'pk Client start" where
  "DefaultClient env rpcUrl privateKeys =
     start_bind (pure_step (DefaultClient_config rpcUrl privateKeys)) (Build env)"

subsection \<open>What the steps change\<close>

lemma deref_RetD:
  assumes "deref c q = Ret n"
  obtains p where "q = Some p" "p < length (net_store c)" "n = net_store c ! p"
  using assms by (auto simp: deref_def go_index_def split: option.splits if_splits)

lemma deref_upd_net: "deref c (Some p) = Ret n \<Longrightarrow> deref (upd_net p f c) (Some p) = Ret (f n)"
  by (auto simp: deref_def go_index_def split: if_splits)

lemma digits_no_sign: "0 \<le> n \<Longrightarrow> \<not> HasPrefix (digits n) ''-'' \<and> \<not> HasPrefix (digits n) ''+''"
proof -
  assume n: "0 \<le> n"
  have "parse_dec (digits n) 0 \<noteq> None" using parse_dec_digits [OF n] by simp
  then show ?thesis
    by (cases "digits n") (auto simp: HasPrefix_def dec_value_def split: option.splits if_splits)
qed

lemma Atoi_Itoa:
  assumes "Atoi (Itoa k) = Inr i"
  shows "i = k"
  using assms parse_dec_digits [of k] parse_dec_digits [of "- k"] digits_no_sign [of k]
  by (cases "k < 0") (auto simp: Atoi_def Itoa_def signed_text_def Let_def HasPrefix_def split: option.splits if_splits)

lemma connect_ok:
  assumes "connect env cfg = Ret (Inr (cfg1, cID, url))"
  obtains p n where "cfgNetwork cfg = Some p" "deref cfg (Some p) = Ret n" "URLs n \<noteq> []" "DialTimeout n \<noteq> None" "url = hd (URLs n)"
    "cfg1 = upd_net p (\<lambda>n. n\<lparr>netChainID := Itoa cID\<rparr>) cfg"
proof -
  obtain n where n: "deref cfg (cfgNetwork cfg) = Ret n" using assms by (auto simp: connect_def go_bind_Ret_iff)
  then obtain p where p: "cfgNetwork cfg = Some p" by (rule deref_RetD)
  have u: "URLs n \<noteq> []" "DialTimeout n \<noteq> None" using assms n by (auto simp: connect_def split: if_splits)
  have url: "FirstNetworkURL cfg = Ret (hd (URLs n))" using n u by (simp add: FirstNetworkURL_def go_index_def hd_conv_nth)
  obtain k where k: "Atoi (Itoa k) = Inr cID" "url = hd (URLs n)" "cfg1 = upd_net p (\<lambda>n. n\<lparr>netChainID := Itoa k\<rparr>) cfg"
    using assms n u url p by (auto simp: connect_def wrap_err_def split: option.splits sum.splits if_splits)
  then have "cID = k" by (blast dest: Atoi_Itoa)
  with k n p u that show ?thesis by simp
qed

lemma sync_nonces_frame:
  assumes "sync_nonces env c = Ret (Inr c')" and "clNonceManager c = Some mgr"
  shows "\<exists>mgr'. c' = c\<lparr>clNonceManager := Some mgr'\<rparr>"
proof -
  obtain n where n: "client_net c = Ret n" using assms by (auto simp: sync_nonces_def go_bind_Ret_iff)
  show ?thesis
  proof (cases "netPrivateKeys n = []")
    case True
    then have "c' = c" using assms n by (simp add: sync_nonces_def)
    then show ?thesis using assms(2) by (intro exI [of _ mgr]) simp
  next
    case False
    then show ?thesis using assms n by (auto simp: sync_nonces_def go_bind_Ret_iff split: option.splits)
  qed
qed

lemma health_check_frame:
  assumes "health_check env c = Ret (txs, Inr c')" and "clNonceManager c = Some mgr" and cache: "HeaderCache c = None"
  shows "\<exists>mgr'. c' = c\<lparr>clNonceManager := Some mgr'\<rparr>"
proof (cases "CheckRpcHealthOnStart (Cfg c)")
  case False
  then have "c' = c" using assms by (simp add: health_check_def)
  then show ?thesis using assms(2) by (intro exI [of _ mgr]) simp
next
  case True
  then obtain c1 p a sent where p: "startup_gas_price env 0 c = Ret (c1, p)"
    and t: "transfer_from_key (seTransfer env 0) c1 0 (seAddrHex env a) 10000 p = Ret (c', sent, None)"
    using assms by (auto simp: health_check_def checkRPCHealth_def go_bind_Ret_iff split: if_splits option.splits)
  have "c1 = c" using standard_price_uncached [OF p [unfolded startup_gas_price_def] cache] by simp
  then show ?thesis using transfer_from_key_frame t assms(2) by blast
qed

lemma fund_loop_frame:
  assumes "fund_loop env addrs val p is c = Ret (c', txs, errs)" and "clNonceManager c = Some mgr"
  shows "\<exists>mgr'. c' = c\<lparr>clNonceManager := Some mgr'\<rparr>"
  using assms unfolding fund_loop_def by (rule root_group_frame)

lemma fund_ephemeral_steps:
  assumes run: "fund_ephemeral env c = Ret (txs, Inr c')" and cache: "HeaderCache c = None"
  obtains gasPrice n k buffer bd errs where "gasPrice = netGasPrice n" "client_net c = Ret n"
    "EphemeralAddrs (Cfg c) = Some k" "RootKeyFundsBuffer (Cfg c) = Some buffer"
    "CalculateSubKeyFunding (seBalanceAt env) (seNewAddress env) (seHexToAddress env) (seEstimateGas env) n (clAddresses c) k
       (int64 gasPrice) buffer = Ret (Inr bd)"
    "clAddresses c \<noteq> []"
    "fund_loop env (tl (clAddresses c)) (AddrFunding bd) gasPrice (seTakes env (length (clAddresses c) - 1)) c = Ret (c', txs, errs)"
    "first_failure (seEnds env (length (clAddresses c) - 1)) errs = None"
proof -
  obtain c1 p where p: "startup_gas_price env 1 c = Ret (c1, p)"
    using run by (auto simp: fund_ephemeral_def start_simps)
  have price: "c1 = c" "\<exists>n. client_net c = Ret n \<and> p = netGasPrice n"
    using standard_price_uncached [OF p [unfolded startup_gas_price_def] cache] by simp_all
  note assms = run [unfolded fund_ephemeral_def] p price(1)
  obtain k buffer where kb: "EphemeralAddrs (Cfg c) = Some k" "RootKeyFundsBuffer (Cfg c) = Some buffer"
    using assms by (auto simp: start_simps split: option.splits)
  obtain gasPrice n bd rest errs where st: "gasPrice = netGasPrice n" "client_net c = Ret n"
    "CalculateSubKeyFunding (seBalanceAt env) (seNewAddress env) (seHexToAddress env) (seEstimateGas env) n (clAddresses c) k
       (int64 gasPrice) buffer = Ret (Inr bd)"
    "go_slice (clAddresses c) 1 (int (length (clAddresses c))) = Ret rest"
    "fund_loop env rest (AddrFunding bd) gasPrice (seTakes env (length rest)) c = Ret (c', txs, errs)"
    "first_failure (seEnds env (length rest)) errs = None"
    using assms kb price(2) by (auto simp: start_simps go_bind_Ret_iff split: option.splits)
  have "clAddresses c \<noteq> []" "rest = tl (clAddresses c)"
    using st(4) by (auto simp: go_slice_def drop_Suc split: if_splits)
  with st kb that show ?thesis by simp
qed

lemma fund_ephemeral_frame:
  assumes "fund_ephemeral env c = Ret (txs, Inr c')" and "clNonceManager c = Some mgr" and "HeaderCache c = None"
  shows "\<exists>mgr'. c' = c\<lparr>clNonceManager := Some mgr'\<rparr>"
  using fund_ephemeral_steps [OF assms(1,3)] fund_loop_frame [OF _ assms(2)] by metis

lemma degraded_frame:
  assumes "degraded n n'"
  shows "URLs n' = URLs n" "DialTimeout n' = DialTimeout n" "netChainID n' = netChainID n" "netGasPrice n' = netGasPrice n"
    "TransferGasFee n' = TransferGasFee n" "GasPriceEstimationTxPriority n' = GasPriceEstimationTxPriority n"
    "GasPriceEstimationEnabled n' \<Longrightarrow> GasPriceEstimationEnabled n" "netPrivateKeys n' = netPrivateKeys n"
proof -
  have e: "n' = n\<lparr>GasPriceEstimationEnabled := GasPriceEstimationEnabled n', EIP1559DynamicFees := EIP1559DynamicFees n'\<rparr>"
    using assms by (simp add: degraded_def)
  show "URLs n' = URLs n" "DialTimeout n' = DialTimeout n" "netChainID n' = netChainID n" "netGasPrice n' = netGasPrice n"
    "TransferGasFee n' = TransferGasFee n" "GasPriceEstimationTxPriority n' = GasPriceEstimationTxPriority n"
    "netPrivateKeys n' = netPrivateKeys n"
    by (subst e, simp)+
  show "GasPriceEstimationEnabled n' \<Longrightarrow> GasPriceEstimationEnabled n" using assms by (simp add: degraded_def)
qed

lemma init_estimations_frame:
  assumes run: "init_estimations env c = Ret c'" and n: "client_net c = Ret n"
  obtains n' cfg' hc where "c' = c\<lparr>Cfg := cfg', HeaderCache := hc\<rparr>" "client_net c' = Ret n'" "degraded n n'"
    "cfgNetwork cfg' = cfgNetwork (Cfg c)" "TracingLevel cfg' = TracingLevel (Cfg c)"
    "GasBump cfg' = GasBump (Cfg c)" "GasPriceEstimationEnabled n' \<longrightarrow> hc \<noteq> None"
    "RootKeyFundsBuffer cfg' = RootKeyFundsBuffer (Cfg c)" "EphemeralAddrs cfg' = EphemeralAddrs (Cfg c)"
    "CheckRpcHealthOnStart cfg' = CheckRpcHealthOnStart (Cfg c)"
proof -
  define cfg1 where "cfg1 = (Cfg c)\<lparr>revertedTransactionsFile := reverted_file env (Cfg c) n\<rparr>"
  define hc where "hc = Some (NewLFUBlockCache (GasPriceEstimationBlocks n))"
  have n1: "deref cfg1 (cfgNetwork cfg1) = Ret n" using n by (cases "cfgNetwork (Cfg c)") (simp_all add: cfg1_def client_net_def deref_def)
  consider (off) "\<not> GasPriceEstimationEnabled n" | (legacy) "GasPriceEstimationEnabled n" "\<not> EIP1559DynamicFees n"
    | (dynamic) "GasPriceEstimationEnabled n" "EIP1559DynamicFees n" by blast
  then show ?thesis
  proof cases
    case off
    then have "c' = c\<lparr>Cfg := cfg1\<rparr>" using run n by (simp add: init_estimations_def cfg1_def)
    then have "c' = c\<lparr>Cfg := cfg1, HeaderCache := HeaderCache c\<rparr>" by (cases c) simp
    with that [of "HeaderCache c" cfg1 n] n1 off show ?thesis by (simp add: client_net_def cfg1_def)
  next
    case legacy
    then have "c' = c\<lparr>Cfg := cfg1, HeaderCache := hc\<rparr>" using run n by (simp add: init_estimations_def cfg1_def hc_def)
    with that [of hc cfg1 n] n1 show ?thesis by (simp add: client_net_def cfg1_def hc_def)
  next
    case dynamic
    then obtain request cfg' hc' est where e: "CalculateGasEstimations (seFees env) cfg1 hc request = Ret (cfg', hc', est)"
      and c': "c' = c\<lparr>Cfg := cfg', HeaderCache := hc'\<rparr>"
      using run n by (auto simp: init_estimations_def cfg1_def hc_def go_bind_Ret_iff Let_def)
    obtain n' where n': "deref cfg' (cfgNetwork cfg') = Ret n'" "degraded n n'" "cfg' = upd_net (the (cfgNetwork cfg1)) (\<lambda>_. n') cfg1"
      using CalculateGasEstimations_ok [OF e n1] by blast
    have "cfgNetwork cfg' = cfgNetwork (Cfg c)" "TracingLevel cfg' = TracingLevel (Cfg c)" "GasBump cfg' = GasBump (Cfg c)"
      "RootKeyFundsBuffer cfg' = RootKeyFundsBuffer (Cfg c)" "EphemeralAddrs cfg' = EphemeralAddrs (Cfg c)"
      "CheckRpcHealthOnStart cfg' = CheckRpcHealthOnStart (Cfg c)"
      unfolding n'(3) by (simp_all add: cfg1_def upd_net_def)
    moreover have "hc' \<noteq> None" using e estimations_keep_cache by (auto simp: hc_def)
    ultimately show ?thesis using that [OF c'] c' n'(1,2) by (simp add: client_net_def)
  qed
qed

lemma default_strategy_set:
  "cfgNetwork (default_strategy cfg pr) = cfgNetwork cfg" "net_store (default_strategy cfg pr) = net_store cfg"
  "TracingLevel (default_strategy cfg pr) = TracingLevel cfg"
  "RootKeyFundsBuffer (default_strategy cfg pr) = RootKeyFundsBuffer cfg" "EphemeralAddrs (default_strategy cfg pr) = EphemeralAddrs cfg"
  "CheckRpcHealthOnStart (default_strategy cfg pr) = CheckRpcHealthOnStart cfg"
  "GasBump (default_strategy cfg pr) = Some g \<Longrightarrow> \<exists>fn. StrategyFn g = Some fn"
  by (auto simp: default_strategy_def split: option.splits)

lemma NewClientRaw_steps:
  assumes "NewClientRaw env cfg addrs pkeys opts = Ret (txs, Inr c)"
  obtains cfg1 cID url c1 c2 c3 c5 c6 c7 t1 t2 where "connect env cfg = Ret (Inr (cfg1, cID, url))"
    "with_contract_map env (fold apply_option opts (False, raw_client cfg1 addrs pkeys cID url)) = Ret (Inr c1)"
    "sync_nonces env c1 = Ret (Inr c2)" "health_check env c2 = Ret (t1, Inr c3)"
    "(if ephemeral (setEphemeralAddrs (Cfg c3)) then fund_ephemeral env (c3\<lparr>Cfg := setEphemeralAddrs (Cfg c3)\<rparr>)
      else Ret ([], Inr (c3\<lparr>Cfg := setEphemeralAddrs (Cfg c3)\<rparr>))) = Ret (t2, Inr c5)"
    "ensure_tracer env c5 = Ret (Inr c6)" "init_estimations env c6 = Ret c7" "set_strategy c7 = Ret c" "txs = t1 @ t2"
  using assms unfolding NewClientRaw_def start_simps Let_def by (auto simp: start_simps)

lemma NewClientWithConfig_steps:
  assumes "NewClientWithConfig env cfg = Ret (txs, Inr c)"
  obtains cfg1 cs cfg3 n addrs pkeys cfg4 cm tr where "ValidateConfig cfg = Ret (cfg1, None)"
    "ephemeral_keys env (setEphemeralAddrs cfg1) = Ret (Inr cfg3)" "deref cfg3 (cfgNetwork cfg3) = Ret n"
    "ParseKeys (seHexToECDSA env) (sePubkeyToAddress env) (netPrivateKeys n) = Inr (addrs, pkeys)"
    "contract_map_file env cfg3 = Ret cfg4" "first_tracer env cfg4 cm = Ret (Inr tr)"
    "NewClientRaw env cfg4 addrs pkeys
       [OptContractStore cs, OptNonceManager (NewNonceManager addrs), OptTracer tr, OptContractMap cm, OptABIFinder] = Ret (txs, Inr c)"
proof -
  obtain cfg2 cs cfg3 n addrs pkeys mgr cfg4 cm tr where st: "validated cfg = Ret (Inr cfg2)"
    "ephemeral_keys env cfg2 = Ret (Inr cfg3)" "deref cfg3 (cfgNetwork cfg3) = Ret n"
    "ParseKeys (seHexToECDSA env) (sePubkeyToAddress env) (netPrivateKeys n) = Inr (addrs, pkeys)"
    "limited_nonce_manager env cfg3 addrs = Ret mgr"
    "contract_map_file env cfg3 = Ret cfg4" "first_tracer env cfg4 cm = Ret (Inr tr)"
    "NewClientRaw env cfg4 addrs pkeys [OptContractStore cs, OptNonceManager mgr, OptTracer tr, OptContractMap cm, OptABIFinder] = Ret (txs, Inr c)"
    using assms by (auto simp: NewClientWithConfig_def start_simps)
  have "mgr = NewNonceManager addrs"
    using st(5) by (auto simp: limited_nonce_manager_def go_bind_Ret_iff split: option.splits)
  moreover obtain cfg1 where "ValidateConfig cfg = Ret (cfg1, None)" "cfg2 = setEphemeralAddrs cfg1"
    using st(1) by (auto simp: validated_def go_bind_Ret_iff split: option.splits)
  ultimately show ?thesis using that st by simp
qed

lemma ephemeral_loop_length: "ephemeral_loop f i k acc = Ret (Inr ks) \<Longrightarrow> length ks = length acc + k"
  by (induction f i k acc rule: ephemeral_loop.induct) (auto simp: go_bind_Ret_iff case_sum_eq)

lemma ParseKeys_length: "ParseKeys h p ks = Inr (addrs, pks) \<Longrightarrow> length addrs = length ks \<and> length pks = length ks"
  by (induction h p ks arbitrary: addrs pks rule: ParseKeys.induct) (auto simp: res_bind_Inr_iff case_sum_eq)

lemma setEphemeralAddrs_simps [simp]:
  "net_store (setEphemeralAddrs c) = net_store c" "cfgNetwork (setEphemeralAddrs c) = cfgNetwork c"
  "TracingLevel (setEphemeralAddrs c) = TracingLevel c" "GasBump (setEphemeralAddrs c) = GasBump c"
  "CheckRpcHealthOnStart (setEphemeralAddrs c) = CheckRpcHealthOnStart c"
  "setEphemeralAddrs (setEphemeralAddrs c) = setEphemeralAddrs c"
  by (simp_all add: setEphemeralAddrs_def Let_def)

text \<open>The configuration that \<open>NewClientWithConfig\<close> hands to \<open>NewClientRaw\<close>.\<close>

lemma ephemeral_keys_ok:
  assumes run: "ephemeral_keys env cfg = Ret (Inr cfg')" and n: "deref cfg (cfgNetwork cfg) = Ret n"
    and k: "EphemeralAddrs cfg = Some k" "ephemeral cfg \<longleftrightarrow> k \<noteq> 0"
  obtains ks where "cfg' = upd_net (the (cfgNetwork cfg)) (\<lambda>n. n\<lparr>netPrivateKeys := ks\<rparr>) cfg" "0 < k \<Longrightarrow> length ks = Suc (nat k)"
    "k = 0 \<Longrightarrow> ks = netPrivateKeys n"
proof (cases "ephemeral cfg")
  case True
  obtain rootKey pkeys where r: "go_slice (netPrivateKeys n) 0 1 = Ret rootKey" "NewEphemeralKeys (seKeyGen env) k = Ret (Inr pkeys)"
    "cfg' = upd_net (the (cfgNetwork cfg)) (\<lambda>n. n\<lparr>netPrivateKeys := rootKey @ pkeys\<rparr>) cfg"
    using run True n k by (auto simp: ephemeral_keys_def go_bind_Ret_iff case_sum_eq)
  have "length rootKey = 1" using go_slice_length [OF r(1)] by simp
  moreover have "length pkeys = nat k" using ephemeral_loop_length r(2) by (fastforce simp: NewEphemeralKeys_def)
  ultimately show ?thesis using that r(3) True k by simp
next
  case False
  obtain p where p: "cfgNetwork cfg = Some p" "p < length (net_store cfg)" "n = net_store cfg ! p" using n by (rule deref_RetD)
  have "cfg' = cfg" using run False by (simp add: ephemeral_keys_def)
  also have "\<dots> = upd_net p (\<lambda>n. n\<lparr>netPrivateKeys := netPrivateKeys (net_store cfg ! p)\<rparr>) cfg"
    using p by (simp add: upd_net_def)
  finally show ?thesis using that p False k by simp
qed

lemma ValidateConfig_frame:
  assumes ok: "ValidateConfig cfg = Ret (cfg', None)"
  obtains n where "deref cfg' (cfgNetwork cfg') = Ret n" "DialTimeout n \<noteq> None" "known_level (TracingLevel cfg')"
    "GasPriceEstimationEnabled n \<longrightarrow> GasPriceEstimationBlocks n \<noteq> 0 \<and> known_priority (GasPriceEstimationTxPriority n)"
    "EphemeralAddrs cfg' = EphemeralAddrs cfg" "RootKeyFundsBuffer cfg' = RootKeyFundsBuffer cfg"
    "CheckRpcHealthOnStart cfg' = CheckRpcHealthOnStart cfg" "\<forall>n0. deref cfg (cfgNetwork cfg) = Ret n0 \<longrightarrow> netPrivateKeys n = netPrivateKeys n0"
proof -
  obtain n0 where "deref cfg (cfgNetwork cfg) = Ret n0" using ok by (auto simp: ValidateConfig_def go_bind_Ret_iff)
  then obtain p where p: "cfgNetwork cfg = Some p" "p < length (net_store cfg)" by (rule deref_RetD)
  obtain n' level where v: "validate_network (net_store cfg ! p) = (n', None)" and l: "known_level level"
    and cfg': "cfg' = upd_net p (\<lambda>n. n\<lparr>DialTimeout := (case DialTimeout n of
                 None \<Rightarrow> Some \<lparr>D = DefaultDialTimeout\<rparr> | Some t \<Rightarrow> Some t)\<rparr>)
               ((upd_net p (\<lambda>_. n') cfg)\<lparr>TracingLevel := level\<rparr>)"
    by (rule ValidateConfig_okE [OF p ok]) auto
  let ?d = "case DialTimeout n' of None \<Rightarrow> Some \<lparr>D = DefaultDialTimeout\<rparr> | Some t \<Rightarrow> Some t"
  have "deref cfg' (cfgNetwork cfg') = Ret (n'\<lparr>DialTimeout := ?d\<rparr>)" using p by (simp add: cfg' upd_net_def deref_def)
  moreover have "GasPriceEstimationEnabled n' \<longrightarrow> GasPriceEstimationBlocks n' \<noteq> 0 \<and> known_priority (GasPriceEstimationTxPriority n')"
    using v by (auto simp: validate_network_def Let_def split: if_splits)
  moreover have "netPrivateKeys n' = netPrivateKeys (net_store cfg ! p)"
    using v by (auto simp: validate_network_def Let_def split: if_splits)
  ultimately show ?thesis using that l p by (simp add: cfg' upd_net_def deref_def split: option.splits)
qed

lemma configured:
  assumes v: "ValidateConfig cfg = Ret (cfg1, None)" and e: "ephemeral_keys env (setEphemeralAddrs cfg1) = Ret (Inr cfg3)"
    and f: "contract_map_file env cfg3 = Ret cfg4" and n: "deref cfg3 (cfgNetwork cfg3) = Ret n"
  defines "k \<equiv> case EphemeralAddrs cfg of None \<Rightarrow> 0 | Some x \<Rightarrow> x"
  shows "deref cfg4 (cfgNetwork cfg4) = Ret n" "DialTimeout n \<noteq> None" "known_level (TracingLevel cfg4)"
    "GasPriceEstimationEnabled n \<longrightarrow> GasPriceEstimationBlocks n \<noteq> 0 \<and> known_priority (GasPriceEstimationTxPriority n)"
    "EphemeralAddrs cfg4 = Some k" "RootKeyFundsBuffer cfg4 = Some (case RootKeyFundsBuffer cfg of None \<Rightarrow> 0 | Some b \<Rightarrow> b)"
    "CheckRpcHealthOnStart cfg4 = CheckRpcHealthOnStart cfg" "0 < k \<Longrightarrow> length (netPrivateKeys n) = Suc (nat k)"
    "k = 0 \<Longrightarrow> deref cfg (cfgNetwork cfg) = Ret n0 \<Longrightarrow> netPrivateKeys n = netPrivateKeys n0"
proof -
  obtain n1 where n1: "deref cfg1 (cfgNetwork cfg1) = Ret n1" "DialTimeout n1 \<noteq> None" "known_level (TracingLevel cfg1)"
    "GasPriceEstimationEnabled n1 \<longrightarrow> GasPriceEstimationBlocks n1 \<noteq> 0 \<and> known_priority (GasPriceEstimationTxPriority n1)"
    "EphemeralAddrs cfg1 = EphemeralAddrs cfg" "RootKeyFundsBuffer cfg1 = RootKeyFundsBuffer cfg"
    "CheckRpcHealthOnStart cfg1 = CheckRpcHealthOnStart cfg"
    "\<forall>n0. deref cfg (cfgNetwork cfg) = Ret n0 \<longrightarrow> netPrivateKeys n1 = netPrivateKeys n0"
    by (rule ValidateConfig_frame [OF v])
  let ?c = "setEphemeralAddrs cfg1"
  obtain p where p: "cfgNetwork cfg1 = Some p" "p < length (net_store cfg1)" "n1 = net_store cfg1 ! p" using n1(1) by (rule deref_RetD)
  have d: "deref ?c (cfgNetwork ?c) = Ret n1" using p by simp
  have k: "EphemeralAddrs ?c = Some k" "ephemeral ?c \<longleftrightarrow> k \<noteq> 0" by (simp_all add: setEphemeralAddrs_def k_def n1 Let_def)
  obtain ks where ks: "cfg3 = upd_net p (\<lambda>n. n\<lparr>netPrivateKeys := ks\<rparr>) ?c" "0 < k \<Longrightarrow> length ks = Suc (nat k)" "k = 0 \<Longrightarrow> ks = netPrivateKeys n1"
    by (rule ephemeral_keys_ok [OF e d k]) (simp add: p(1))
  have n3: "n = n1\<lparr>netPrivateKeys := ks\<rparr>" using n p by (simp add: ks upd_net_def deref_def)
  obtain fl where cfg4: "cfg4 = cfg3\<lparr>ContractMapFile := fl\<rparr>"
  proof (cases "cfg4 = cfg3")
    case True
    then show ?thesis using that [of "ContractMapFile cfg3"] by simp
  next
    case False
    then show ?thesis using f that by (auto simp: contract_map_file_def go_bind_Ret_iff split: if_splits)
  qed
  have cfg3: "EphemeralAddrs cfg3 = Some k" "RootKeyFundsBuffer cfg3 = Some (case RootKeyFundsBuffer cfg of None \<Rightarrow> 0 | Some b \<Rightarrow> b)"
    "CheckRpcHealthOnStart cfg3 = CheckRpcHealthOnStart cfg" "known_level (TracingLevel cfg3)" "cfgNetwork cfg3 = Some p"
    using n1 k p by (simp_all add: ks upd_net_def) (simp add: setEphemeralAddrs_def Let_def)
  show "deref cfg4 (cfgNetwork cfg4) = Ret n" using n cfg3(5) by (simp add: cfg4 deref_def)
  show "DialTimeout n \<noteq> None" "known_level (TracingLevel cfg4)"
    "GasPriceEstimationEnabled n \<longrightarrow> GasPriceEstimationBlocks n \<noteq> 0 \<and> known_priority (GasPriceEstimationTxPriority n)"
    "EphemeralAddrs cfg4 = Some k" "RootKeyFundsBuffer cfg4 = Some (case RootKeyFundsBuffer cfg of None \<Rightarrow> 0 | Some b \<Rightarrow> b)"
    "CheckRpcHealthOnStart cfg4 = CheckRpcHealthOnStart cfg"
    using n1 cfg3 by (simp_all add: cfg4 n3)
  show "length (netPrivateKeys n) = Suc (nat k)" if "0 < k" using ks(2) that by (simp add: n3)
  show "netPrivateKeys n = netPrivateKeys n0" if "k = 0" "deref cfg (cfgNetwork cfg) = Ret n0"
    using ks(3) n1(8) that by (simp add: n3)
qed

text \<open>The client \<open>NewClientWithConfig\<close> has assembled before the first request that changes anything.\<close>

definition assembled ::
  "Config \<Rightarrow> address list \<Rightarrow> 'pk list \<Rightarrow> int \<Rightarrow> string \<Rightarrow> ContractStore \<Rightarrow> ContractMap \<Rightarrow> NonceManager \<Rightarrow> 'pk Client" where
  "assembled cfg addrs pkeys cID url cs cm mgr =
     \<lparr>Cfg = cfg, clAddresses = addrs, PrivateKeys = pkeys, ChainID = cID, clURL = url, clErrors = [], clContractStore = Some cs,
      clNonceManager = Some mgr, clTracer = Some (empty_tracer cm), ContractAddressToNameMap = cm, clABIFinder = True, HeaderCache = None\<rparr>"

lemma assembled_simps [simp]:
  "clNonceManager (assembled cf as pks i u cs cm m) = Some m" "HeaderCache (assembled cf as pks i u cs cm m) = None"
  "clAddresses (assembled cf as pks i u cs cm m) = as" "Cfg (assembled cf as pks i u cs cm m) = cf"
  "assembled cf as pks i u cs cm m = (assembled cf as pks i u cs cm m')\<lparr>clNonceManager := Some m''\<rparr> \<longleftrightarrow> m = m''"
  by (auto simp: assembled_def)

lemma assembled_nonces:
  "(assembled cfg addrs pkeys cID url cs cm m)\<lparr>clNonceManager := Some m'\<rparr> = assembled cfg addrs pkeys cID url cs cm m'"
  "clNonceManager (assembled cfg addrs pkeys cID url cs cm m) = Some m" "Cfg (assembled cfg addrs pkeys cID url cs cm m) = cfg"
  "(assembled cfg addrs pkeys cID url cs cm m)\<lparr>Cfg := cfg'\<rparr> = assembled cfg' addrs pkeys cID url cs cm m"
  by (simp_all add: assembled_def)

lemma fund_step_assembled:
  assumes fund: "(if ephemeral (setEphemeralAddrs (Cfg c)) then fund_ephemeral env (c\<lparr>Cfg := setEphemeralAddrs (Cfg c)\<rparr>)
      else Ret ([], Inr (c\<lparr>Cfg := setEphemeralAddrs (Cfg c)\<rparr>))) = Ret (txs, Inr c')"
    and c: "c = assembled cfg addrs pkeys cID url cs cm m" and k: "EphemeralAddrs cfg = Some k"
  obtains m' where "c' = assembled (setEphemeralAddrs cfg) addrs pkeys cID url cs cm m'"
    "if k \<noteq> 0 then fund_ephemeral env (assembled (setEphemeralAddrs cfg) addrs pkeys cID url cs cm m) =
        Ret (txs, Inr (assembled (setEphemeralAddrs cfg) addrs pkeys cID url cs cm m')) else txs = []"
proof -
  have eph: "ephemeral (setEphemeralAddrs cfg) \<longleftrightarrow> k \<noteq> 0" by (simp add: setEphemeralAddrs_def k Let_def)
  show ?thesis
  proof (cases "k = 0")
    case True
    then show ?thesis using that [of m] fund eph by (auto simp: c assembled_nonces)
  next
    case False
    then have fe: "fund_ephemeral env (assembled (setEphemeralAddrs cfg) addrs pkeys cID url cs cm m) = Ret (txs, Inr c')"
      using fund eph by (simp add: c assembled_nonces)
    obtain m' where "c' = assembled (setEphemeralAddrs cfg) addrs pkeys cID url cs cm m'"
      using fund_ephemeral_frame [OF fe] by (auto simp: assembled_nonces)
    then show ?thesis using that fe False by simp
  qed
qed

text \<open>The last steps of \<open>NewClientRaw\<close>: the tracer is there, the header cache and the strategy of the gas bumps are set.\<close>

lemma last_steps_assembled:
  assumes tracer: "ensure_tracer env c5 = Ret (Inr c6)" and est: "init_estimations env c6 = Ret c7" and strat: "set_strategy c7 = Ret c"
    and c5: "c5 = assembled cfg addrs pkeys cID url cs cm m" and net: "deref cfg (cfgNetwork cfg) = Ret n"
  obtains cfgF hc nF where "c = (assembled cfgF addrs pkeys cID url cs cm m)\<lparr>HeaderCache := hc\<rparr>" "client_net c = Ret nF" "degraded n nF"
    "TracingLevel cfgF = TracingLevel cfg" "GasPriceEstimationEnabled nF \<longrightarrow> hc \<noteq> None"
    "\<forall>g. GasBump cfgF = Some g \<longrightarrow> (\<exists>fn. StrategyFn g = Some fn)" "RootKeyFundsBuffer cfgF = RootKeyFundsBuffer cfg"
    "EphemeralAddrs cfgF = EphemeralAddrs cfg" "cfgNetwork cfgF = cfgNetwork cfg" "CheckRpcHealthOnStart cfgF = CheckRpcHealthOnStart cfg"
proof -
  have c6: "c6 = c5" using tracer by (simp add: ensure_tracer_def c5 assembled_def)
  have net6: "client_net c6 = Ret n" using net by (simp add: c6 c5 client_net_def assembled_nonces)
  obtain n7 cfg7 hc where e7: "c7 = c6\<lparr>Cfg := cfg7, HeaderCache := hc\<rparr>" "client_net c7 = Ret n7" "degraded n n7"
    "cfgNetwork cfg7 = cfgNetwork (Cfg c6)" "TracingLevel cfg7 = TracingLevel (Cfg c6)"
    "GasBump cfg7 = GasBump (Cfg c6)" "GasPriceEstimationEnabled n7 \<longrightarrow> hc \<noteq> None"
    "RootKeyFundsBuffer cfg7 = RootKeyFundsBuffer (Cfg c6)" "EphemeralAddrs cfg7 = EphemeralAddrs (Cfg c6)"
    "CheckRpcHealthOnStart cfg7 = CheckRpcHealthOnStart (Cfg c6)"
    by (rule init_estimations_frame [OF est net6])
  define cfgF where "cfgF = default_strategy cfg7 (GasPriceEstimationTxPriority n7)"
  have c: "c = (assembled cfgF addrs pkeys cID url cs cm m)\<lparr>HeaderCache := hc\<rparr>"
    using strat e7(1,2) by (simp add: set_strategy_def cfgF_def c6 c5 assembled_def)
  have "client_net c = client_net c7"
    by (simp add: client_net_def c e7(1) cfgF_def assembled_def default_strategy_set deref_def cong: option.case_cong)
  with e7(2) have "client_net c = Ret n7" by simp
  then show ?thesis
    using default_strategy_set(7) e7
    by (intro that [OF c]) (auto simp: cfgF_def default_strategy_set c6 c5 assembled_nonces)
qed

lemma NewClientWithConfig_run:
  assumes run: "NewClientWithConfig env cfg = Ret (txs, Inr c)"
  defines "k \<equiv> case EphemeralAddrs cfg of None \<Rightarrow> 0 | Some x \<Rightarrow> x"
  obtains cfg5 addrs pkeys cID url cs cm m2 m3 m5 t1 t2 n cfgF hc nF where
    "deref cfg5 (cfgNetwork cfg5) = Ret n" "URLs n \<noteq> []" "url = hd (URLs n)" "DialTimeout n \<noteq> None" "netChainID n = Itoa cID"
    "GasPriceEstimationEnabled n \<longrightarrow> GasPriceEstimationBlocks n \<noteq> 0 \<and> known_priority (GasPriceEstimationTxPriority n)"
    "EphemeralAddrs cfg5 = Some k" "RootKeyFundsBuffer cfg5 = Some (case RootKeyFundsBuffer cfg of None \<Rightarrow> 0 | Some b \<Rightarrow> b)"
    "CheckRpcHealthOnStart cfg5 = CheckRpcHealthOnStart cfg"
    "length addrs = length pkeys" "length addrs = length (netPrivateKeys n)" "0 < k \<Longrightarrow> length addrs = Suc (nat k)"
    "sync_nonces env (assembled cfg5 addrs pkeys cID url cs cm (NewNonceManager addrs)) = Ret (Inr (assembled cfg5 addrs pkeys cID url cs cm m2))"
    "health_check env (assembled cfg5 addrs pkeys cID url cs cm m2) = Ret (t1, Inr (assembled cfg5 addrs pkeys cID url cs cm m3))"
    "if k \<noteq> 0 then fund_ephemeral env (assembled (setEphemeralAddrs cfg5) addrs pkeys cID url cs cm m3) =
        Ret (t2, Inr (assembled (setEphemeralAddrs cfg5) addrs pkeys cID url cs cm m5)) else t2 = []"
    "txs = t1 @ t2" "c = (assembled cfgF addrs pkeys cID url cs cm m5)\<lparr>HeaderCache := hc\<rparr>"
    "client_net c = Ret nF" "degraded n nF" "known_level (TracingLevel cfgF)" "GasPriceEstimationEnabled nF \<longrightarrow> hc \<noteq> None"
    "\<And>g. GasBump cfgF = Some g \<Longrightarrow> \<exists>fn. StrategyFn g = Some fn"
    "ParseKeys (seHexToECDSA env) (sePubkeyToAddress env) (netPrivateKeys n) = Inr (addrs, pkeys)"
    "\<And>n0. k = 0 \<Longrightarrow> deref cfg (cfgNetwork cfg) = Ret n0 \<Longrightarrow> netPrivateKeys n = netPrivateKeys n0"
    "RootKeyFundsBuffer cfgF = RootKeyFundsBuffer cfg5" "EphemeralAddrs cfgF = EphemeralAddrs cfg5" "cfgNetwork cfgF \<noteq> None"
    "CheckRpcHealthOnStart cfgF = CheckRpcHealthOnStart cfg5"
proof -
  obtain cfg1 cs cfg3 n3 addrs pkeys cfg4 cm tr where v: "ValidateConfig cfg = Ret (cfg1, None)"
    and e: "ephemeral_keys env (setEphemeralAddrs cfg1) = Ret (Inr cfg3)" and n3: "deref cfg3 (cfgNetwork cfg3) = Ret n3"
    and keys: "ParseKeys (seHexToECDSA env) (sePubkeyToAddress env) (netPrivateKeys n3) = Inr (addrs, pkeys)"
    and f: "contract_map_file env cfg3 = Ret cfg4" and tr: "first_tracer env cfg4 cm = Ret (Inr tr)"
    and raw: "NewClientRaw env cfg4 addrs pkeys
       [OptContractStore cs, OptNonceManager (NewNonceManager addrs), OptTracer tr, OptContractMap cm, OptABIFinder] = Ret (txs, Inr c)"
    by (rule NewClientWithConfig_steps [OF run])
  note conf = configured [OF v e f n3, folded k_def]
  have tr': "tr = empty_tracer cm"
    using tr by (auto simp: first_tracer_def NewTracer_def go_bind_Ret_iff wrap_err_Inr case_option_eq split: if_splits)
  obtain cfg5 cID url c1 c2 c3 c5 c6 c7 t1 t2 where conn: "connect env cfg4 = Ret (Inr (cfg5, cID, url))"
    and map_step: "with_contract_map env (fold apply_option
       [OptContractStore cs, OptNonceManager (NewNonceManager addrs), OptTracer tr, OptContractMap cm, OptABIFinder]
       (False, raw_client cfg5 addrs pkeys cID url)) = Ret (Inr c1)"
    and sync: "sync_nonces env c1 = Ret (Inr c2)" and health: "health_check env c2 = Ret (t1, Inr c3)"
    and fund: "(if ephemeral (setEphemeralAddrs (Cfg c3)) then fund_ephemeral env (c3\<lparr>Cfg := setEphemeralAddrs (Cfg c3)\<rparr>)
      else Ret ([], Inr (c3\<lparr>Cfg := setEphemeralAddrs (Cfg c3)\<rparr>))) = Ret (t2, Inr c5)"
    and tracer: "ensure_tracer env c5 = Ret (Inr c6)" and est: "init_estimations env c6 = Ret c7" and strat: "set_strategy c7 = Ret c"
    and txs: "txs = t1 @ t2"
    by (rule NewClientRaw_steps [OF raw])
  obtain p n where p: "cfgNetwork cfg4 = Some p" "deref cfg4 (Some p) = Ret n" "URLs n \<noteq> []" "DialTimeout n \<noteq> None" "url = hd (URLs n)"
    and cfg5: "cfg5 = upd_net p (\<lambda>n. n\<lparr>netChainID := Itoa cID\<rparr>) cfg4"
    by (rule connect_ok [OF conn])
  have n: "n = n3" using conf(1) p by simp
  define n5 where "n5 = n3\<lparr>netChainID := Itoa cID\<rparr>"
  have d5: "deref cfg5 (cfgNetwork cfg5) = Ret n5" using deref_upd_net [OF p(2)] p(1) by (simp add: cfg5 n n5_def)
  let ?as = "\<lambda>cfg. assembled cfg addrs pkeys cID url cs cm"
  have c1: "c1 = ?as cfg5 (NewNonceManager addrs)"
    using map_step by (simp add: with_contract_map_def raw_client_def assembled_def tr' WithContractStore_def WithNonceManager_def
        WithTracer_def WithContractMap_def WithABIFinder_def)
  obtain m2 where c2: "c2 = ?as cfg5 m2" using sync_nonces_frame [OF sync] by (auto simp: c1 assembled_nonces)
  obtain m3 where c3: "c3 = ?as cfg5 m3" using health_check_frame [OF health] by (auto simp: c2 assembled_nonces)
  have k5: "EphemeralAddrs cfg5 = Some k" and cfg5': "RootKeyFundsBuffer cfg5 = RootKeyFundsBuffer cfg4"
    "CheckRpcHealthOnStart cfg5 = CheckRpcHealthOnStart cfg4" "TracingLevel cfg5 = TracingLevel cfg4"
    using conf(5) by (simp_all add: cfg5 upd_net_def)
  obtain m5 where c5: "c5 = ?as (setEphemeralAddrs cfg5) m5"
    and fund': "if k \<noteq> 0 then fund_ephemeral env (?as (setEphemeralAddrs cfg5) m3) = Ret (t2, Inr (?as (setEphemeralAddrs cfg5) m5)) else t2 = []"
    by (rule fund_step_assembled [OF fund c3 k5])
  have same: "deref (setEphemeralAddrs cfg5) (cfgNetwork (setEphemeralAddrs cfg5)) = Ret n5" using d5 by (auto elim!: deref_RetD)
  obtain cfgF hc nF where c: "c = (?as cfgF m5)\<lparr>HeaderCache := hc\<rparr>" and nF: "client_net c = Ret nF" "degraded n5 nF"
    and lvl: "TracingLevel cfgF = TracingLevel (setEphemeralAddrs cfg5)" and cache: "GasPriceEstimationEnabled nF \<longrightarrow> hc \<noteq> None"
    and gb: "\<forall>g. GasBump cfgF = Some g \<longrightarrow> (\<exists>fn. StrategyFn g = Some fn)"
    and cfgF: "RootKeyFundsBuffer cfgF = RootKeyFundsBuffer (setEphemeralAddrs cfg5)" "EphemeralAddrs cfgF = EphemeralAddrs (setEphemeralAddrs cfg5)"
      "cfgNetwork cfgF = cfgNetwork (setEphemeralAddrs cfg5)" "CheckRpcHealthOnStart cfgF = CheckRpcHealthOnStart (setEphemeralAddrs cfg5)"
    by (rule last_steps_assembled [OF tracer est strat c5 same])
  have lvl': "known_level (TracingLevel cfgF)" using conf(3) cfg5'(3) lvl by simp
  note len = ParseKeys_length [OF keys]
  show ?thesis
  proof (rule that [OF d5 _ _ _ _ _ k5 _ _ _ _ _ sync [unfolded c1 c2] health [unfolded c2 c3] fund' txs c nF lvl' cache gb [rule_format]])
    show "URLs n5 \<noteq> []" "url = hd (URLs n5)" "DialTimeout n5 \<noteq> None" "netChainID n5 = Itoa cID"
      "GasPriceEstimationEnabled n5 \<longrightarrow> GasPriceEstimationBlocks n5 \<noteq> 0 \<and> known_priority (GasPriceEstimationTxPriority n5)"
      using p conf(4) by (simp_all add: n5_def n)
    show "RootKeyFundsBuffer cfg5 = Some (case RootKeyFundsBuffer cfg of None \<Rightarrow> 0 | Some b \<Rightarrow> b)"
      "CheckRpcHealthOnStart cfg5 = CheckRpcHealthOnStart cfg"
      using conf(6,7) cfg5' by simp_all
    show "length addrs = length pkeys" "length addrs = length (netPrivateKeys n5)" using len by (simp_all add: n5_def)
    show "0 < k \<Longrightarrow> length addrs = Suc (nat k)" using conf(8) len by simp
    show "ParseKeys (seHexToECDSA env) (sePubkeyToAddress env) (netPrivateKeys n5) = Inr (addrs, pkeys)"
      "\<And>n0. k = 0 \<Longrightarrow> deref cfg (cfgNetwork cfg) = Ret n0 \<Longrightarrow> netPrivateKeys n5 = netPrivateKeys n0"
      using keys conf(9) by (simp_all add: n5_def)
    show "RootKeyFundsBuffer cfgF = RootKeyFundsBuffer cfg5" "EphemeralAddrs cfgF = EphemeralAddrs cfg5"
      "CheckRpcHealthOnStart cfgF = CheckRpcHealthOnStart cfg5" "cfgNetwork cfgF \<noteq> None"
      using cfgF k5 conf(6) cfg5' p(1) by (simp_all add: setEphemeralAddrs_def cfg5 upd_net_def Let_def)
  qed
qed

text \<open>
  C11. A client that \<open>NewClientWithConfig\<close> returns has everything its operations use: one address per private key, no recorded
  error, a contract store, an ABI finder, a nonce manager and a tracer that shares the client's contract map, a known tracing
  level, a header cache whenever gas estimation is on (with a known priority), a bumping strategy whenever gas bumping is
  configured, and the URL and chain ID of the network it is connected to.
\<close>

theorem NewClientWithConfig_ready:
  assumes "NewClientWithConfig env cfg = Ret (txs, Inr c)"
  shows "\<exists>n. client_net c = Ret n \<and> URLs n \<noteq> [] \<and> clURL c = hd (URLs n) \<and> DialTimeout n \<noteq> None \<and> netChainID n = Itoa (ChainID c) \<and>
    length (clAddresses c) = length (PrivateKeys c) \<and> clErrors c = [] \<and> clContractStore c \<noteq> None \<and> clABIFinder c \<and>
    clNonceManager c \<noteq> None \<and> (\<exists>t. clTracer c = Some t \<and> trMap t = ContractAddressToNameMap c) \<and>
    known_level (TracingLevel (Cfg c)) \<and>
    (GasPriceEstimationEnabled n \<longrightarrow> HeaderCache c \<noteq> None \<and> known_priority (GasPriceEstimationTxPriority n)) \<and>
    (\<forall>g. GasBump (Cfg c) = Some g \<longrightarrow> (\<exists>fn. StrategyFn g = Some fn))"
proof (rule NewClientWithConfig_run [OF assms], goal_cases)
  case (1 cfg5 addrs pkeys cID url cs cm m2 m3 m5 t1 t2 n cfgF hc nF)
  note d = degraded_frame [OF 1(19)]
  from 1(18) show ?case
    unfolding 1(17) using 1(2-6,10,20-22) d by (intro exI [of _ nF]) (simp add: assembled_def empty_tracer_def)
qed

subsection \<open>The transactions of the start-up\<close>

text \<open>The goroutines run in some order, each once.\<close>

definition fair_schedules :: "'pk start_env \<Rightarrow> bool" where
  "fair_schedules env \<longleftrightarrow> (\<forall>n. mset (seTakes env n) = mset [0..<n] \<and> mset (seEnds env n) = mset [0..<n])"

lemma fund_loop_errs:
  "fund_loop env addrs val p is c = Ret (c', txs, errs) \<Longrightarrow> fst ` set errs \<subseteq> set is"
  unfolding fund_loop_def by (rule run_group_errs)

lemma fund_loop_sent:
  assumes "fund_loop env addrs val p is c = Ret (c', txs, [])" and "clNonceManager c = Some mgr"
    and "\<And>i. signs_transfer (seTransfer env i)" and "0 \<le> nonce_of mgr (hd (clAddresses c))"
    and "nonce_of mgr (hd (clAddresses c)) + int (length is) < 2 ^ 63"
  shows "map txNonce txs = map (\<lambda>j. nonce_of mgr (hd (clAddresses c)) + int j) [0..<length is] \<and>
    map txTo txs = map (\<lambda>i. Some (HexToAddress (seTransfer env (Suc i)) (seAddrHex env (addrs ! i)))) is \<and>
    (\<forall>tx \<in> set txs. txValue tx = val \<and> txGasPrice tx = p)"
proof -
  note group = assms(1) [unfolded fund_loop_def]
  show ?thesis by (intro conjI [OF root_group_nonces [OF group assms(2-5)] root_group_targets [OF group assms(2,3)]])
qed

lemma health_check_sent:
  assumes run: "health_check env c = Ret (txs, Inr c')" and mgr: "clNonceManager c = Some mgr" and cache: "HeaderCache c = None"
    and n: "client_net c = Ret n" and sig: "signs_transfer (seTransfer env 0)"
    and nonce: "0 \<le> nonce_of mgr (hd (clAddresses c))" "nonce_of mgr (hd (clAddresses c)) + 1 < 2 ^ 63"
  shows "length txs = (if CheckRpcHealthOnStart (Cfg c) then 1 else 0) \<and>
    (\<forall>tx \<in> set txs. txNonce tx = nonce_of mgr (hd (clAddresses c)) \<and> txValue tx = 10000 \<and> txGasPrice tx = netGasPrice n \<and>
       txTo tx = Some (HexToAddress (seTransfer env 0) (seAddrHex env (hd (clAddresses c))))) \<and>
    (\<exists>mgr'. c' = c\<lparr>clNonceManager := Some mgr'\<rparr> \<and>
       nonce_of mgr' (hd (clAddresses c)) = nonce_of mgr (hd (clAddresses c)) + int (length txs))"
proof (cases "CheckRpcHealthOnStart (Cfg c)")
  case False
  then have "c' = c" "txs = []" using run by (simp_all add: health_check_def)
  then show ?thesis using mgr False by (intro conjI exI [of _ mgr]) simp_all
next
  case True
  let ?a = "hd (clAddresses c)"
  obtain c1 p a sent where p: "startup_gas_price env 0 c = Ret (c1, p)" and a: "go_index (clAddresses c) 0 = Ret a"
    and t1: "transfer_from_key (seTransfer env 0) c1 0 (seAddrHex env a) 10000 p = Ret (c', sent, None)" and txs: "txs = sent_list sent"
    using run True mgr n by (auto simp: health_check_def checkRPCHealth_def go_bind_Ret_iff case_option_eq split: if_splits)
  have a': "a = ?a" using a by (auto simp: go_index_def hd_conv_nth split: if_splits)
  have p': "p = netGasPrice n" and t: "transfer_from_key (seTransfer env 0) c 0 (seAddrHex env a) 10000 p = Ret (c', sent, None)"
    using standard_price_uncached [OF p [unfolded startup_gas_price_def] cache] n t1 by simp_all
  have lt: "nonce_of mgr ?a < 2 ^ 63" using nonce(2) by simp
  obtain tx where tx: "sent = Some tx" "c' = c\<lparr>clNonceManager := Some (fst (NextNonce mgr ?a))\<rparr>" "txNonce tx = nonce_of mgr ?a"
    "txTo tx = Some (HexToAddress (seTransfer env 0) (seAddrHex env a))" "txValue tx = 10000" "txGasPrice tx = p"
    by (rule transfer_from_key_sent [OF t mgr sig nonce(1) lt])
  have "nonce_of (fst (NextNonce mgr ?a)) ?a = nonce_of mgr ?a + 1" using nonce by (simp add: nonce_of_NextNonce int64_id)
  then show ?thesis
    using tx True a' p' by (intro conjI exI [of _ "fst (NextNonce mgr ?a)"]) (simp_all add: txs sent_list_def)
qed

lemma CalculateSubKeyFunding_net:
  "TransferGasFee n = TransferGasFee n' \<Longrightarrow>
   CalculateSubKeyFunding b na h e n addrs k p buf = CalculateSubKeyFunding b na h e n' addrs k p buf"
  by (simp add: CalculateSubKeyFunding_def cong: sum.case_cong prod.case_cong if_cong)

lemma fund_ephemeral_sent:
  assumes run: "fund_ephemeral env c = Ret (txs, Inr c')" and mgr: "clNonceManager c = Some mgr" and cache: "HeaderCache c = None"
    and n: "client_net c = Ret n" and sig: "\<And>i. signs_transfer (seTransfer env i)" and fair: "fair_schedules env"
    and hex: "\<And>i a. HexToAddress (seTransfer env i) (seAddrHex env a) = a"
    and nonce: "0 \<le> nonce_of mgr (hd (clAddresses c))" "nonce_of mgr (hd (clAddresses c)) + int (length (clAddresses c)) < 2 ^ 63"
  shows "\<exists>k buffer bd. EphemeralAddrs (Cfg c) = Some k \<and> RootKeyFundsBuffer (Cfg c) = Some buffer \<and>
    CalculateSubKeyFunding (seBalanceAt env) (seNewAddress env) (seHexToAddress env) (seEstimateGas env) n (clAddresses c) k
      (int64 (netGasPrice n)) buffer = Ret (Inr bd) \<and>
    map txNonce txs = map (\<lambda>j. nonce_of mgr (hd (clAddresses c)) + int j) [0..<length (clAddresses c) - 1] \<and>
    mset (map txTo txs) = mset (map Some (tl (clAddresses c))) \<and>
    (\<forall>tx \<in> set txs. txValue tx = AddrFunding bd \<and> txGasPrice tx = netGasPrice n)"
proof (rule fund_ephemeral_steps [OF run cache], goal_cases)
  case (1 p n' k buffer bd errs)
  let ?rest = "tl (clAddresses c)" and ?m = "length (clAddresses c) - 1"
  have n': "n' = n" using 1(2) n by simp
  have p: "p = netGasPrice n" using 1(1) n' by simp
  have takes: "mset (seTakes env ?m) = mset [0..<?m]" and ends: "mset (seEnds env ?m) = mset [0..<?m]"
    using fair by (simp_all add: fair_schedules_def)
  have "set (seTakes env ?m) = set (seEnds env ?m)" using takes ends by (metis mset_eq_setD)
  then have "errs = []" using first_failure_None [OF 1(8)] fund_loop_errs [OF 1(7)] by simp
  with 1(7) have loop: "fund_loop env ?rest (AddrFunding bd) p (seTakes env ?m) c = Ret (c', txs, [])" by simp
  have len: "length (seTakes env ?m) = ?m" using takes by (metis length_upt minus_nat.diff_0 size_mset)
  have bound: "nonce_of mgr (hd (clAddresses c)) + int (length (seTakes env ?m)) < 2 ^ 63" using nonce(2) len by simp
  note sent = fund_loop_sent [OF loop mgr sig nonce(1) bound]
  have "mset (map txTo txs) = image_mset (\<lambda>i. Some (?rest ! i)) (mset (seTakes env ?m))"
    using sent hex by (metis (no_types, lifting) map_eq_conv mset_map)
  also have "\<dots> = mset (map (\<lambda>i. Some (?rest ! i)) [0..<?m])" by (simp only: takes mset_map)
  also have "map (\<lambda>i. Some (?rest ! i)) [0..<?m] = map Some ?rest" by (rule nth_equalityI) simp_all
  finally have "mset (map txTo txs) = mset (map Some ?rest)" .
  with sent 1(3,4,5) len show ?case by (intro exI [of _ k] exI [of _ buffer] exI [of _ bd]) (simp add: p n')
qed

lemma consecutive_nonces:
  assumes "length first \<le> 1" "\<forall>tx \<in> set first. txNonce tx = nonce"
    and rest: "map txNonce rest = map (\<lambda>j. nonce + int (length first) + int j) [0..<n]"
  shows "map txNonce (first @ rest) = map (\<lambda>j. nonce + int j) [0..<length (first @ rest)]"
proof -
  have n: "length rest = n" using rest by (metis length_map length_upt minus_nat.diff_0)
  show ?thesis
  proof (cases first)
    case Nil
    then show ?thesis using rest n by simp
  next
    case (Cons tx xs)
    then have "xs = []" "txNonce tx = nonce" using assms by auto
    then show ?thesis using rest n Cons by (simp add: upt_conv_Cons map_Suc_upt [symmetric] add.assoc del: upt_Suc)
  qed
qed

text \<open>
  C1. When \<open>NewClientWithConfig\<close> succeeds with \<open>k > 0\<close> ephemeral addresses configured, it has sent at most one health check,
  10000 wei from the root key to itself, and then exactly one transfer to each of the \<open>k\<close> new addresses, in whatever order the
  goroutines ran. The nonces are consecutive from the root key's nonce on the chain. Every transfer carries the share that
  \<open>CalculateSubKeyFunding\<close> computed, and all shares, the computed fees and the root key's buffer are covered by the root balance.
  The gas price is always the configured one, although the code asks the node for a suggestion: the header cache that the
  suggestion needs is created later.
\<close>

theorem ephemeral_keys_funded:
  assumes run: "NewClientWithConfig env cfg = Ret (txs, Inr c)" and k: "EphemeralAddrs cfg = Some k" "0 < k"
    and fair: "fair_schedules env" and sig: "\<And>i. signs_transfer (seTransfer env i)"
    and hex: "\<And>i a. HexToAddress (seTransfer env i) (seAddrHex env a) = a"
    and chain: "\<And>a m. seNonceAt env a = Inr m \<Longrightarrow> 0 \<le> m \<and> m + k + 2 < 2 ^ 63"
  shows "\<exists>n root others health funding bd nonce. client_net c = Ret n \<and> clAddresses c = root # others \<and> length others = nat k \<and>
    txs = health @ funding \<and> length health = (if CheckRpcHealthOnStart cfg then 1 else 0) \<and>
    (\<forall>tx \<in> set health. txTo tx = Some root \<and> txValue tx = 10000) \<and>
    mset (map txTo funding) = mset (map Some others) \<and> (\<forall>tx \<in> set funding. txValue tx = AddrFunding bd) \<and>
    seBalanceAt env root = Inr (RootBalance bd) \<and>
    CalculateSubKeyFunding (seBalanceAt env) (seNewAddress env) (seHexToAddress env) (seEstimateGas env) n (root # others) k
      (int64 (netGasPrice n)) (case RootKeyFundsBuffer cfg of None \<Rightarrow> 0 | Some b \<Rightarrow> b) = Ret (Inr bd) \<and>
    k * AddrFunding bd + TotalFee bd + (case RootKeyFundsBuffer cfg of None \<Rightarrow> 0 | Some b \<Rightarrow> b) * 10 ^ 18 \<le> RootBalance bd \<and>
    seNonceAt env root = Inr nonce \<and> map txNonce txs = map (\<lambda>j. nonce + int j) [0..<length txs] \<and>
    (\<forall>tx \<in> set txs. txGasPrice tx = netGasPrice n)"
proof (rule NewClientWithConfig_run [OF run], goal_cases)
  case (1 cfg5 addrs pkeys cID url cs cm m2 m3 m5 t1 t2 n cfgF hc nF)
  let ?b = "case RootKeyFundsBuffer cfg of None \<Rightarrow> 0 | Some b \<Rightarrow> b"
  have len: "length addrs = Suc (nat k)" using 1(12) k by simp
  then obtain root others where addrs: "addrs = root # others" "length others = nat k" by (cases addrs) auto
  have "netPrivateKeys n \<noteq> []" using 1(11) len by auto
  then have "UpdateNonces (seNonceAt env) (NewNonceManager addrs) = Ret (m2, None)"
    using 1(13) 1(1) by (auto simp: sync_nonces_def assembled_def client_net_def go_bind_Ret_iff case_option_eq)
  then obtain nonce where nonce: "seNonceAt env root = Inr nonce" "nonce_of m2 root = int64 nonce"
    using UpdateNonces_tracks [of "seNonceAt env" addrs m2 root] addrs by auto
  have m2: "nonce_of m2 root = nonce" "0 \<le> nonce" "nonce + k + 2 < 2 ^ 63" using nonce chain [OF nonce(1)] k(2) by (auto simp: int64_id)
  let ?as = "\<lambda>cfg. assembled cfg addrs pkeys cID url cs cm"
  have net: "client_net (?as cfg5 m) = Ret n" for m using 1(1) by (simp add: client_net_def assembled_def)
  obtain p where "cfgNetwork cfg5 = Some p" "p < length (net_store cfg5)" "n = net_store cfg5 ! p" using 1(1) by (rule deref_RetD)
  then have net': "client_net (?as (setEphemeralAddrs cfg5) m) = Ret n" for m by (simp add: client_net_def assembled_def)
  have h: "length t1 = (if CheckRpcHealthOnStart cfg then 1 else 0) \<and>
      (\<forall>tx \<in> set t1. txNonce tx = nonce \<and> txValue tx = 10000 \<and> txGasPrice tx = netGasPrice n \<and> txTo tx = Some root) \<and>
      nonce_of m3 root = nonce + int (length t1)"
    using health_check_sent [OF 1(14) assembled_simps(1,2) net sig] m2 k(2) 1(9) hex by (simp add: addrs)
  have fund: "fund_ephemeral env (?as (setEphemeralAddrs cfg5) m3) = Ret (t2, Inr (?as (setEphemeralAddrs cfg5) m5))"
    using 1(15) k by simp
  have kb: "EphemeralAddrs (setEphemeralAddrs cfg5) = Some k" "RootKeyFundsBuffer (setEphemeralAddrs cfg5) = Some ?b"
    using 1(7,8) k(1) by (simp_all add: setEphemeralAddrs_def)
  have "length t1 \<le> 1" using h by simp
  then obtain bd where bd: "CalculateSubKeyFunding (seBalanceAt env) (seNewAddress env) (seHexToAddress env) (seEstimateGas env) n addrs k
      (int64 (netGasPrice n)) ?b = Ret (Inr bd)"
    and f: "map txNonce t2 = map (\<lambda>j. nonce_of m3 root + int j) [0..<nat k]" "mset (map txTo t2) = mset (map Some others)"
    "\<forall>tx \<in> set t2. txValue tx = AddrFunding bd \<and> txGasPrice tx = netGasPrice n"
    using fund_ephemeral_sent [OF fund assembled_simps(1,2) net' sig fair hex] m2 h k(2) kb by (auto simp: addrs)
  have cover: "seBalanceAt env root = Inr (RootBalance bd) \<and> k * AddrFunding bd + TotalFee bd + ?b * 10 ^ 18 \<le> RootBalance bd"
    using funding_covered [OF bd k(2)] addrs by simp
  have nonces: "map txNonce txs = map (\<lambda>j. nonce + int j) [0..<length txs]"
    unfolding 1(16) using h f(1) by (intro consecutive_nonces [of t1 nonce t2 "nat k"]) auto
  note d = degraded_frame [OF 1(19)]
  have bdF: "CalculateSubKeyFunding (seBalanceAt env) (seNewAddress env) (seHexToAddress env) (seEstimateGas env) nF (root # others) k
      (int64 (netGasPrice nF)) ?b = Ret (Inr bd)"
    using bd d(4) CalculateSubKeyFunding_net [OF d(5)] by (simp add: addrs)
  have "clAddresses c = root # others" by (simp add: 1(17) assembled_def addrs)
  moreover have "\<forall>tx \<in> set txs. txGasPrice tx = netGasPrice nF" using h f(3) d(4) by (auto simp: 1(16))
  ultimately show ?case
    using 1(16,18) addrs(2) h f cover bdF nonce(1) nonces
    by (intro exI [of _ nF] exI [of _ root] exI [of _ others] exI [of _ t1] exI [of _ t2] exI [of _ bd] exI [of _ nonce]) simp
qed

text \<open>Without ephemeral keys a start-up sends its health check at most, and uses the keys of the configuration.\<close>

lemma health_check_count:
  "health_check env c = Ret (txs, r) \<Longrightarrow> length txs \<le> (if CheckRpcHealthOnStart (Cfg c) then 1 else 0)"
  by (auto simp: health_check_def checkRPCHealth_def go_bind_Ret_iff sent_list_def split: if_splits option.splits)

lemma no_ephemeral_transfers:
  assumes run: "NewClientWithConfig env cfg = Ret (txs, Inr c)" and k: "EphemeralAddrs cfg = Some 0"
  shows "length txs \<le> (if CheckRpcHealthOnStart cfg then 1 else 0)"
proof (rule NewClientWithConfig_run [OF run], goal_cases)
  case (1 cfg5 addrs pkeys cID url cs cm m2 m3 m5 t1 t2 n cfgF hc nF)
  have "length t1 \<le> (if CheckRpcHealthOnStart cfg then 1 else 0)" using health_check_count [OF 1(14)] 1(9) by simp
  moreover have "t2 = []" using 1(15) k by simp
  ultimately show ?case using 1(16) by simp
qed

lemma configured_keys:
  assumes run: "NewClientWithConfig env cfg = Ret (txs, Inr c)" and k: "EphemeralAddrs cfg = Some 0" and n: "deref cfg (cfgNetwork cfg) = Ret n0"
  obtains n where "client_net c = Ret n" "netPrivateKeys n = netPrivateKeys n0" "EphemeralAddrs (Cfg c) = Some 0" "clNonceManager c \<noteq> None"
    "ParseKeys (seHexToECDSA env) (sePubkeyToAddress env) (netPrivateKeys n0) = Inr (clAddresses c, PrivateKeys c)"
    "RootKeyFundsBuffer (Cfg c) = Some (case RootKeyFundsBuffer cfg of None \<Rightarrow> 0 | Some b \<Rightarrow> b)"
    "CheckRpcHealthOnStart (Cfg c) = CheckRpcHealthOnStart cfg"
proof (rule NewClientWithConfig_run [OF run], goal_cases)
  case (1 cfg5 addrs pkeys cID url cs cm m2 m3 m5 t1 t2 n cfgF hc nF)
  have keys: "netPrivateKeys n = netPrivateKeys n0" using 1(25) k n by simp
  moreover have "netPrivateKeys nF = netPrivateKeys n"
    by (rule degraded_frame(8) [OF 1(20)])
  ultimately show ?case using that [of nF] 1 k by (simp add: assembled_def)
qed

text \<open>A start-up with two ephemeral keys and a health check, on a node that accepts everything and whose goroutines run backwards.\<close>

definition ex_signed_transfer :: "nat \<Rightarrow> int \<Rightarrow> TxData \<Rightarrow> Transaction res" where
  "ex_signed_transfer pk chainID raw =
     (case raw of LegacyTx d (Some p) \<Rightarrow> Inr (ex_tx\<lparr>txNonce := dNonce d, txTo := dTo d, txValue := dValue d, txGas := dGas d, txGasPrice := p\<rparr>)
      | _ \<Rightarrow> Inl ErrNotFound)"

definition ex_addr_hex :: "address \<Rightarrow> string" where "ex_addr_hex a = hex_EncodeToString a"

definition ex_hex_addr :: "string \<Rightarrow> address" where
  "ex_hex_addr s = (case hex_DecodeString s of Inl err \<Rightarrow> [] | Inr bs \<Rightarrow> bs)"

definition ex_start_transfer :: "(nat, Receipt) transfer_env" where
  "ex_start_transfer = \<lparr>NetworkID = Inr 1337, HexToAddress = ex_hex_addr, EstimateGas = (\<lambda>f t v. Inr 21000),
     SignTransfer = ex_signed_transfer, SendTransfer = (\<lambda>tx. None), Polls = (\<lambda>tx. [Inr ex_receipt]), CtxErr = ErrDeadlineExceeded\<rparr>"

definition ex_start_node :: fee_node where
  "ex_start_node = \<lparr>BlockNumber = Inl ErrNotFound, FeeHistoryOf = (\<lambda>a b c. Inl ErrNotFound), SuggestGasPrice = Inl ErrNotFound,
     SuggestGasTipCap = Inl ErrNotFound, HeaderByNum = (\<lambda>n. Inl ErrNotFound), Schedule = []\<rparr>"

definition ex_start_fees :: fee_env where
  "ex_start_fees = \<lparr>feLog10 = (\<lambda>x. x), feStats = \<lparr>stats_Max = (\<lambda>l. Inl ErrNotFound), stats_Percentile = (\<lambda>l p. Inl ErrNotFound)\<rparr>,
     feNode = ex_start_node, feHist = ex_start_node, feLegacyNode = ex_start_node\<rparr>"

definition ex_start_env :: "nat start_env" where
  "ex_start_env = \<lparr>seDial = (\<lambda>u. None), seChainID = Inr 1337, seOpenFile = (\<lambda>f. Inl ErrNotFound), seContractsToml = (\<lambda>s. Inr []),
     seAddrHex = ex_addr_hex, seReadDir = (\<lambda>d. Inr []), seOpenIn = (\<lambda>d f. Inl ErrNotFound), seAbiJSON = (\<lambda>s. Inl ErrNotFound),
     seFromHex = (\<lambda>s. []), seHexToECDSA = (\<lambda>s. Inr (length s)), sePubkeyToAddress = (\<lambda>k. [of_nat k]),
     seKeyGen = (\<lambda>i. Ret (Inr ([], if i = 0 then ''bbb'' else ''cccc''))), seRateLimiter = (\<lambda>r. Ret ()), seNonceAt = (\<lambda>a. Inr 7),
     seFeeNode = (\<lambda>i. ex_start_node), seTransfer = (\<lambda>i. ex_start_transfer),
     seBalanceAt = (\<lambda>a. Inr 1000000), seNewAddress = Ret (Inr ([], [])), seHexToAddress = ex_hex_addr,
     seEstimateGas = (\<lambda>f t v. Inr 21000), seTakes = (\<lambda>n. rev [0..<n]), seEnds = (\<lambda>n. [0..<n]), seFees = ex_start_fees, seNow = ''now''\<rparr>"

definition ex_start_cfg :: Config where
  "ex_start_cfg = ex_cfg\<lparr>net_store := [ex_net_fixed], EphemeralAddrs := Some 2, CheckRpcHealthOnStart := True,
     cfgNonceManager := Some \<lparr>KeySyncRateLimitSec = 10, KeySyncTimeout = None, KeySyncRetries = 3, KeySyncRetryDelay = None\<rparr>\<rparr>"

lemma ex_start_run: "case NewClientWithConfig ex_start_env ex_start_cfg of Ret (txs, Inr c) \<Rightarrow> length txs = 3 | _ \<Rightarrow> False"
  by code_simp

lemma ex_start_ok:
  obtains txs c where "NewClientWithConfig ex_start_env ex_start_cfg = Ret (txs, Inr c)" "length txs = 3"
  using ex_start_run by (auto split: go.splits prod.splits sum.splits)

lemma ex_start_hex: "HexToAddress (seTransfer ex_start_env i) (seAddrHex ex_start_env a) = a"
  by (simp add: ex_start_env_def ex_start_transfer_def ex_hex_addr_def ex_addr_hex_def)

lemma ex_start_signs: "signs_transfer (seTransfer ex_start_env i)"
  by (simp add: signs_transfer_def ex_start_env_def ex_start_transfer_def ex_signed_transfer_def)

lemma ex_start_fair: "fair_schedules ex_start_env"
  by (simp add: fair_schedules_def ex_start_env_def)

theorem NewClientWithConfig_ready_witness:
  "\<exists>txs c. NewClientWithConfig ex_start_env ex_start_cfg = Ret (txs, Inr c) \<and> clErrors c = [] \<and> clNonceManager c \<noteq> None \<and> clTracer c \<noteq> None"
proof -
  obtain txs c where run: "NewClientWithConfig ex_start_env ex_start_cfg = Ret (txs, Inr c)" using ex_start_ok by blast
  from NewClientWithConfig_ready [OF this] run show ?thesis by (intro exI [of _ txs] exI [of _ c]) auto
qed

theorem ephemeral_keys_funded_witness:
  "\<exists>txs c. NewClientWithConfig ex_start_env ex_start_cfg = Ret (txs, Inr c) \<and> map txNonce txs = [7, 8, 9] \<and> length (clAddresses c) = 3"
proof -
  obtain txs c where run: "NewClientWithConfig ex_start_env ex_start_cfg = Ret (txs, Inr c)" and len: "length txs = 3"
    using ex_start_ok by blast
  have k: "EphemeralAddrs ex_start_cfg = Some 2" by (simp add: ex_start_cfg_def)
  have chain: "seNonceAt ex_start_env = (\<lambda>a. Inr 7)" by (simp add: ex_start_env_def)
  obtain root others nonce where "clAddresses c = root # others" "length others = nat 2" "seNonceAt ex_start_env root = Inr nonce"
    "map txNonce txs = map (\<lambda>j. nonce + int j) [0..<length txs]"
    using ephemeral_keys_funded [OF run k _ ex_start_fair ex_start_signs ex_start_hex] by (auto simp: chain)
  then have "map txNonce txs = [7, 8, 9]" "length (clAddresses c) = 3"
    by (simp_all add: len ex_start_env_def numeral_3_eq_3)
  with run show ?thesis by (intro exI [of _ txs] exI [of _ c]) simp
qed

end
