(* ===== verification/Test_Utils.thy ===== *)
theory Test_Utils
  imports Client_New
begin

text \<open>
  The helpers of \<^verbatim>\<open>src/test_utils/client.go\<close>, which put the other components together: a client from the environment's
  configuration without ephemeral keys, new keys, their funding from the root key, and a second client that has them in its
  configuration. A failed \<open>require.NoError\<close> ends the test and is the error result. The configuration is one object:
  what the first client changes in it, the second one starts from. The theorems say what the second client has and what was
  spent, and what \<open>TransferAllFundsBetweenKeyAndAddress\<close> really transfers.
\<close>

text \<open>
  The environment: the parameters of \<open>ReadConfig\<close>, the world as the first client, the funding and the second client see it, and the
  generated keys.
\<close>

record 'pk test_env =
  teGetenv :: "string \<Rightarrow> string"
  teReadFile :: "string \<Rightarrow> string res"
  teToml :: "string \<Rightarrow> Config res"
  teAbsDir :: "string \<Rightarrow> string res"
  teFirst :: "'pk start_env"
  teFund :: "'pk start_env"
  teSecond :: "'pk start_env"
  teKeys :: "nat \<Rightarrow> (string \<times> string) res go"

subsection \<open>Clients with funded keys\<close>

definition first_client :: "'pk test_env \<Rightarrow> 'pk Client start" where
  "first_client env =
     start_bind (quiet (Ret (ReadConfig (teGetenv env) (teReadFile env) (teToml env) (teAbsDir env)))) (\<lambda>cfg.
     NewClientWithConfig (teFirst env) (cfg\<lparr>EphemeralAddrs := Some 0\<rparr>))"

fun new_addresses :: "(nat \<Rightarrow> (string \<times> string) res go) \<Rightarrow> nat \<Rightarrow> nat \<Rightarrow> string list \<Rightarrow> string list \<Rightarrow> (string list \<times> string list) res go" where
  "new_addresses newAddress i 0 privateKeys addresses = Ret (Inr (privateKeys, addresses))"
| "new_addresses newAddress i (Suc k) privateKeys addresses =
     go_bind (newAddress i) (\<lambda>r. case r of
         Inl err \<Rightarrow> Ret (Inl err)
       | Inr (addr, pk) \<Rightarrow> new_addresses newAddress (Suc i) k (privateKeys @ [pk]) (addresses @ [addr]))"

definition fund_addresses :: "'pk start_env \<Rightarrow> string list \<Rightarrow> int \<Rightarrow> int \<Rightarrow> 'pk Client \<Rightarrow> 'pk Client start" where
  "fund_addresses env addresses funding gasPrice c =
     go_bind (run_group (\<lambda>i c. transfer_from_key (seTransfer env (Suc i)) c 0 (addresses ! i) funding gasPrice)
         (seTakes env (length addresses)) c) (\<lambda>(c', txs, errs).
     Ret (txs, case first_failure (seEnds env (length addresses)) errs of Some e \<Rightarrow> Inl e | None \<Rightarrow> Inr c'))"

definition client_with_keys :: "'pk start_env \<Rightarrow> 'pk Client \<Rightarrow> string list \<Rightarrow> 'pk Client start" where
  "client_with_keys env c privateKeys =
     start_bind (pure_step (client_net c)) (\<lambda>n.
     start_bind (pure_step (go_index (netPrivateKeys n) 0)) (\<lambda>rootKey.
     NewClientWithConfig env (upd_net (the (cfgNetwork (Cfg c))) (\<lambda>n. n\<lparr>netPrivateKeys := rootKey # privateKeys\<rparr>) (Cfg c))))"

definition NewClientWithEphemeralAddresses :: "'pk test_env \<Rightarrow> int \<Rightarrow> 'pk Client start" where
  "NewClientWithEphemeralAddresses env addressCount =
     start_bind (first_client env) (\<lambda>c.
     start_bind (quiet (new_addresses (teKeys env) 0 (nat addressCount) [] [])) (\<lambda>(privateKeys, addresses).
     start_bind (pure_step (startup_gas_price (teFund env) 1 c)) (\<lambda>(c1, gasPrice).
     start_bind (pure_step (client_net c1)) (\<lambda>n.
     case RootKeyFundsBuffer (Cfg c1) of
       None \<Rightarrow> Panic ''nil pointer dereference''
     | Some buffer \<Rightarrow>
         start_bind (quiet (CalculateSubKeyFunding (seBalanceAt (teFund env)) (seNewAddress (teFund env)) (seHexToAddress (teFund env))
             (seEstimateGas (teFund env)) n (clAddresses c1) addressCount (int64 gasPrice) buffer)) (\<lambda>bd.
         start_bind (fund_addresses (teFund env) addresses (AddrFunding bd) gasPrice c1) (\<lambda>c2.
         client_with_keys (teSecond env) c2 privateKeys))))))"

definition NewClientWithAddresses :: "'pk test_env \<Rightarrow> int \<Rightarrow> int \<Rightarrow> 'pk Client start" where
  "NewClientWithAddresses env addressCount funding =
     start_bind (first_client env) (\<lambda>c.
     start_bind (quiet (new_addresses (teKeys env) 0 (nat addressCount) [] [])) (\<lambda>(privateKeys, addresses).
     start_bind (pure_step (startup_gas_price (teFund env) 1 c)) (\<lambda>(c1, gasPrice).
     start_bind (fund_addresses (teFund env) addresses funding gasPrice c1) (\<lambda>c2.
     client_with_keys (teSecond env) c2 privateKeys))))"

subsection \<open>Single keys\<close>

definition NewPrivateKeyWithFunds :: "'pk start_env \<Rightarrow> (string \<times> string) res go \<Rightarrow> 'pk Client \<Rightarrow> int \<Rightarrow> ('pk Client \<times> string) start" where
  "NewPrivateKeyWithFunds env newAddress c funds =
     start_bind (quiet newAddress) (\<lambda>(addr, pk).
     start_bind (pure_step (startup_gas_price env 1 c)) (\<lambda>(c1, gasPrice).
     go_bind (client_net c1) (\<lambda>n.
     if TxnTimeout n = None then Panic ''nil pointer dereference''
     else go_bind (transfer_from_key (seTransfer env 0) c1 0 addr funds gasPrice) (\<lambda>(c2, sent, err).
       Ret (sent_list sent, case err of Some e \<Rightarrow> Inl e | None \<Rightarrow> Inr (c2, pk))))))"

definition TransferAllFundsBetweenKeyAndAddress ::
  "'pk start_env \<Rightarrow> 'pk Client \<Rightarrow> int \<Rightarrow> address \<Rightarrow> ('pk Client \<times> Transaction option \<times> goerr option) go" where
  "TransferAllFundsBetweenKeyAndAddress env client keyNum toAddress =
     (case clNonceManager client of
        None \<Rightarrow> Panic ''nil pointer dereference''
      | Some mgr \<Rightarrow>
          go_bind (UpdateNonces (seNonceAt env) mgr) (\<lambda>(mgr', nonceErr).
          let c0 = client\<lparr>clNonceManager := Some mgr'\<rparr> in
          if nonceErr \<noteq> None then Ret (c0, None, nonceErr)
          else
            go_bind (startup_gas_price env 1 c0) (\<lambda>(c1, gasPrice).
            go_bind (go_index (clAddresses c1) 0) (\<lambda>addr.
            case seBalanceAt env addr of
              Inl err \<Rightarrow> Ret (c1, None, Some err)
            | Inr balance \<Rightarrow>
                go_bind (client_net c1) (\<lambda>n.
                if TxnTimeout n = None then Panic ''nil pointer dereference''
                else transfer_from_key (seTransfer env 0) c1 keyNum (seAddrHex env toAddress)
                  (balance - gasPrice * TransferGasFee n) gasPrice)))))"

subsection \<open>What the helpers achieve\<close>

lemma new_addresses_generated:
  "new_addresses f i k pks as = Ret (Inr (pks', as')) \<Longrightarrow>
     \<exists>pairs. length pairs = k \<and> pks' = pks @ map snd pairs \<and> as' = as @ map fst pairs \<and>
       (\<forall>j < k. f (i + j) = Ret (Inr (pairs ! j)))"
proof (induction f i k pks as rule: new_addresses.induct)
  case (2 f i k pks as)
  then obtain addr pk where gen: "f i = Ret (Inr (addr, pk))"
    and rest: "new_addresses f (Suc i) k (pks @ [pk]) (as @ [addr]) = Ret (Inr (pks', as'))"
    by (auto simp: go_bind_Ret_iff case_sum_eq)
  obtain pairs where "length pairs = k" "pks' = (pks @ [pk]) @ map snd pairs" "as' = (as @ [addr]) @ map fst pairs"
    "\<forall>j < k. f (Suc i + j) = Ret (Inr (pairs ! j))"
    using "2.IH" [OF rest] by blast
  then show ?case using gen by (intro exI [of _ "(addr, pk) # pairs"]) (auto simp: nth_Cons split: nat.splits)
qed simp

lemma startup_price_frame: "startup_gas_price env i c = Ret (c1, p) \<Longrightarrow> \<exists>hc. c1 = c\<lparr>HeaderCache := hc\<rparr>"
  by (auto simp: startup_gas_price_def standard_gas_price_def go_bind_Ret_iff)

lemma fund_addresses_sent:
  assumes run: "fund_addresses env addresses funding p c = Ret (txs, Inr c')" and mgr: "clNonceManager c \<noteq> None"
    and fair: "fair_schedules env" and sig: "\<And>i. signs_transfer (seTransfer env i)"
  shows "(\<exists>mgr'. c' = c\<lparr>clNonceManager := Some mgr'\<rparr>) \<and>
    mset (map txTo txs) = mset (map (\<lambda>i. Some (HexToAddress (seTransfer env (Suc i)) (addresses ! i))) [0..<length addresses]) \<and>
    (\<forall>tx \<in> set txs. txValue tx = funding \<and> txGasPrice tx = p)"
proof -
  let ?n = "length addresses"
  obtain mgr0 where m: "clNonceManager c = Some mgr0" using mgr by blast
  obtain errs where group: "run_group (\<lambda>i c. transfer_from_key (seTransfer env (Suc i)) c 0 (addresses ! i) funding p) (seTakes env ?n) c =
      Ret (c', txs, errs)" and none: "first_failure (seEnds env ?n) errs = None"
    using run by (auto simp: fund_addresses_def go_bind_Ret_iff case_option_eq split: option.splits)
  have takes: "mset (seTakes env ?n) = mset [0..<?n]" and ends: "mset (seEnds env ?n) = mset [0..<?n]"
    using fair by (simp_all add: fair_schedules_def)
  have "set (seTakes env ?n) = set (seEnds env ?n)" using takes ends by (metis mset_eq_setD)
  then have "errs = []" using first_failure_None [OF none] run_group_errs [OF group] by simp
  note sent = root_group_targets [OF group [unfolded this] m sig]
  have "mset (map txTo txs) = image_mset (\<lambda>i. Some (HexToAddress (seTransfer env (Suc i)) (addresses ! i))) (mset (seTakes env ?n))"
    using sent by (metis mset_map)
  then show ?thesis using sent takes root_group_frame [OF group m] by simp
qed

lemma first_client_ok:
  assumes "first_client env = Ret (txs, Inr c)"
  obtains cfg n where "ReadConfig (teGetenv env) (teReadFile env) (teToml env) (teAbsDir env) = Inr cfg" "client_net c = Ret n"
    "length txs \<le> 1" "clNonceManager c \<noteq> None" "EphemeralAddrs (Cfg c) = Some 0"
    "RootKeyFundsBuffer (Cfg c) = Some (case RootKeyFundsBuffer cfg of None \<Rightarrow> 0 | Some b \<Rightarrow> b)"
    "ParseKeys (seHexToECDSA (teFirst env)) (sePubkeyToAddress (teFirst env)) (netPrivateKeys n) = Inr (clAddresses c, PrivateKeys c)"
proof -
  obtain cfg where cfg: "ReadConfig (teGetenv env) (teReadFile env) (teToml env) (teAbsDir env) = Inr cfg"
    and new: "NewClientWithConfig (teFirst env) (cfg\<lparr>EphemeralAddrs := Some 0\<rparr>) = Ret (txs, Inr c)"
    using assms by (auto simp: first_client_def start_simps)
  obtain n0 where n0: "deref (cfg\<lparr>EphemeralAddrs := Some 0\<rparr>) (cfgNetwork (cfg\<lparr>EphemeralAddrs := Some 0\<rparr>)) = Ret n0"
    using NewClientWithConfig_steps [OF new] by (auto simp: ValidateConfig_def go_bind_Ret_iff)
  show ?thesis
  proof (rule configured_keys [OF new _ n0], simp, goal_cases)
    case (1 n)
    then show ?case using that [OF cfg] no_ephemeral_transfers [OF new] by (simp split: if_splits)
  qed
qed

lemma client_with_keys_ok:
  assumes run: "client_with_keys env c pks = Ret (txs, Inr c')" and k: "EphemeralAddrs (Cfg c) = Some 0" and net: "client_net c = Ret n0"
  obtains rootKey n keys where "netPrivateKeys n0 = rootKey # keys" "length txs \<le> 1" "client_net c' = Ret n" "netPrivateKeys n = rootKey # pks"
    "ParseKeys (seHexToECDSA env) (sePubkeyToAddress env) (rootKey # pks) = Inr (clAddresses c', PrivateKeys c')"
proof -
  let ?cfg = "\<lambda>rootKey. upd_net (the (cfgNetwork (Cfg c))) (\<lambda>n. n\<lparr>netPrivateKeys := rootKey # pks\<rparr>) (Cfg c)"
  obtain n rootKey where n: "client_net c = Ret n" and first: "go_index (netPrivateKeys n0) 0 = Ret rootKey" and new: "NewClientWithConfig env (?cfg rootKey) = Ret (txs, Inr c')"
    using run net by (auto simp: client_with_keys_def start_simps)
  have keys: "netPrivateKeys n0 = rootKey # tl (netPrivateKeys n0)"
    using first by (cases "netPrivateKeys n0") (auto simp: go_index_def split: if_splits)
  obtain p where p: "cfgNetwork (Cfg c) = Some p" using n by (auto simp: client_net_def elim: deref_RetD)
  have n0: "deref (?cfg rootKey) (cfgNetwork (?cfg rootKey)) = Ret (n\<lparr>netPrivateKeys := rootKey # pks\<rparr>)"
    using deref_upd_net [of "Cfg c" p n] n p by (simp add: client_net_def)
  have k': "EphemeralAddrs (?cfg rootKey) = Some 0" using k by (simp add: upd_net_def)
  show ?thesis
    by (rule configured_keys [OF new k' n0]) (use that [OF keys] no_ephemeral_transfers [OF new k'] in \<open>auto split: if_splits\<close>)
qed

text \<open>
  C13. A client that \<open>NewClientWithEphemeralAddresses\<close> returns for \<open>k > 0\<close> addresses has the root key of the configuration followed by the
  \<open>k\<close> keys generated, the \<open>i\<close>-th key with the \<open>i\<close>-th address by the \<open>i\<close>-th call of \<open>NewAddress\<close>, and each of their addresses was sent exactly one transfer with the share \<open>CalculateSubKeyFunding\<close> computed. The
  shares, the computed fees and the root key's buffer are covered by the balance of the root key's address. Besides, each of the two
  start-ups sent at most its health check.
\<close>

theorem NewClientWithEphemeralAddresses_funded:
  assumes run: "NewClientWithEphemeralAddresses env k = Ret (txs, Inr c)" and k: "0 < k"
    and fair: "fair_schedules (teFund env)" and sig: "\<And>i. signs_transfer (seTransfer (teFund env) i)"
  shows "\<exists>cfg n rootKey pks addrs health1 funding health2 (bd :: FundingDetails) rootPk.
    ReadConfig (teGetenv env) (teReadFile env) (teToml env) (teAbsDir env) = Inr cfg \<and>
    new_addresses (teKeys env) 0 (nat k) [] [] = Ret (Inr (pks, addrs)) \<and> length pks = nat k \<and>
    (\<forall>i < nat k. teKeys env i = Ret (Inr (addrs ! i, pks ! i))) \<and>
    client_net c = Ret n \<and> netPrivateKeys n = rootKey # pks \<and>
    ParseKeys (seHexToECDSA (teSecond env)) (sePubkeyToAddress (teSecond env)) (rootKey # pks) = Inr (clAddresses c, PrivateKeys c) \<and>
    txs = health1 @ funding @ health2 \<and> length health1 \<le> 1 \<and> length health2 \<le> 1 \<and>
    mset (map txTo funding) = mset (map (\<lambda>i. Some (HexToAddress (seTransfer (teFund env) (Suc i)) (addrs ! i))) [0..<nat k]) \<and>
    (\<forall>tx \<in> set funding. txValue tx = AddrFunding bd) \<and> seHexToECDSA (teFirst env) rootKey = Inr rootPk \<and>
    seBalanceAt (teFund env) (sePubkeyToAddress (teFirst env) rootPk) = Inr (RootBalance bd) \<and>
    k * AddrFunding bd + TotalFee bd + (case RootKeyFundsBuffer cfg of None \<Rightarrow> 0 | Some b \<Rightarrow> b) * 10 ^ 18 \<le> RootBalance bd"
proof -
  obtain c0 h1 pks addrs c1 p n1 buffer bd c2 funding h2 where first: "first_client env = Ret (h1, Inr c0)"
    and keys: "new_addresses (teKeys env) 0 (nat k) [] [] = Ret (Inr (pks, addrs))"
    and price: "startup_gas_price (teFund env) 1 c0 = Ret (c1, p)" and buffer: "RootKeyFundsBuffer (Cfg c1) = Some buffer"
    and bd: "CalculateSubKeyFunding (seBalanceAt (teFund env)) (seNewAddress (teFund env)) (seHexToAddress (teFund env))
      (seEstimateGas (teFund env)) n1 (clAddresses c1) k (int64 p) buffer = Ret (Inr bd)"
    and fund: "fund_addresses (teFund env) addrs (AddrFunding bd) p c1 = Ret (funding, Inr c2)"
    and second: "client_with_keys (teSecond env) c2 pks = Ret (h2, Inr c)" and txs: "txs = h1 @ funding @ h2"
    using run by (auto simp: NewClientWithEphemeralAddresses_def start_simps split: option.splits)
  obtain hc where c1: "c1 = c0\<lparr>HeaderCache := hc\<rparr>" using startup_price_frame [OF price] by blast
  obtain cfg n0 where c0: "ReadConfig (teGetenv env) (teReadFile env) (teToml env) (teAbsDir env) = Inr cfg" "client_net c0 = Ret n0"
    "length h1 \<le> 1" "clNonceManager c0 \<noteq> None" "EphemeralAddrs (Cfg c0) = Some 0"
    "RootKeyFundsBuffer (Cfg c0) = Some (case RootKeyFundsBuffer cfg of None \<Rightarrow> 0 | Some b \<Rightarrow> b)"
    "ParseKeys (seHexToECDSA (teFirst env)) (sePubkeyToAddress (teFirst env)) (netPrivateKeys n0) = Inr (clAddresses c0, PrivateKeys c0)"
    by (rule first_client_ok [OF first])
  have len: "length pks = nat k" "length addrs = nat k" and pairs: "\<forall>i < nat k. teKeys env i = Ret (Inr (addrs ! i, pks ! i))"
    using new_addresses_generated [OF keys] by auto
  have "clNonceManager c1 \<noteq> None" using c0(4) c1 by simp
  note sent = fund_addresses_sent [OF fund this fair sig]
  then obtain mgr where c2: "c2 = c1\<lparr>clNonceManager := Some mgr\<rparr>" by blast
  have "EphemeralAddrs (Cfg c2) = Some 0" "client_net c2 = Ret n0" using c0(2,5) c1 c2 by (simp_all add: client_net_def)
  then obtain rootKey n others where root_key: "netPrivateKeys n0 = rootKey # others" and c: "length h2 \<le> 1" "client_net c = Ret n" "netPrivateKeys n = rootKey # pks"
    "ParseKeys (seHexToECDSA (teSecond env)) (sePubkeyToAddress (teSecond env)) (rootKey # pks) = Inr (clAddresses c, PrivateKeys c)"
    by (rule client_with_keys_ok [OF second])
  obtain rootPk where pk: "seHexToECDSA (teFirst env) rootKey = Inr rootPk" "hd (clAddresses c1) = sePubkeyToAddress (teFirst env) rootPk"
    using c0(7) root_key c1 by (auto simp: case_sum_eq res_bind_Inr_iff) (metis list.sel(1))
  have covered: "seBalanceAt (teFund env) (sePubkeyToAddress (teFirst env) rootPk) = Inr (RootBalance bd)"
    "k * AddrFunding bd + TotalFee bd + (case RootKeyFundsBuffer cfg of None \<Rightarrow> 0 | Some b \<Rightarrow> b) * 10 ^ 18 \<le> RootBalance bd"
    using funding_covered [OF bd k] buffer c0(6) c1 pk by auto
  have "\<forall>tx \<in> set funding. txValue tx = AddrFunding bd" "mset (map txTo funding) =
    mset (map (\<lambda>i. Some (HexToAddress (seTransfer (teFund env) (Suc i)) (addrs ! i))) [0..<nat k])"
    using sent len by auto
  with c0(1,3) c keys pairs len(1) txs pk(1) covered show ?thesis
    by (intro exI conjI)
qed

text \<open>
  \<open>TransferAllFundsBetweenKeyAndAddress\<close> does not transfer the funds of the given key, as its comment says, but from that key the
  balance of the root key less the fee.
\<close>

lemma transfer_all_sends_root_balance:
  assumes run: "TransferAllFundsBetweenKeyAndAddress env c (int k) to_addr = Ret (c', sent, None)"
    and sig: "signs_transfer (seTransfer env 0)"
  shows "\<exists>tx balance n. sent = Some tx \<and> client_net c = Ret n \<and> seBalanceAt env (hd (clAddresses c)) = Inr balance \<and>
    txValue tx = balance - txGasPrice tx * TransferGasFee n \<and> k < length (clAddresses c)"
proof -
  obtain mgr mgr' where mgr: "clNonceManager c = Some mgr" and upd: "UpdateNonces (seNonceAt env) mgr = Ret (mgr', None)"
    using run by (auto simp: TransferAllFundsBetweenKeyAndAddress_def go_bind_Ret_iff Let_def split: option.splits if_splits)
  let ?c0 = "c\<lparr>clNonceManager := Some mgr'\<rparr>"
  obtain c1 p where price: "startup_gas_price env 1 ?c0 = Ret (c1, p)"
    using run mgr upd by (auto simp: TransferAllFundsBetweenKeyAndAddress_def go_bind_Ret_iff Let_def)
  obtain hc where c1: "c1 = ?c0\<lparr>HeaderCache := hc\<rparr>" using startup_price_frame [OF price] by blast
  obtain a balance n where a: "go_index (clAddresses c) 0 = Ret a" and b: "seBalanceAt env a = Inr balance" and n: "client_net c1 = Ret n"
    and t: "transfer_from_key (seTransfer env 0) c1 (int k) (seAddrHex env to_addr) (balance - p * TransferGasFee n) p = Ret (c', sent, None)"
    using run mgr upd price c1
    by (auto simp: TransferAllFundsBetweenKeyAndAddress_def go_bind_Ret_iff Let_def case_sum_eq split: if_splits)
  have "a = hd (clAddresses c)" using a by (auto simp: go_index_def hd_conv_nth split: if_splits)
  moreover have "client_net c = Ret n" using n c1 by (simp add: client_net_def)
  moreover have "clNonceManager c1 = Some mgr'" "clAddresses c1 = clAddresses c" by (simp_all add: c1)
  ultimately show ?thesis
    using transfer_key_sent [OF t _ sig, of mgr'] b by metis
qed

text \<open>Two keys, \<^verbatim>\<open>bbb\<close> and \<^verbatim>\<open>cccc\<close>, generated and funded for a client whose root key is in the environment.\<close>

definition ex_test_env :: "nat test_env" where
  "ex_test_env = \<lparr>teGetenv = ex_getenv, teReadFile = (\<lambda>f. Inr []), teToml = (\<lambda>d. Inr ex_start_cfg), teAbsDir = (\<lambda>p. Inr ''/dir''),
     teFirst = ex_start_env, teFund = ex_start_env, teSecond = ex_start_env,
     teKeys = (\<lambda>i. Ret (Inr (if i = 0 then (''03'', ''bbb'') else (''04'', ''cccc''))))\<rparr>"

lemma ex_test_run: "case NewClientWithEphemeralAddresses ex_test_env 2 of Ret (txs, Inr c) \<Rightarrow> length txs = 4 | _ \<Rightarrow> False"
  by code_simp

lemma ex_transfer_all:
  "case first_client ex_test_env of Ret (txs, Inr c) \<Rightarrow>
     (case TransferAllFundsBetweenKeyAndAddress ex_start_env c (int 0) [9] of Ret (c', sent, None) \<Rightarrow> True | _ \<Rightarrow> False) | _ \<Rightarrow> False"
  by code_simp

theorem NewClientWithEphemeralAddresses_funded_witness:
  "\<exists>txs c funding health1 health2. NewClientWithEphemeralAddresses ex_test_env 2 = Ret (txs, Inr c) \<and>
     txs = health1 @ funding @ health2 \<and> length health1 = 1 \<and> length health2 = 1 \<and> mset (map txTo funding) = {#Some [3], Some [4]#}"
proof -
  obtain txs c where run: "NewClientWithEphemeralAddresses ex_test_env 2 = Ret (txs, Inr c)" and four: "length txs = 4"
    using ex_test_run by (auto split: go.splits prod.splits sum.splits)
  have two: "nat 2 = 2" "[0..<2] = [0, 1]" by (simp_all add: upt_rec)
  have gen: "new_addresses (teKeys ex_test_env) 0 (nat 2) [] [] = Ret (Inr ([''bbb'', ''cccc''], [''03'', ''04'']))"
    by (simp add: ex_test_env_def numeral_2_eq_2)
  have addr: "HexToAddress (seTransfer (teFund ex_test_env) i) ''03'' = [3]" "HexToAddress (seTransfer (teFund ex_test_env) i) ''04'' = [4]" for i
    by (simp_all add: ex_test_env_def ex_start_env_def ex_start_transfer_def, code_simp+)
  have fair: "fair_schedules (teFund ex_test_env)" and sig: "\<And>i. signs_transfer (seTransfer (teFund ex_test_env) i)"
    by (simp_all add: ex_test_env_def ex_start_fair ex_start_signs)
  obtain pks addrs health1 funding health2 where keys: "new_addresses (teKeys ex_test_env) 0 (nat 2) [] [] = Ret (Inr (pks, addrs))"
    and txs: "txs = health1 @ funding @ health2" and h: "length health1 \<le> 1" "length health2 \<le> 1"
    and to: "mset (map txTo funding) = mset (map (\<lambda>i. Some (HexToAddress (seTransfer (teFund ex_test_env) (Suc i)) (addrs ! i))) [0..<nat 2])"
    using NewClientWithEphemeralAddresses_funded [OF run _ fair sig] by auto
  have "mset (map txTo funding) = {#Some [3], Some [4]#}" using to gen keys by (auto simp: two addr)
  moreover from this have "length funding = 2" by (metis length_map size_mset size_add_mset size_single one_add_one Suc_eq_plus1)
  ultimately show ?thesis using run txs h four by (intro exI [of _ txs] exI [of _ c] exI [of _ funding] exI [of _ health1] exI [of _ health2]) auto
qed

end
