(* ===== verification/Artifacts.thy ===== *)
theory Artifacts
  imports Client_New
begin

text \<open>
  The files a client leaves behind: \<open>saveAsJson\<close> of \<^verbatim>\<open>src/util.go\<close> on a file system of directories and files,
  \<open>SaveDecodedCallsAsJson\<close> of the tracer and the client, and the files \<open>Decode\<close> writes, as they are on disk after it. Which
  operations of the operating system fail, the working directory and the JSON encoder are parameters. The theorems say which files hold what
  after saving, for every iteration order of the map of calls, and that no other file is touched.
\<close>

subsection \<open>Joined paths\<close>

definition path_name :: "string \<Rightarrow> bool" where
  "path_name c \<longleftrightarrow> CHR ''/'' \<notin> set c \<and> c \<notin> {[], ''.'', ''..''}"

definition rooted_path :: "string list \<Rightarrow> string" where
  "rooted_path cs = ''/'' @ Join cs ''/''"

lemma Split1_Join:
  "cs \<noteq> [] \<Longrightarrow> \<forall>c \<in> set cs. sep \<notin> set c \<Longrightarrow> Split1 (Join cs [sep]) sep = cs"
  by (induction cs "[sep]" rule: Join.induct) (simp_all add: Split1_no_sep Split1_append)

lemma Split1_nonempty [simp]: "Split1 s sep \<noteq> []"
  by (induction s sep rule: Split1.induct) (auto split: list.splits)

lemma Split1_append_sep: "Split1 (s @ sep # t) sep = Split1 s sep @ Split1 t sep"
  by (induction s sep rule: Split1.induct) (auto split: list.splits)

lemma Split1_parts: "c \<in> set (Split1 s sep) \<Longrightarrow> sep \<notin> set c"
  by (induction s sep arbitrary: c rule: Split1.induct) (auto split: list.splits if_splits)

lemma Join_snoc: "Join (cs @ [c]) sep = (if cs = [] then c else Join cs sep @ sep @ c)"
  by (induction cs sep rule: Join.induct) auto

lemma clean_stack_names:
  "\<forall>c \<in> set parts. CHR ''/'' \<notin> set c \<Longrightarrow> \<forall>c \<in> set stack. path_name c \<Longrightarrow>
   \<forall>c \<in> set (fold (clean_step True) parts stack). path_name c"
proof (induction parts arbitrary: stack)
  case (Cons p parts)
  have "\<forall>c \<in> set (clean_step True p stack). path_name c"
    using Cons.prems by (auto simp: path_name_def split: list.splits)
  with Cons show ?case by simp
qed simp

lemma clean_names:
  "\<forall>c \<in> set cs. path_name c \<Longrightarrow> \<forall>c \<in> set stack. path_name c \<Longrightarrow> fold (clean_step True) cs stack = rev cs @ stack"
  by (induction cs arbitrary: stack) (auto simp: path_name_def)

lemma Clean_rooted:
  assumes "HasPrefix p ''/''"
  obtains cs where "filepath_Clean p = rooted_path cs" "\<forall>c \<in> set cs. path_name c"
proof
  let ?cs = "rev (fold (clean_step True) (Split1 p CHR ''/'') [])"
  show "filepath_Clean p = rooted_path ?cs" using assms by (simp add: filepath_Clean_def rooted_path_def)
  show "\<forall>c \<in> set ?cs. path_name c"
    using clean_stack_names [of "Split1 p CHR ''/''" "[]"] Split1_parts [of _ p] by (simp del: clean_step.simps)
qed

lemma Join_dir_name:
  assumes "\<forall>c \<in> set cs. path_name c" and "path_name c"
  shows "filepath_Join [rooted_path cs, c] = rooted_path (cs @ [c])"
proof -
  have c: "c \<noteq> []" "CHR ''/'' \<notin> set c" and cs: "\<forall>c \<in> set cs. CHR ''/'' \<notin> set c" using assms by (auto simp: path_name_def)
  let ?p = "rooted_path cs @ ''/'' @ c"
  have split: "Split1 ?p CHR ''/'' = [] # (if cs = [] then [[]] else cs) @ [c]"
    using cs c Split1_append_sep [of "rooted_path cs" "CHR ''/''" c]
    by (simp add: rooted_path_def Split1_no_sep Split1_Join)
  have "fold (clean_step True) (Split1 ?p CHR ''/'') [] = c # rev cs"
    using clean_names [OF assms(1), of "[]"] assms(2) by (simp add: split [simplified] path_name_def)
  then show ?thesis by (simp add: filepath_Join_def filepath_Clean_def rooted_path_def HasPrefix_def)
qed

lemma parent_of_joined:
  assumes "CHR ''/'' \<notin> set c"
  shows "rev (dropWhile (\<lambda>x. x \<noteq> CHR ''/'') (rev (rooted_path (cs @ [c])))) = (if cs = [] then ''/'' else rooted_path cs @ ''/'')"
proof -
  have "dropWhile (\<lambda>x. x \<noteq> CHR ''/'') (rev c @ CHR ''/'' # zs) = CHR ''/'' # zs" for zs
    using assms by (subst dropWhile_append2) auto
  then show ?thesis by (simp add: rooted_path_def Join_snoc)
qed

lemma rooted_path_inj:
  "\<forall>c \<in> set cs. path_name c \<Longrightarrow> path_name c \<Longrightarrow> path_name d \<Longrightarrow> rooted_path (cs @ [c]) = rooted_path (cs @ [d]) \<longleftrightarrow> c = d"
  by (auto simp: rooted_path_def Join_snoc split: if_splits)

subsection \<open>The file system\<close>

text \<open>
  Directories and files by path. The operating system may refuse an operation on a path, for any reason but a missing directory;
  a refused operation changes nothing.
\<close>

record fs =
  fsDirs :: "string list"
  fsFiles :: "(string, string) gomap"

record os_env =
  osGetwd :: "string res"
  osStatErr :: "string \<Rightarrow> goerr option"
  osMkdirErr :: "string \<Rightarrow> goerr option"
  osWriteErr :: "string \<Rightarrow> goerr option"

definition parent_dir :: "string \<Rightarrow> string" where
  "parent_dir p =
     (let d = rev (dropWhile (\<lambda>c. c \<noteq> CHR ''/'') (rev p)) in
      if d = [] then ''.'' else if d = ''/'' then d else butlast d)"

definition dirs_to :: "string \<Rightarrow> string list" where
  "dirs_to dir = dir # [take i dir. i \<leftarrow> [1..<length dir], dir ! i = CHR ''/'']"

definition MkdirAll :: "os_env \<Rightarrow> string \<Rightarrow> fs \<Rightarrow> fs \<times> goerr option" where
  "MkdirAll os dir f =
     (case osMkdirErr os dir of
        Some err \<Rightarrow> (f, Some err)
      | None \<Rightarrow> (f\<lparr>fsDirs := dirs_to dir @ fsDirs f\<rparr>, None))"

definition WriteFile :: "os_env \<Rightarrow> string \<Rightarrow> string \<Rightarrow> fs \<Rightarrow> fs \<times> goerr option" where
  "WriteFile os path bytes f =
     (case osWriteErr os path of
        Some err \<Rightarrow> (f, Some err)
      | None \<Rightarrow>
          if parent_dir path \<notin> set (fsDirs f) then (f, Some (ErrNew ''no such file or directory''))
          else (f\<lparr>fsFiles := gomap_put path bytes (fsFiles f)\<rparr>, None))"

subsection \<open>Saving values\<close>

text \<open>A value that cannot be encoded is saved as an empty file: the error of the encoder is ignored.\<close>

definition json_bytes :: "string res \<Rightarrow> string" where
  "json_bytes marshalled = (case marshalled of Inl err \<Rightarrow> [] | Inr bytes \<Rightarrow> bytes)"

definition saveAsJson :: "os_env \<Rightarrow> string res \<Rightarrow> string \<Rightarrow> string \<Rightarrow> fs \<Rightarrow> fs \<times> string \<times> goerr option" where
  "saveAsJson os marshalled dirName stem f =
     (case osGetwd os of
        Inl err \<Rightarrow> (f, [], Some err)
      | Inr pwd \<Rightarrow>
          (let dir = filepath_Join [pwd, dirName];
              (f1, mkdirErr) = (if osStatErr os dir = None \<and> dir \<notin> set (fsDirs f) then MkdirAll os dir f else (f, None)) in
          case mkdirErr of
            Some err \<Rightarrow> (f1, [], Some err)
          | None \<Rightarrow>
              (let confPath = filepath_Join [dir, stem @ ''.json'']; (f2, err) = WriteFile os confPath (json_bytes marshalled) f1 in
              (f2, confPath, err))))"

fun save_calls :: "os_env \<Rightarrow> ('c \<Rightarrow> string res) \<Rightarrow> string \<Rightarrow> (string, 'c) gomap \<Rightarrow> fs \<Rightarrow> fs \<times> goerr option" where
  "save_calls os marshal dirname [] f = (f, None)"
| "save_calls os marshal dirname ((h, calls) # rest) f =
     (let (f1, path, err) = saveAsJson os (marshal calls) dirname h f in
      case err of Some e \<Rightarrow> (f1, Some e) | None \<Rightarrow> save_calls os marshal dirname rest f1)"

definition GetAllDecodedCalls :: "Tracer \<Rightarrow> (string, DecodedCall list) gomap" where
  "GetAllDecodedCalls t = decodedCallsMap t"

definition Tracer_SaveDecodedCallsAsJson :: "os_env \<Rightarrow> (DecodedCall list \<Rightarrow> string res) \<Rightarrow> string \<Rightarrow> Tracer \<Rightarrow> fs \<Rightarrow> fs \<times> goerr option" where
  "Tracer_SaveDecodedCallsAsJson os marshal dirname t f = save_calls os marshal dirname (GetAllDecodedCalls t) f"

definition SaveDecodedCallsAsJson ::
  "os_env \<Rightarrow> (DecodedCall list \<Rightarrow> string res) \<Rightarrow> string \<Rightarrow> 'pk Client \<Rightarrow> fs \<Rightarrow> (fs \<times> goerr option) go" where
  "SaveDecodedCallsAsJson os marshal dirname m f =
     (case clTracer m of
        None \<Rightarrow> Panic ''nil pointer dereference''
      | Some t \<Rightarrow> Ret (Tracer_SaveDecodedCallsAsJson os marshal dirname t f))"

text \<open>
  The files of a \<open>Decode\<close> on disk. Failures to save are only logged. A file that can be opened for writing is created, and stays empty when
  the value cannot be encoded. Relative paths start at the working directory.
\<close>

record disk_env =
  deOs :: os_env
  deIO :: file_io
  deCalls :: "DecodedCall list \<Rightarrow> string res"
  deTx :: "DecodedTransaction \<Rightarrow> string res"
  deHash :: "string \<Rightarrow> string res"
  deToml :: "(string, string) gomap \<Rightarrow> string res"
  deDot :: "graph_op list \<Rightarrow> string"

definition abs_path :: "os_env \<Rightarrow> string \<Rightarrow> string" where
  "abs_path os p = (if HasPrefix p ''/'' then p else case osGetwd os of Inl err \<Rightarrow> p | Inr pwd \<Rightarrow> filepath_Join [pwd, p])"

definition file_text :: "fs \<Rightarrow> string \<Rightarrow> string" where
  "file_text f path = (case map_of (fsFiles f) path of None \<Rightarrow> [] | Some text \<Rightarrow> text)"

definition rewrite_file :: "disk_env \<Rightarrow> string \<Rightarrow> (string \<Rightarrow> string) \<Rightarrow> fs \<Rightarrow> fs" where
  "rewrite_file de path g f =
     (if openErr (deIO de) \<noteq> None then f else f\<lparr>fsFiles := gomap_put path (g (file_text f path)) (fsFiles f)\<rparr>)"

definition traces_dir :: "'pk Client \<Rightarrow> string" where
  "traces_dir m = filepath_Join [ArtifactsDir (Cfg m), ''traces'']"

text \<open>
  The file of a graph is relative to the working directory, or absolute when the directory of artifacts is. Which of its operations
  fail has been decided when it is an artifact.
\<close>

definition dot_path :: "os_env \<Rightarrow> 'pk Client \<Rightarrow> string \<Rightarrow> string" where
  "dot_path os m h = abs_path os (filepath_Join [filepath_Join [ArtifactsDir (Cfg m), ''dot_graphs''], h @ ''.dot''])"

definition dot_text :: "disk_env \<Rightarrow> dot_file \<Rightarrow> string" where
  "dot_text de d = (case d of None \<Rightarrow> [] | Some g \<Rightarrow> deDot de g)"

fun write_artifact :: "disk_env \<Rightarrow> 'pk Client \<Rightarrow> DecodedTransaction \<Rightarrow> artifact \<Rightarrow> fs \<Rightarrow> fs" where
  "write_artifact de m decoded (DotFile h d) f =
     f\<lparr>fsDirs := dirs_to (parent_dir (dot_path (deOs de) m h)) @ fsDirs f, fsFiles := gomap_put (dot_path (deOs de) m h) (dot_text de d) (fsFiles f)\<rparr>"
| "write_artifact de m decoded (TraceJson h) f =
     fst (saveAsJson (deOs de) (deCalls de (case clTracer m of None \<Rightarrow> [] | Some t \<Rightarrow> GetDecodedCalls t h)) (traces_dir m) h f)"
| "write_artifact de m decoded (TxJson h) f = fst (saveAsJson (deOs de) (deTx de decoded) (traces_dir m) h f)"
| "write_artifact de m decoded (RevertedHash h) f =
     rewrite_file de (abs_path (deOs de) (revertedTransactionsFile (Cfg m)))
       (\<lambda>text. fst (CreateOrAppendToJsonArray (deIO de) text (deHash de h))) f"
| "write_artifact de m decoded (ContractEntry filename cname addr) f =
     rewrite_file de (abs_path (deOs de) filename)
       (\<lambda>text. case SaveDeployedContract (\<lambda>p. Inr text) (deToml de) filename cname addr of Inl err \<Rightarrow> text | Inr text' \<Rightarrow> text') f"

definition Decode_on_disk ::
  "disk_env \<Rightarrow> wait_state retry_do \<Rightarrow> 'pk client_env \<Rightarrow> 'pk Client \<Rightarrow> Transaction option \<Rightarrow> goerr option \<Rightarrow> fs \<Rightarrow>
   ('pk Client \<times> fs \<times> DecodedTransaction option \<times> goerr option) go" where
  "Decode_on_disk de retryDo env m tx txErr f =
     go_bind (Decode retryDo env m tx txErr) (\<lambda>(m', artifacts, decoded, err).
     Ret (m', case decoded of None \<Rightarrow> f | Some d \<Rightarrow> fold (write_artifact de m' d) artifacts f, decoded, err))"

subsection \<open>What is on disk\<close>

text \<open>The path of a saved value, and an operating system that refuses nothing saving it needs.\<close>

definition json_path :: "string \<Rightarrow> string \<Rightarrow> string \<Rightarrow> string" where
  "json_path pwd dirname stem = filepath_Join [filepath_Join [pwd, dirname], stem @ ''.json'']"

definition saving_allowed :: "os_env \<Rightarrow> string \<Rightarrow> string \<Rightarrow> string list \<Rightarrow> bool" where
  "saving_allowed os pwd dirname names \<longleftrightarrow> osGetwd os = Inr pwd \<and> HasPrefix pwd ''/'' \<and>
     osStatErr os (filepath_Join [pwd, dirname]) = None \<and> osMkdirErr os (filepath_Join [pwd, dirname]) = None \<and>
     (\<forall>stem \<in> set names. CHR ''/'' \<notin> set stem \<and> osWriteErr os (json_path pwd dirname stem) = None)"

lemma json_name: "CHR ''/'' \<notin> set stem \<Longrightarrow> path_name (stem @ ''.json'')"
  by (cases stem) (auto simp: path_name_def append_eq_Cons_conv)

lemma parent_dir_joined:
  assumes "CHR ''/'' \<notin> set c"
  shows "parent_dir (rooted_path (cs @ [c])) = rooted_path cs"
  unfolding parent_dir_def Let_def parent_of_joined [OF assms] by (auto simp: rooted_path_def)

lemma saving_dir:
  assumes "HasPrefix pwd ''/''"
  obtains cs where "filepath_Join [pwd, dirname] = rooted_path cs" "\<forall>c \<in> set cs. path_name c"
proof -
  have "HasPrefix (Join [pwd, dirname] ''/'') ''/''" using HasPrefixE [OF assms] by (auto simp: HasPrefix_def)
  then obtain cs where "filepath_Clean (Join [pwd, dirname] ''/'') = rooted_path cs" "\<forall>c \<in> set cs. path_name c" by (rule Clean_rooted)
  moreover have "filepath_Join [pwd, dirname] = filepath_Clean (Join [pwd, dirname] ''/'')"
    using HasPrefixE [OF assms] by (auto simp: filepath_Join_def)
  ultimately show ?thesis using that by simp
qed

lemma json_path_rooted:
  assumes "HasPrefix pwd ''/''"
  obtains cs where "filepath_Join [pwd, dirname] = rooted_path cs" "\<forall>c \<in> set cs. path_name c"
    "\<And>stem. CHR ''/'' \<notin> set stem \<Longrightarrow> json_path pwd dirname stem = rooted_path (cs @ [stem @ ''.json''])"
proof -
  obtain cs where cs: "filepath_Join [pwd, dirname] = rooted_path cs" "\<forall>c \<in> set cs. path_name c" by (rule saving_dir [OF assms])
  then show ?thesis using that Join_dir_name json_name by (simp add: json_path_def)
qed

lemma json_path_inj:
  assumes "HasPrefix pwd ''/''" "CHR ''/'' \<notin> set a" "CHR ''/'' \<notin> set b"
  shows "json_path pwd dirname a = json_path pwd dirname b \<longleftrightarrow> a = b"
proof (rule json_path_rooted [OF assms(1), of dirname], goal_cases)
  case (1 cs)
  then show ?case using rooted_path_inj [OF 1(2) json_name json_name] assms(2,3) by simp
qed

lemma json_path_parent:
  assumes "HasPrefix pwd ''/''" "CHR ''/'' \<notin> set stem"
  shows "parent_dir (json_path pwd dirname stem) = filepath_Join [pwd, dirname]"
proof (rule json_path_rooted [OF assms(1), of dirname], goal_cases)
  case (1 cs)
  then show ?case using parent_dir_joined [of "stem @ ''.json''" cs] assms(2) by simp
qed

lemma saveAsJson_saves:
  assumes "saving_allowed os pwd dirname [stem]"
  obtains f' where "saveAsJson os marshalled dirname stem f = (f', json_path pwd dirname stem, None)"
    "fsFiles f' = gomap_put (json_path pwd dirname stem) (json_bytes marshalled) (fsFiles f)"
proof -
  let ?dir = "filepath_Join [pwd, dirname]"
  obtain f1 where "(if osStatErr os ?dir = None \<and> ?dir \<notin> set (fsDirs f) then MkdirAll os ?dir f else (f, None)) = (f1, None)"
    "?dir \<in> set (fsDirs f1)" "fsFiles f1 = fsFiles f"
    using assms by (cases "?dir \<in> set (fsDirs f)") (auto simp: saving_allowed_def MkdirAll_def dirs_to_def)
  with that [of "f1\<lparr>fsFiles := gomap_put (json_path pwd dirname stem) (json_bytes marshalled) (fsFiles f1)\<rparr>"] show ?thesis
    using assms json_path_parent [of pwd stem dirname]
    by (simp add: saving_allowed_def saveAsJson_def WriteFile_def json_path_def Let_def)
qed

lemma json_bytes_Inr [simp]: "json_bytes (Inr b) = b"
  by (simp add: json_bytes_def)

lemma save_calls_saves:
  assumes "saving_allowed os pwd dirname (map fst calls)" "distinct (map fst calls)"
  obtains f' where "save_calls os marshal dirname calls f = (f', None)"
    "map_of (fsFiles f') = map_of (fsFiles f) ++ map_of (map (\<lambda>(h, c). (json_path pwd dirname h, json_bytes (marshal c))) calls)"
  using assms
proof (induction calls arbitrary: f thesis)
  case (Cons hc calls)
  obtain h c where hc: "hc = (h, c)" by (cases hc)
  have one: "saving_allowed os pwd dirname [h]" and rest: "saving_allowed os pwd dirname (map fst calls)" "distinct (map fst calls)"
    using Cons.prems hc by (auto simp: saving_allowed_def)
  obtain f1 where f1: "saveAsJson os (marshal c) dirname h f = (f1, json_path pwd dirname h, None)"
    "fsFiles f1 = gomap_put (json_path pwd dirname h) (json_bytes (marshal c)) (fsFiles f)"
    by (rule saveAsJson_saves [OF one])
  let ?m = "map_of (map (\<lambda>(h, c). (json_path pwd dirname h, json_bytes (marshal c))) calls)"
  obtain f' where f': "save_calls os marshal dirname calls f1 = (f', None)" "map_of (fsFiles f') = map_of (fsFiles f1) ++ ?m"
    by (rule Cons.IH [OF _ rest])
  have "json_path pwd dirname h \<noteq> json_path pwd dirname h'" if "h' \<in> set (map fst calls)" for h'
    using json_path_inj [of pwd h h' dirname] Cons.prems hc that by (auto simp: saving_allowed_def)
  then have "?m (json_path pwd dirname h) = None" by (force simp: map_of_eq_None_iff)
  then have "map_of (fsFiles f1) ++ ?m = map_of (fsFiles f) ++ map_of (map (\<lambda>(h, c). (json_path pwd dirname h, json_bytes (marshal c))) (hc # calls))"
    by (auto simp: f1(2) update_conv' map_add_def hc split: option.splits)
  then show ?case by (intro Cons.prems(1) [of f']) (simp_all only: f', simp add: f1(1) f'(1) hc)
qed simp

text \<open>
  C39. \<open>SaveDecodedCallsAsJson\<close>, when the operating system refuses nothing, returns no error and leaves for every traced transaction
  the encoded calls in \<^verbatim>\<open><directory>/<hash>.json\<close> below the working directory, and every other file as it was. The
  order in which the map of calls is iterated makes no difference.
\<close>

theorem saved_calls_on_disk:
  assumes t: "clTracer m = Some t" and wf: "gomap_wf (decodedCallsMap t)"
    and allowed: "saving_allowed os pwd dirname (map fst (decodedCallsMap t))"
    and order: "mset (decodedCallsMap t') = mset (decodedCallsMap t)"
  shows "\<exists>f'. SaveDecodedCallsAsJson os marshal dirname (m\<lparr>clTracer := Some t'\<rparr>) f = Ret (f', None) \<and>
    (\<forall>h calls. map_of (decodedCallsMap t) h = Some calls \<longrightarrow> map_of (fsFiles f') (json_path pwd dirname h) = Some (json_bytes (marshal calls))) \<and>
    (\<forall>path. path \<notin> json_path pwd dirname ` dom (map_of (decodedCallsMap t)) \<longrightarrow> map_of (fsFiles f') path = map_of (fsFiles f) path)"
proof -
  let ?new = "map (\<lambda>(h, c). (json_path pwd dirname h, json_bytes (marshal c))) (decodedCallsMap t')"
  have same: "set (decodedCallsMap t') = set (decodedCallsMap t)" "distinct (map fst (decodedCallsMap t'))"
    using order wf by (metis mset_eq_setD, metis mset_eq_imp_distinct_iff mset_map)
  have allowed': "saving_allowed os pwd dirname (map fst (decodedCallsMap t'))" using allowed same(1) by (simp add: saving_allowed_def)
  obtain f' where f': "save_calls os marshal dirname (decodedCallsMap t') f = (f', None)" "map_of (fsFiles f') = map_of (fsFiles f) ++ map_of ?new"
    by (rule save_calls_saves [OF allowed' same(2)])
  have inj: "inj_on (json_path pwd dirname) (set (map fst (decodedCallsMap t')))"
    using allowed' by (intro inj_onI) (subst (asm) json_path_inj, auto simp: saving_allowed_def)
  then have "distinct (map fst ?new)"
    using same(2) by (simp add: comp_def case_prod_unfold distinct_map inj_on_def)
  then have "map_of ?new (json_path pwd dirname h) = Some (json_bytes (marshal calls))" if "map_of (decodedCallsMap t) h = Some calls" for h calls
    using map_of_SomeD [OF that] same(1) by (intro map_of_is_SomeI) force+
  moreover have "map_of ?new path = None" if "path \<notin> json_path pwd dirname ` dom (map_of (decodedCallsMap t))" for path
    using that same(1) by (force simp: map_of_eq_None_iff dom_map_of_conv_image_fst)
  ultimately show ?thesis
    using f' by (auto simp: SaveDecodedCallsAsJson_def Tracer_SaveDecodedCallsAsJson_def GetAllDecodedCalls_def map_add_def split: option.splits)
qed

lemma TraceGethTX_cases:
  assumes run: "TraceGethTX lib hx store addrs fb ct denv cfg h revertErr t = Ret (t', drawing, traceErr)"
  obtains (early) err where "drawing = None" "traceErr = Some err"
  | (drawn) trace t1 calls graphError where "TxHash trace = h" "DecodeTrace lib hx store addrs t1 trace = Ret (t', Inr calls)"
      "(if calls \<noteq> [] then generateDotGraph denv cfg calls revertErr else Ret (None, None)) = Ret (drawing, graphError)"
      "traceErr = (case graphError of None \<Rightarrow> PrintTXTrace t' h | Some err \<Rightarrow> Some err)"
proof (cases ct)
  case (Inl err)
  then show ?thesis using early run by (auto simp: TraceGethTX_def Let_def go_bind_Ret_iff)
next
  case (Inr callTrace)
  obtain fb' where fb: "trace4Byte fb = Ret fb'" using run by (auto simp: TraceGethTX_def go_bind_Ret_iff)
  define trace where "trace = \<lparr>TxHash = h, FourByte = (case fb' of Inl err \<Rightarrow> [] | Inr m \<Rightarrow> m), CallTrace = callTrace\<rparr>"
  obtain t2 r where dec: "DecodeTrace lib hx store addrs (addTrace h trace t) trace = Ret (t2, r)"
    using run fb Inr by (auto simp: TraceGethTX_def Let_def go_bind_Ret_iff trace_def)
  show ?thesis
  proof (cases r)
    case (Inl err)
    then show ?thesis using early [of err] run fb Inr dec by (simp add: TraceGethTX_def Let_def trace_def)
  next
    case calls: (Inr calls)
    obtain graph graphError where g: "(if calls \<noteq> [] then generateDotGraph denv cfg calls revertErr else Ret (None, None)) = Ret (graph, graphError)"
      using run fb Inr dec calls by (auto simp: TraceGethTX_def Let_def go_bind_Ret_iff trace_def)
    have "TraceGethTX lib hx store addrs fb ct denv cfg h revertErr t =
        go_bind (if calls \<noteq> [] then generateDotGraph denv cfg calls revertErr else Ret (None, None)) (\<lambda>(graph, graphError).
        case graphError of Some err \<Rightarrow> Ret (t2, graph, Some err) | None \<Rightarrow> Ret (t2, graph, PrintTXTrace t2 h))"
      by (simp only: TraceGethTX_def fb go_bind.simps Let_def Inr sum.case trace_def [symmetric] dec calls prod.case)
    then have "t' = t2" "drawing = graph" "traceErr = (case graphError of None \<Rightarrow> PrintTXTrace t' h | Some err \<Rightarrow> Some err)"
      using run unfolding g by (cases graphError; simp)+
    then show ?thesis using drawn [of trace "addTrace h trace t" calls graphError] dec calls g by (simp add: trace_def)
  qed
qed

text \<open>The graph of a traced transaction, in terms of the calls that the tracer remembers of it.\<close>

lemma TraceGethTX_file:
  assumes run: "TraceGethTX lib hx store addrs fb ct denv cfg h revertErr t = Ret (t', drawing, traceErr)"
  shows "hasOutput cfg TraceOutput_DOT \<or> drawing = None"
    and "store \<noteq> None \<Longrightarrow> hasOutput cfg TraceOutput_DOT \<Longrightarrow> traceErr = None \<Longrightarrow>
      \<exists>g. drawing = Some (Some g) \<and> generateDotGraph denv cfg (GetDecodedCalls t' h) revertErr = Ret (Some (Some g), None)"
proof -
  show "hasOutput cfg TraceOutput_DOT \<or> drawing = None"
    by (rule TraceGethTX_cases [OF run]) (auto dest: dot_file_created(1) split: if_splits)
  assume store: "store \<noteq> None" and on: "hasOutput cfg TraceOutput_DOT" and ok: "traceErr = None"
  then obtain cs where cs: "store = Some cs" by blast
  show "\<exists>g. drawing = Some (Some g) \<and> generateDotGraph denv cfg (GetDecodedCalls t' h) revertErr = Ret (Some (Some g), None)"
  proof (rule TraceGethTX_cases [OF run])
    fix trace t1 calls graphError assume h: "TxHash trace = h" and dec: "DecodeTrace lib hx store addrs t1 trace = Ret (t', Inr calls)"
      and g: "(if calls \<noteq> [] then generateDotGraph denv cfg calls revertErr else Ret (None, None)) = Ret (drawing, graphError)"
      and e: "traceErr = (case graphError of None \<Rightarrow> PrintTXTrace t' h | Some err \<Rightarrow> Some err)"
    have "calls \<noteq> []" "GetDecodedCalls t' h = calls" using DecodeTrace_remembers [OF dec [unfolded cs]] h by simp_all
    moreover have "graphError = None" using e ok by (cases graphError) simp_all
    ultimately show ?thesis using g dot_file_created(2) [OF _ on] by fastforce
  qed (use ok in simp)
qed

text \<open>
  C38. With tracing of every transaction, a \<open>Decode\<close> that returns a transaction leaves at most two new or changed files, named
  by its hash, and all others as they were. With DOT output and a contract store, and if tracing succeeds, the drawing of
  the decoded calls of its trace, in the directory of graphs (a tracing that fails after the file was created leaves it empty); without DOT output
  no graph. With JSON output, in the directory of traces, the decoded calls, or the decoded transaction if
  tracing failed; without JSON output no such file.
\<close>

theorem decode_saves_trace:
  assumes run: "Decode_on_disk de retryDo env m (Some tx) None f = Ret (m', f', Some decoded, err)"
    and level: "TracingLevel (Cfg m) = TracingLevel_All"
    and allowed: "saving_allowed (deOs de) pwd (traces_dir m) [dtHash decoded]"
  shows "\<exists>t cm t' drawing traceErr. clTracer m = Some t \<and> clTracer m' = Some t' \<and>
    TraceGethTX (ceLib env) (ceHex env) (clContractStore m) (clAddresses m) (ceFourByte env (dtHash decoded)) (ceCallTrace env (dtHash decoded))
      (ceDotGraph env) (Cfg m) (dtHash decoded) err (t\<lparr>trMap := cm\<rparr>) = Ret (t', drawing, traceErr) \<and>
    (\<not> hasOutput (Cfg m) TraceOutput_DOT \<longrightarrow> drawing = None) \<and>
    (hasOutput (Cfg m) TraceOutput_DOT \<and> clContractStore m \<noteq> None \<and> traceErr = None \<longrightarrow>
       (\<exists>g. drawing = Some (Some g) \<and>
          generateDotGraph (ceDotGraph env) (Cfg m) (GetDecodedCalls t' (dtHash decoded)) err = Ret (Some (Some g), None))) \<and>
    fsFiles f' =
      (if hasOutput (Cfg m) TraceOutput_JSON
       then gomap_put (json_path pwd (traces_dir m) (dtHash decoded))
              (json_bytes (if traceErr = None then deCalls de (GetDecodedCalls t' (dtHash decoded)) else deTx de decoded)) else id)
      ((case drawing of None \<Rightarrow> id | Some d \<Rightarrow> gomap_put (dot_path (deOs de) m (dtHash decoded)) (dot_text de d)) (fsFiles f))"
proof -
  obtain artifacts where dec: "Decode retryDo env m (Some tx) None = Ret (m', artifacts, Some decoded, err)"
    and f': "f' = fold (write_artifact de m' decoded) artifacts f"
    using run by (auto simp: Decode_on_disk_def go_bind_Ret_iff)
  obtain st :: wait_state and receipt where mined: "decode_mined env m (wsTx st) receipt = Ret (m', artifacts, Some decoded, err)"
    by (rule Decode_waits [OF dec])
  let ?h = "dtHash decoded"
  have "TracingLevel (Cfg m) \<noteq> TracingLevel_None" using level by (simp add: TracingLevel_All_def TracingLevel_None_def)
  then obtain cm where traced: "trace_decoded env (m\<lparr>ContractAddressToNameMap := cm\<rparr>) decoded err = Ret (m', artifacts)"
    using mined by (auto simp: decode_mined_def Let_def go_bind_Ret_iff errors_Is_new_def split: if_splits option.splits)
  then obtain t t' drawing traceErr where t: "clTracer m = Some t"
    and trace: "TraceGethTX (ceLib env) (ceHex env) (clContractStore m) (clAddresses m) (ceFourByte env ?h) (ceCallTrace env ?h)
      (ceDotGraph env) (Cfg m) ?h err (t\<lparr>trMap := cm\<rparr>) = Ret (t', drawing, traceErr)"
    using level by (auto simp: trace_decoded_def Let_def go_bind_Ret_iff split: option.splits)
  let ?drawn = "case drawing of None \<Rightarrow> [] | Some d \<Rightarrow> [DotFile ?h d]"
  have m': "clTracer m' = Some t'" "ArtifactsDir (Cfg m') = ArtifactsDir (Cfg m)"
    "artifacts = ?drawn @ (if hasOutput (Cfg m) TraceOutput_JSON then [if traceErr = None then TraceJson ?h else TxJson ?h] else [])"
    using traced level t trace by (auto simp: trace_decoded_def Let_def split: option.splits if_splits)
  have paths: "traces_dir m' = traces_dir m" "dot_path os m' = dot_path os m" for os
    using m'(2) by (simp_all add: traces_dir_def dot_path_def fun_eq_iff)
  define f1 where "f1 = fold (write_artifact de m' decoded) ?drawn f"
  have f1: "fsFiles f1 = (case drawing of None \<Rightarrow> id | Some d \<Rightarrow> gomap_put (dot_path (deOs de) m ?h) (dot_text de d)) (fsFiles f)"
    by (simp add: f1_def paths split: option.splits)
  obtain g where g: "saveAsJson (deOs de) (if traceErr = None then deCalls de (GetDecodedCalls t' ?h) else deTx de decoded) (traces_dir m) ?h f1 =
      (g, json_path pwd (traces_dir m) ?h, None)"
    "fsFiles g = gomap_put (json_path pwd (traces_dir m) ?h)
      (json_bytes (if traceErr = None then deCalls de (GetDecodedCalls t' ?h) else deTx de decoded)) (fsFiles f1)"
    by (rule saveAsJson_saves [OF allowed])
  have "f' = (if hasOutput (Cfg m) TraceOutput_JSON then g else f1)"
    using f' m'(1,3) g(1) paths(1) by (cases traceErr) (simp_all add: f1_def)
  then have "fsFiles f' = (if hasOutput (Cfg m) TraceOutput_JSON
       then gomap_put (json_path pwd (traces_dir m) ?h)
              (json_bytes (if traceErr = None then deCalls de (GetDecodedCalls t' ?h) else deTx de decoded)) else id) (fsFiles f1)"
    by (simp add: g(2))
  with f1 t trace m'(1) TraceGethTX_file [OF trace] show ?thesis
    by (intro exI [of _ t] exI [of _ cm] exI [of _ t'] exI [of _ drawing] exI [of _ traceErr]) auto
qed

subsection \<open>Examples\<close>

definition ex_os :: os_env where
  "ex_os = \<lparr>osGetwd = Inr ''/w'', osStatErr = (\<lambda>p. None), osMkdirErr = (\<lambda>p. None), osWriteErr = (\<lambda>p. None)\<rparr>"

definition ex_disk :: disk_env where
  "ex_disk = \<lparr>deOs = ex_os, deIO = \<lparr>openErr = None, seekErr = None, writeErr = None\<rparr>, deCalls = (\<lambda>cs. Inr ''[]''), deTx = (\<lambda>d. Inr (dtHash d)),
     deHash = Inr, deToml = (\<lambda>m. Inr []), deDot = (\<lambda>g. ''digraph'')\<rparr>"

definition ex_decoded_tracer :: Tracer where
  "ex_decoded_tracer = (empty_tracer NewEmptyContractMap)\<lparr>decodedCallsMap := [(''h1'', []), (''h2'', [])]\<rparr>"

lemma ex_allowed: "(\<forall>h \<in> set hs. CHR ''/'' \<notin> set h) \<Longrightarrow> saving_allowed ex_os ''/w'' dir hs"
  by (simp add: saving_allowed_def ex_os_def HasPrefix_def)

theorem saved_calls_on_disk_witness:
  "\<exists>f'. SaveDecodedCallsAsJson ex_os (\<lambda>cs. Inr ''[]'') ''out''
      (ex_client\<lparr>clTracer := Some (ex_decoded_tracer\<lparr>decodedCallsMap := [(''h2'', []), (''h1'', [])]\<rparr>)\<rparr>) \<lparr>fsDirs = [], fsFiles = []\<rparr> = Ret (f', None) \<and>
     map_of (fsFiles f') ''/w/out/h1.json'' = Some ''[]'' \<and> map_of (fsFiles f') ''/w/out/h3.json'' = None"
proof -
  let ?t = "ex_decoded_tracer" and ?t' = "ex_decoded_tracer\<lparr>decodedCallsMap := [(''h2'', []), (''h1'', [])]\<rparr>"
  have path: "json_path ''/w'' ''out'' ''h1'' = ''/w/out/h1.json''" "json_path ''/w'' ''out'' ''h2'' = ''/w/out/h2.json''" by code_simp+
  have m: "clTracer (ex_client\<lparr>clTracer := Some ?t\<rparr>) = Some ?t" "gomap_wf (decodedCallsMap ?t)"
    "saving_allowed ex_os ''/w'' ''out'' (map fst (decodedCallsMap ?t))" "mset (decodedCallsMap ?t') = mset (decodedCallsMap ?t)"
    by (simp_all add: ex_decoded_tracer_def ex_allowed)
  obtain f' where run: "SaveDecodedCallsAsJson ex_os (\<lambda>cs. Inr ''[]'') ''out'' (ex_client\<lparr>clTracer := Some ?t\<rparr>\<lparr>clTracer := Some ?t'\<rparr>)
      \<lparr>fsDirs = [], fsFiles = []\<rparr> = Ret (f', None)"
    and saved: "\<forall>h calls. map_of (decodedCallsMap ?t) h = Some calls \<longrightarrow>
      map_of (fsFiles f') (json_path ''/w'' ''out'' h) = Some (json_bytes (Inr ''[]''))"
    and others: "\<forall>p. p \<notin> json_path ''/w'' ''out'' ` dom (map_of (decodedCallsMap ?t)) \<longrightarrow> map_of (fsFiles f') p = None"
    using saved_calls_on_disk [OF m, of "\<lambda>cs. Inr ''[]''" "\<lparr>fsDirs = [], fsFiles = []\<rparr>"] by auto
  have "dom (map_of (decodedCallsMap ?t)) = {''h1'', ''h2''}" by (auto simp: ex_decoded_tracer_def)
  then have "map_of (fsFiles f') ''/w/out/h3.json'' = None" using others by (simp add: path)
  moreover have "map_of (fsFiles f') ''/w/out/h1.json'' = Some ''[]''"
    using saved [rule_format, of "''h1''" "[]"] by (simp add: path ex_decoded_tracer_def)
  ultimately show ?thesis using run by (intro exI [of _ f']) simp
qed

definition ex_trace_env :: "nat client_env" where
  "ex_trace_env = ex_client_env\<lparr>hashString := (\<lambda>h. ''0xab''), cePolls := (\<lambda>k t. [Inr (ex_receipt\<lparr>Status := 1\<rparr>)]),
     ceCallTrace := (\<lambda>h. Inr \<lparr>mainCall = ex_call ''0xaaaaaaaa'' [] [], Calls = []\<rparr>)\<rparr>"

definition ex_tracing_client :: "nat Client" where
  "ex_tracing_client = ex_client\<lparr>Cfg := (Cfg ex_client)\<lparr>TracingLevel := TracingLevel_All, TraceOutputs := [''console'', ''json'', ''dot''],
     ArtifactsDir := ''art''\<rparr>, clContractStore := Some \<lparr>ABIs = [], BINs = []\<rparr>, clTracer := Some (empty_tracer NewEmptyContractMap)\<rparr>"

lemma ex_traced_run:
  "case Decode_on_disk ex_disk ex_retry ex_trace_env ex_tracing_client (Some ex_tx) None \<lparr>fsDirs = [], fsFiles = []\<rparr> of
     Ret (m', f', Some d, err) \<Rightarrow> dtHash d = ''0xab'' \<and> fsFiles f' = [(''/w/art/dot_graphs/0xab.dot'', ''digraph''), (''/w/art/traces/0xab.json'', ''[]'')]
   | _ \<Rightarrow> False"
  by code_simp

theorem decode_saves_trace_witness:
  "\<exists>m' f' d err. Decode_on_disk ex_disk ex_retry ex_trace_env ex_tracing_client (Some ex_tx) None \<lparr>fsDirs = [], fsFiles = []\<rparr> =
      Ret (m', f', Some d, err) \<and> fsFiles f' = [(''/w/art/dot_graphs/0xab.dot'', ''digraph''), (''/w/art/traces/0xab.json'', ''[]'')] \<and>
     fst ` set (fsFiles f') \<subseteq> {json_path ''/w'' (traces_dir ex_tracing_client) ''0xab'', dot_path ex_os ex_tracing_client ''0xab''}"
proof -
  obtain m' f' d err where run: "Decode_on_disk ex_disk ex_retry ex_trace_env ex_tracing_client (Some ex_tx) None \<lparr>fsDirs = [], fsFiles = []\<rparr> =
      Ret (m', f', Some d, err)" and h: "dtHash d = ''0xab''"
    and files: "fsFiles f' = [(''/w/art/dot_graphs/0xab.dot'', ''digraph''), (''/w/art/traces/0xab.json'', ''[]'')]"
    using ex_traced_run by (auto split: go.splits prod.splits option.splits)
  have level: "TracingLevel (Cfg ex_tracing_client) = TracingLevel_All" by code_simp
  have allowed: "saving_allowed (deOs ex_disk) ''/w'' (traces_dir ex_tracing_client) [dtHash d]" by (simp add: ex_disk_def h ex_allowed)
  have "fst ` set (fsFiles f') \<subseteq> {json_path ''/w'' (traces_dir ex_tracing_client) ''0xab'', dot_path ex_os ex_tracing_client ''0xab''}"
  proof -
    have keys: "fst ` set ((if j then gomap_put p v else id) ((case d of None \<Rightarrow> id | Some x \<Rightarrow> gomap_put q (w x)) [])) \<subseteq> {p, q}"
      for j d w and p q v :: string by (cases d) (auto simp: dom_update)
    obtain t' drawing traceErr where "fsFiles f' =
      (if hasOutput (Cfg ex_tracing_client) TraceOutput_JSON
       then gomap_put (json_path ''/w'' (traces_dir ex_tracing_client) ''0xab'')
              (json_bytes (if traceErr = (None :: goerr option) then deCalls ex_disk (GetDecodedCalls t' ''0xab'') else deTx ex_disk d)) else id)
      ((case drawing of None \<Rightarrow> id | Some x \<Rightarrow> gomap_put (dot_path (deOs ex_disk) ex_tracing_client ''0xab'') (dot_text ex_disk x))
        (fsFiles \<lparr>fsDirs = [], fsFiles = []\<rparr>))"
      using decode_saves_trace [OF run level allowed] unfolding h by blast
    moreover have "deOs ex_disk = ex_os" by (simp add: ex_disk_def)
    ultimately show ?thesis using keys by (simp only: fs.simps)
  qed
  then show ?thesis using run files by blast
qed

end
