(* ===== verification/Logging.thy ===== *)
theory Logging
  imports Client_Ops
begin

text \<open>
  What the client prints: the log level (\<^verbatim>\<open>src/log.go\<close>), the HTTP transport that logs requests
  (\<^verbatim>\<open>src/http_logging_transport.go\<close>) and the lines for decoded calls and transactions (\<^verbatim>\<open>src/tracing.go\<close>, \<^verbatim>\<open>src/decode.go\<close>). A log
  line is its level, its fields and its message; the rendering of values, the level names of the log library and the HTTP library are
  arguments. The theorems: logging never changes the answer to a request, and which lines a trace gives.
\<close>

subsection \<open>The level\<close>

definition LogLevelEnvVar :: string where
  "LogLevelEnvVar = ''SETH_LOG_LEVEL''"

definition initDefaultLogging :: "(string \<Rightarrow> string) \<Rightarrow> (string \<Rightarrow> 'level res) \<Rightarrow> 'level go" where
  "initDefaultLogging getenv ParseLevel =
     (let v = getenv LogLevelEnvVar; lvlStr = (if v = [] then ''info'' else v) in
      case ParseLevel lvlStr of Inl err \<Rightarrow> Panic (errorText err) | Inr lvl \<Rightarrow> Ret lvl)"

subsection \<open>The HTTP transport\<close>

datatype transport = HTTPTransport bool | LoggingTransport "transport option"

text \<open>The HTTP library: a request over a plain transport (with or without certificate checks), and the two dumps.\<close>

record ('req, 'resp) http_lib =
  httpSend :: "bool \<Rightarrow> 'req \<Rightarrow> 'resp res"
  DumpRequestOut :: "'req \<Rightarrow> string res"
  DumpResponse :: "'resp \<Rightarrow> string res"
  Took :: string

definition NewLoggingTransport :: "(string \<Rightarrow> string) \<Rightarrow> transport" where
  "NewLoggingTransport getenv =
     (if getenv LogLevelEnvVar = ''debug'' then LoggingTransport (Some (HTTPTransport True)) else HTTPTransport True)"

definition dumped :: "string \<Rightarrow> string res \<Rightarrow> string list" where
  "dumped label dump = (case dump of Inl err \<Rightarrow> [] | Inr d \<Rightarrow> [label @ newline @ d @ newline])"

fun RoundTrip :: "('req, 'resp) http_lib \<Rightarrow> transport \<Rightarrow> 'req \<Rightarrow> string list \<times> 'resp res" where
  "RoundTrip lib (HTTPTransport insecure) req = ([], httpSend lib insecure req)"
| "RoundTrip lib (LoggingTransport t) req =
     (let (inner, answer) = (case t of None \<Rightarrow> ([], httpSend lib False req) | Some t' \<Rightarrow> RoundTrip lib t' req);
          request = dumped ''Request:'' (DumpRequestOut lib req) in
      case answer of
        Inl err \<Rightarrow> (request @ inner, Inl err)
      | Inr resp \<Rightarrow> (request @ inner @ dumped ''Response:'' (DumpResponse lib resp) @ [''Request took '' @ Took lib @ newline], Inr resp))"

subsection \<open>Decoded calls and transactions\<close>

datatype log_level = LevelDebug | LevelError

type_synonym log_line = "log_level \<times> (string \<times> string) list \<times> string"

record render =
  showVals :: "gvals option \<Rightarrow> string"
  showErr :: "goerr \<Rightarrow> string"

definition field :: "string \<Rightarrow> string \<Rightarrow> log_line" where
  "field k v = (LevelDebug, [(k, v)], [])"

definition indentation :: "DecodedCall \<Rightarrow> string" where
  "indentation dc = concat (replicate (nat (NestingLevel dc)) ''  '')"

definition call_lines :: "render \<Rightarrow> goerr option \<Rightarrow> DecodedCall \<Rightarrow> log_line list" where
  "call_lines r revertErr dc =
     (let ind = indentation dc in
      [field (ind @ ''- Call'') (FromAddress dc @ '' -> '' @ ToAddress dc), field (ind @ ''- From -> To'') (callFrom dc @ '' -> '' @ callTo dc),
       field (ind @ ''- Call Type'') (CallType dc), field (ind @ ''- Method signature'') (Signature dc), field (ind @ ''- Method name'') (cdMethod dc),
       field (ind @ ''- Gas used/limit'') (Itoa (callGasUsed dc) @ ''/'' @ Itoa (callGasLimit dc)),
       field (ind @ ''- Gas left'') (Itoa (uint64 (callGasLimit dc - callGasUsed dc)))] @
      (if Comment dc \<noteq> [] then [field (ind @ ''- Comment'') (Comment dc)] else []) @
      (if Input dc \<noteq> None then [field (ind @ ''- Inputs'') (showVals r (Input dc))] else []) @
      (if Output dc \<noteq> None then [field (ind @ ''- Outputs'') (showVals r (Output dc))] else []) @
      map (\<lambda>e. (LevelDebug, [(''Signature'', logSignature e), (ind @ ''- Log'', showVals r (EventData e))], [])) (callEvents dc) @
      (case revertErr of
         Some err \<Rightarrow> if cdError dc \<noteq> [] then [(LevelError, [(ind @ ''- Revert'', errorText err)], [])] else []
       | None \<Rightarrow> []))"

fun all_call_lines :: "render \<Rightarrow> goerr option \<Rightarrow> DecodedCall list \<Rightarrow> log_line list" where
  "all_call_lines r revertErr [] = []"
| "all_call_lines r revertErr (dc # calls) =
     call_lines r revertErr dc @ (if calls \<noteq> [] then [(LevelDebug, [], [])] else []) @ all_call_lines r revertErr calls"

definition banner :: log_line where
  "banner = (LevelDebug, [], ''----------- Decoding transaction trace started -----------'')"

definition printDecodedCallData :: "render \<Rightarrow> Config \<Rightarrow> DecodedCall list \<Rightarrow> goerr option \<Rightarrow> log_line list" where
  "printDecodedCallData r cfg calls revertErr =
     (if \<not> hasOutput cfg TraceOutput_Console then []
      else banner # all_call_lines r revertErr calls @ [banner] @
        (case revertErr of None \<Rightarrow> [] | Some err \<Rightarrow> [(LevelError, [(''error'', errorText err)], ''Transaction reverted'')]))"

definition printDecodedTXData :: "render \<Rightarrow> DecodedTransaction \<Rightarrow> log_line list" where
  "printDecodedTXData r ptx =
     [field ''Method signature'' (Signature ptx), field ''Method name'' (cdMethod ptx)] @
     (if Input ptx \<noteq> None then [field ''Inputs'' (showVals r (Input ptx))] else []) @
     (if Output ptx \<noteq> None then [field ''Outputs'' (showVals r (Output ptx))] else []) @
     map (\<lambda>e. (LevelDebug, [(''Signature'', logSignature e), (''Log'', showVals r (EventData e))], [])) (dtEvents ptx)"

subsection \<open>What is printed\<close>

text \<open>The transport answers as the plain one does, whatever the dumps do; it prints only at level \<^verbatim>\<open>debug\<close>.\<close>

lemma logging_transparent:
  "snd (RoundTrip lib (NewLoggingTransport getenv) req) = httpSend lib True req"
  "getenv LogLevelEnvVar \<noteq> ''debug'' \<Longrightarrow> fst (RoundTrip lib (NewLoggingTransport getenv) req) = []"
  by (auto simp: NewLoggingTransport_def Let_def split: sum.splits)

lemma call_line_errors: "length (filter (\<lambda>l. fst l = LevelError) (call_lines r revertErr dc)) = (if revertErr \<noteq> None \<and> cdError dc \<noteq> [] then 1 else 0)"
  by (auto simp: call_lines_def Let_def field_def filter_map comp_def split: option.splits)

lemma all_call_line_errors:
  "length (filter (\<lambda>l. fst l = LevelError) (all_call_lines r revertErr calls)) = (if revertErr = None then 0 else length (filter (\<lambda>c. cdError c \<noteq> []) calls))"
  by (induction calls) (auto simp: call_line_errors)

text \<open>A printed trace of a reverted transaction has one error line per failed call and one for the transaction.\<close>

lemma printed_reverts:
  assumes "hasOutput cfg TraceOutput_Console"
  shows "length (filter (\<lambda>l. fst l = LevelError) (printDecodedCallData r cfg calls revertErr)) =
    (if revertErr = None then 0 else Suc (length (filter (\<lambda>c. cdError c \<noteq> []) calls)))"
  using assms by (auto simp: printDecodedCallData_def banner_def all_call_line_errors split: option.splits)

end
