(* ===== verification/Debug_Contracts.thy ===== *)
theory Debug_Contracts
  imports Client_Ops
begin

text \<open>
  \<open>DeployDebugSubContract\<close> and \<open>DeployDebugContract\<close> of \<^verbatim>\<open>src/util.go\<close>, with the two deployment functions of the bindings they call. The
  ABI and the code of the contracts, go-ethereum's \<open>bind.DeployContract\<close> and the wait for the code are parameters.
\<close>

record 'pk debug_env =
  dbAbi :: "ABI option res"
  dbBin :: "byte list"
  dbDeploy :: "'pk TransactOpts \<Rightarrow> ABI \<Rightarrow> byte list \<Rightarrow> address list \<Rightarrow> (address \<times> Transaction \<times> nat) res"
  dbWaitDeployed :: "Transaction \<Rightarrow> goerr option"

definition DeployNetworkDebugSubContract :: "'pk debug_env \<Rightarrow> 'pk TransactOpts \<Rightarrow> (address \<times> Transaction \<times> nat) res" where
  "DeployNetworkDebugSubContract db auth =
     (case dbAbi db of
        Inl err \<Rightarrow> Inl err
      | Inr None \<Rightarrow> Inl (ErrNew ''GetABI returned nil'')
      | Inr (Some parsed) \<Rightarrow> dbDeploy db auth parsed (dbBin db) [])"

definition DeployNetworkDebugContract :: "'pk debug_env \<Rightarrow> 'pk TransactOpts \<Rightarrow> address \<Rightarrow> (address \<times> Transaction \<times> nat) res" where
  "DeployNetworkDebugContract db auth subAddr =
     (case dbAbi db of
        Inl err \<Rightarrow> Inl err
      | Inr None \<Rightarrow> Inl (ErrNew ''GetABI returned nil'')
      | Inr (Some parsed) \<Rightarrow> dbDeploy db auth parsed (dbBin db) [subAddr])"

definition DeployDebugSubContract :: "'pk opts_env \<Rightarrow> 'pk debug_env \<Rightarrow> 'pk Client \<Rightarrow> ('pk Client \<times> (nat \<times> address) res) go" where
  "DeployDebugSubContract env db m =
     go_bind (NewTXOpts env m []) (\<lambda>(m', opts).
     Ret (m', case DeployNetworkDebugSubContract db opts of
         Inl err \<Rightarrow> Inl err
       | Inr (addr, tx, contract) \<Rightarrow> (case dbWaitDeployed db tx of Some err \<Rightarrow> Inl err | None \<Rightarrow> Inr (contract, addr))))"

definition DeployDebugContract :: "'pk opts_env \<Rightarrow> 'pk debug_env \<Rightarrow> 'pk Client \<Rightarrow> address \<Rightarrow> ('pk Client \<times> (nat \<times> address) res) go" where
  "DeployDebugContract env db m subDbgAddr =
     go_bind (NewTXOpts env m []) (\<lambda>(m', opts).
     Ret (m', case DeployNetworkDebugContract db opts subDbgAddr of
         Inl err \<Rightarrow> Inl err
       | Inr (addr, tx, contract) \<Rightarrow> (case dbWaitDeployed db tx of Some err \<Rightarrow> Inl err | None \<Rightarrow> Inr (contract, addr))))"

text \<open>
  A debug contract is returned only with the address of a transaction whose code arrived, sent with the root key's options and the
  address of the sub contract as the constructor's argument. Unlike \<open>DeployContract\<close> it is not entered in the contract map.
\<close>

lemma debug_contract_deployed:
  assumes "DeployDebugContract env db m subAddr = Ret (m', Inr (contract, addr))"
  shows "\<exists>opts parsed tx. NewTXOpts env m [] = Ret (m', opts) \<and> dbAbi db = Inr (Some parsed) \<and>
    dbDeploy db opts parsed (dbBin db) [subAddr] = Inr (addr, tx, contract) \<and> dbWaitDeployed db tx = None"
proof -
  obtain opts where opts: "NewTXOpts env m [] = Ret (m', opts)"
    and r: "(case DeployNetworkDebugContract db opts subAddr of Inl err \<Rightarrow> Inl err
      | Inr (addr, tx, c) \<Rightarrow> (case dbWaitDeployed db tx of Some err \<Rightarrow> Inl err | None \<Rightarrow> Inr (c, addr))) = Inr (contract, addr)"
    using assms by (auto simp: DeployDebugContract_def go_bind_Ret_iff)
  then obtain tx where "DeployNetworkDebugContract db opts subAddr = Inr (addr, tx, contract)" "dbWaitDeployed db tx = None"
    by (auto split: sum.splits option.splits prod.splits)
  with opts show ?thesis by (auto simp: DeployNetworkDebugContract_def split: sum.splits option.splits)
qed

end
