(* ===== verification/Block_Stats.thy ===== *)
theory Block_Stats
  imports Config Ether_Units
begin

text \<open>
  Block statistics (\<^verbatim>\<open>src/block_stats.go\<close>): choosing the interval of blocks, fetching them concurrently, and the averages
  and percentiles over consecutive blocks with the wrap-around of the totals, float64 rates and integer divisions. The node, the
  TOML encoder, the rate limiter and the order in which the goroutines finish are fields of \<open>stats_env\<close>. Log lines are left out;
  the two structures that are printed are the result. The theorems: the result does not depend on the order in which the blocks
  arrive, exactly when the computation panics, and that the 95th percentiles and the averages are what they are called.
\<close>

record Block =
  bNumber :: int
  bTime :: int
  bTransactions :: nat
  bGasUsed :: int
  bGasLimit :: int
  bBaseFee :: "int option"
  bSize :: int

subsection \<open>Times and numbers of the standard library\<close>

text \<open>
  \<open>time.Unix(a, 0).Sub(time.Unix(b, 0))\<close>: the difference in nanoseconds, saturated when it does not fit; and
  \<open>Duration.Seconds\<close>.
\<close>

definition unix_sec :: "int \<Rightarrow> int" where
  "unix_sec t = int64 (int64 t + 62135596800)"

definition time_Sub :: "int \<Rightarrow> int \<Rightarrow> int" where
  "time_Sub t u =
     (let d = int64 (int64 (unix_sec t - unix_sec u) * 1000000000);
          secs = quo d 1000000000 in
      if int64 (unix_sec u + secs) = unix_sec t \<and> d = secs * 1000000000 then d
      else if unix_sec t < unix_sec u then - (2 ^ 63) else 2 ^ 63 - 1)"

definition Duration_Seconds :: "int \<Rightarrow> float64" where
  "Duration_Seconds d =
     (let sec = quo d 1000000000; nsec = d - sec * 1000000000 in
      fadd (float_of_int sec) (fdiv (float_of_int nsec) (Fin 1000000000)))"

fun math_Ceil :: "float64 \<Rightarrow> float64" where
  "math_Ceil (Fin x) = Fin (of_int \<lceil>x\<rceil>)"
| "math_Ceil x = x"

text \<open>\<open>%.2f\<close> and \<open>%.8f\<close>.\<close>

fun Sprintf_f :: "nat \<Rightarrow> float64 \<Rightarrow> string" where
  "Sprintf_f k (Fin x) =
     (let n = rne (\<bar>x\<bar> * 10 ^ k) in
      (if x < 0 then ''-'' else []) @ digits (n div 10 ^ k) @ ''.'' @ dec_pad k (n mod 10 ^ k))"
| "Sprintf_f k PInf = ''+Inf''"
| "Sprintf_f k NInf = ''-Inf''"
| "Sprintf_f k NaN = ''NaN''"

text \<open>\<open>sort.Float64s\<close>: ascending, not-a-number first.\<close>

definition float_before :: "float64 \<Rightarrow> float64 \<Rightarrow> bool" where
  "float_before a b \<longleftrightarrow> flt a b \<or> a = NaN \<and> b \<noteq> NaN"

fun insert_float :: "float64 \<Rightarrow> float64 list \<Rightarrow> float64 list" where
  "insert_float x [] = [x]"
| "insert_float x (y # ys) = (if float_before y x then y # insert_float x ys else x # y # ys)"

definition Float64s :: "float64 list \<Rightarrow> float64 list" where
  "Float64s xs = foldr insert_float xs []"

subsection \<open>CalculateBlockDurations\<close>

definition calculateRatioPercentage :: "int \<Rightarrow> int \<Rightarrow> float64" where
  "calculateRatioPercentage value1 value2 =
     (if value2 = 0 then Fin 0 else fmul (fdiv (float_of_int value1) (float_of_int value2)) (Fin 100))"

text \<open>The variables of the loop: the values per block and their totals.\<close>

record block_totals =
  durations :: "int list"
  tpsValues :: "float64 list"
  gasUsedValues :: "int list"
  gasLimitValues :: "int list"
  blockBaseFeeValues :: "int list"
  blockSizeValues :: "int list"
  totalDuration :: int
  totalTransactions :: int
  totalGasUsed :: int
  totalGasLimit :: int
  totalBaseFee :: int
  totalSize :: int

definition no_totals :: block_totals where
  "no_totals = \<lparr>durations = [], tpsValues = [], gasUsedValues = [], gasLimitValues = [], blockBaseFeeValues = [], blockSizeValues = [],
     totalDuration = 0, totalTransactions = 0, totalGasUsed = 0, totalGasLimit = 0, totalBaseFee = 0, totalSize = 0\<rparr>"

definition block_tps :: "int \<Rightarrow> int \<Rightarrow> float64" where
  "block_tps transactions duration =
     (if flt (Fin 0) (Duration_Seconds duration) then fdiv (float_of_int transactions) (Duration_Seconds duration) else Fin 0)"

definition add_block :: "Block \<Rightarrow> Block \<Rightarrow> int \<Rightarrow> block_totals \<Rightarrow> block_totals" where
  "add_block prev b baseFee st =
     (let duration = time_Sub (bTime b) (bTime prev); transactions = int (bTransactions b); blockBaseFee = uint64 baseFee in
      \<lparr>durations = durations st @ [duration], tpsValues = tpsValues st @ [block_tps transactions duration],
       gasUsedValues = gasUsedValues st @ [bGasUsed b], gasLimitValues = gasLimitValues st @ [bGasLimit b],
       blockBaseFeeValues = blockBaseFeeValues st @ [blockBaseFee], blockSizeValues = blockSizeValues st @ [bSize b],
       totalDuration = int64 (totalDuration st + duration), totalTransactions = int64 (totalTransactions st + transactions),
       totalGasUsed = uint64 (totalGasUsed st + bGasUsed b), totalGasLimit = uint64 (totalGasLimit st + bGasLimit b),
       totalBaseFee = uint64 (totalBaseFee st + blockBaseFee), totalSize = uint64 (totalSize st + bSize b)\<rparr>)"

fun block_loop :: "Block \<Rightarrow> Block list \<Rightarrow> block_totals \<Rightarrow> block_totals go" where
  "block_loop prev [] st = Ret st"
| "block_loop prev (b # bs) st =
     (case bBaseFee b of
        None \<Rightarrow> Panic ''nil pointer dereference''
      | Some baseFee \<Rightarrow> block_loop b bs (add_block prev b baseFee st))"

record block_stats =
  Blocks :: int
  Perc95TPS :: float64
  Perc95BlockDuration :: string
  Perc95BlockGasUsed :: int
  Perc95BlockGasLimit :: int
  Perc95BlockBaseFee :: int
  Perc95BlockSize :: int
  AvgTPS :: float64
  AvgBlockDuration :: string
  AvgBlockGasUsed :: int
  AvgBlockGasLimit :: int
  AvgBlockBaseFee :: int
  AvgBlockSize :: int

record performanceTestStats =
  psDuration :: string
  GasInitialValue :: int
  GasBaseFeeBumpPercentage :: string
  GasUsagePercentage :: string
  TPSStable :: float64
  TPSMax :: float64

record stats_env =
  bsHeader :: "int res"
  bsBlockByNumber :: "int \<Rightarrow> Block res"
  bsOrder :: "int list \<Rightarrow> int list"
  bsMarshalStats :: "block_stats \<Rightarrow> goerr option"
  bsMarshalPerf :: "performanceTestStats \<Rightarrow> goerr option"

text \<open>An average of unsigned totals; an integer division by zero panics.\<close>

definition average :: "int \<Rightarrow> 'a list \<Rightarrow> int go" where
  "average tot vs = (if vs = [] then Panic ''integer divide by zero'' else Ret (quo tot (int (length vs))))"

definition index95 :: "nat \<Rightarrow> int" where
  "index95 n = int64_of_float (fmul (fl (95 / 100)) (float_of_int (int n)))"

definition bump_message :: "float64 \<Rightarrow> string" where
  "bump_message bump =
     (if feq bump (Fin 100) then Sprintf_f 2 bump @ ''% (no bump required)'' else Sprintf_f 2 bump @ ''% (multiply)'')"

definition usage_message :: "float64 \<Rightarrow> string" where
  "usage_message perc =
     (if fle (Fin 100) perc then Sprintf_f 8 perc @ ''% gas used (network is congested)''
      else Sprintf_f 8 perc @ ''% gas used (no congestion)'')"

definition summarise :: "nat \<Rightarrow> block_totals \<Rightarrow> (block_stats \<times> performanceTestStats) go" where
  "summarise numBlocks st =
     (let averageTPS = fdiv (float_of_int (totalTransactions st)) (Duration_Seconds (totalDuration st));
          i = index95 (length (durations st)) in
      go_bind (average (totalDuration st) (durations st)) (\<lambda>averageDuration.
      go_bind (average (totalGasUsed st) (gasUsedValues st)) (\<lambda>averageGasUsed.
      go_bind (average (totalGasLimit st) (gasLimitValues st)) (\<lambda>averageGasLimit.
      go_bind (average (totalBaseFee st) (blockBaseFeeValues st)) (\<lambda>averageBlockBaseFee.
      go_bind (average (totalSize st) (blockSizeValues st)) (\<lambda>averageBlockSize.
      go_bind (go_index (sort (durations st)) i) (\<lambda>percentile95Duration.
      go_bind (go_index (Float64s (tpsValues st)) i) (\<lambda>percentile95TPS.
      go_bind (go_index (sort (gasUsedValues st)) i) (\<lambda>percentile95GasUsed.
      go_bind (go_index (sort (gasLimitValues st)) i) (\<lambda>percentile95GasLimit.
      go_bind (go_index (sort (blockBaseFeeValues st)) i) (\<lambda>percentile95BlockBaseFee.
      go_bind (go_index (sort (blockSizeValues st)) i) (\<lambda>percentile95BlockSize.
      Ret (\<lparr>Blocks = int numBlocks, Perc95TPS = percentile95TPS, Perc95BlockDuration = duration_string percentile95Duration,
            Perc95BlockGasUsed = percentile95GasUsed, Perc95BlockGasLimit = percentile95GasLimit,
            Perc95BlockBaseFee = percentile95BlockBaseFee, Perc95BlockSize = percentile95BlockSize, AvgTPS = averageTPS,
            AvgBlockDuration = duration_string averageDuration, AvgBlockGasUsed = averageGasUsed,
            AvgBlockGasLimit = averageGasLimit, AvgBlockBaseFee = averageBlockBaseFee, AvgBlockSize = averageBlockSize\<rparr>,
           \<lparr>psDuration = duration_string (totalDuration st), GasInitialValue = averageBlockBaseFee,
            GasBaseFeeBumpPercentage = bump_message (calculateRatioPercentage percentile95BlockBaseFee averageBlockBaseFee),
            GasUsagePercentage = usage_message (calculateRatioPercentage averageGasUsed averageGasLimit),
            TPSStable = math_Ceil averageTPS, TPSMax = math_Ceil percentile95TPS\<rparr>)))))))))))))"

definition CalculateBlockDurations :: "stats_env \<Rightarrow> Block list \<Rightarrow> (block_stats \<times> performanceTestStats) res go" where
  "CalculateBlockDurations env blocks =
     (case blocks of
        [] \<Rightarrow> Ret (Inl (ErrNew ''no blocks no analyze''))
      | b # bs \<Rightarrow>
          go_bind (block_loop b bs no_totals) (\<lambda>st.
          go_bind (summarise (length blocks) st) (\<lambda>(tomlCfg, perfStats).
          Ret (case bsMarshalStats env tomlCfg of
              Some err \<Rightarrow> Inl err
            | None \<Rightarrow> (case bsMarshalPerf env perfStats of Some err \<Rightarrow> Inl err | None \<Rightarrow> Inr (tomlCfg, perfStats))))))"

subsection \<open>Stats\<close>

text \<open>What one goroutine does with its block: keep it, skip it, or fail.\<close>

datatype fetched = Kept Block | Skipped | Failed goerr

definition fetch_block :: "stats_env \<Rightarrow> int \<Rightarrow> fetched" where
  "fetch_block env bn =
     (case bsBlockByNumber env bn of
        Inr block \<Rightarrow> Kept block
      | Inl err \<Rightarrow>
          if Contains (errorText err) ''value overflows uint256'' \<or> Contains (errorText err) ''transaction type not supported''
          then Skipped else Failed err)"

fun kept :: "fetched list \<Rightarrow> Block list" where
  "kept [] = []"
| "kept (Kept b # fs) = b # kept fs"
| "kept (_ # fs) = kept fs"

fun first_failed :: "fetched list \<Rightarrow> goerr option" where
  "first_failed [] = None"
| "first_failed (Failed err # fs) = Some err"
| "first_failed (_ # fs) = first_failed fs"

definition fetch_stats :: "stats_env \<Rightarrow> int \<Rightarrow> int \<Rightarrow> (block_stats \<times> performanceTestStats) res go" where
  "fetch_stats env startBn endBn =
     (let done = map (fetch_block env) (bsOrder env [startBn..endBn - 1]) in
      case first_failed done of
        Some err \<Rightarrow> Ret (Inl err)
      | None \<Rightarrow> CalculateBlockDurations env (sort_key (\<lambda>b. int64 (bNumber b)) (kept done)))"

text \<open>The block numbers given are big integers, the last one possibly nil.\<close>

definition Stats :: "stats_env \<Rightarrow> int \<Rightarrow> int option \<Rightarrow> (block_stats \<times> performanceTestStats) res go" where
  "Stats env startBlock0 endBlock0 =
     (case (if endBlock0 = None \<or> startBlock0 < 0 then map_sum id Some (bsHeader env) else Inr None) of
        Inl err \<Rightarrow> Ret (Inl (ErrNew (''failed to get the latest block header: '' @ errorText err)))
      | Inr latestBlockNumber \<Rightarrow>
          (let startBlock = (if startBlock0 < 0 then the latestBlockNumber + startBlock0 else startBlock0) in
           case endBlock0 of
             None \<Rightarrow> Panic ''nil pointer dereference''
           | Some e \<Rightarrow>
               (case (if int64 e = 0 then latestBlockNumber else Some e) of
                  None \<Rightarrow> Panic ''nil pointer dereference''
                | Some endBlock \<Rightarrow>
                    if int64 startBlock > int64 endBlock then Ret (Inl (ErrNew ''start block is less than the end block''))
                    else fetch_stats env (int64 startBlock) (int64 endBlock))))"

text \<open>\<open>NewBlockStats\<close> creates the rate limiter from the configuration as it is; a nil configuration panics.\<close>

definition NewBlockStats :: "(int \<Rightarrow> unit go) \<Rightarrow> Config \<Rightarrow> unit go" where
  "NewBlockStats rateLimiter cfg =
     (case cfgBlockStats cfg of
        None \<Rightarrow> Panic ''nil pointer dereference''
      | Some bs \<Rightarrow> rateLimiter (RPCRateLimit bs))"

subsection \<open>The order of arrival does not matter\<close>

lemma mset_kept_sum: "mset (kept fs) = (\<Sum>f \<in># mset fs. case f of Kept b \<Rightarrow> {#b#} | _ \<Rightarrow> {#})"
  by (induction fs rule: kept.induct) auto

lemma mset_kept: "mset fs = mset fs' \<Longrightarrow> mset (kept fs) = mset (kept fs')"
  by (simp add: mset_kept_sum)

lemma first_failed_None: "first_failed fs = None \<longleftrightarrow> (\<forall>err. Failed err \<notin> set fs)"
  by (induction fs rule: first_failed.induct) auto

lemma first_failed_Some: "first_failed fs = Some err \<Longrightarrow> Failed err \<in> set fs"
  by (induction fs rule: first_failed.induct) auto

lemma sort_key_distinct:
  assumes "mset xs = mset ys" and "distinct (map f ys)" and "sorted (map f ys)"
  shows "sort_key f xs = ys"
proof (rule properties_for_sort_key)
  show "mset ys = mset xs" using assms(1) by simp
  show "sorted (map f ys)" by (rule assms(3))
  fix k assume k: "k \<in> set ys"
  have one: "filter (\<lambda>x. f k = f x) zs = [k]" if "mset zs = mset ys" for zs
  proof -
    have "filter (\<lambda>x. f k = f x) ys = [k]"
      using k assms(2)
    proof (induction ys)
      case (Cons y ys)
      then show ?case by (cases "k = y") (auto simp: image_iff intro!: filter_False)
    qed simp
    then have "mset (filter (\<lambda>x. f k = f x) zs) = {#k#}" using that by (metis mset_filter mset_single_iff)
    then show ?thesis by (simp only: mset_single_iff)
  qed
  show "filter (\<lambda>x. f k = f x) ys = filter (\<lambda>x. f k = f x) xs" using one assms(1) by simp
qed

text \<open>The blocks of the interval in ascending order, without the skipped ones.\<close>

definition interval_blocks :: "stats_env \<Rightarrow> int \<Rightarrow> int \<Rightarrow> Block list" where
  "interval_blocks env startBn endBn = kept (map (fetch_block env) [startBn..endBn - 1])"

text \<open>A node asked for a block by its number returns that block; a negative number is a tag such as \<^verbatim>\<open>latest\<close>.\<close>

definition node_numbers :: "stats_env \<Rightarrow> bool" where
  "node_numbers env \<longleftrightarrow> (\<forall>bn b. 0 \<le> bn \<longrightarrow> bsBlockByNumber env bn = Inr b \<longrightarrow> bNumber b = bn)"

lemma fetch_block_Kept: "fetch_block env bn = Kept b \<longleftrightarrow> bsBlockByNumber env bn = Inr b"
  by (auto simp: fetch_block_def split: sum.splits)

lemma interval_blocks_sorted:
  assumes "node_numbers env" and "0 \<le> s"
  shows "sorted (map bNumber (interval_blocks env s e)) \<and> distinct (map bNumber (interval_blocks env s e)) \<and>
    bNumber ` set (interval_blocks env s e) \<subseteq> {s..e - 1}"
proof -
  have "sorted (map bNumber (kept (map (fetch_block env) ns))) \<and> distinct (map bNumber (kept (map (fetch_block env) ns))) \<and>
      bNumber ` set (kept (map (fetch_block env) ns)) \<subseteq> set ns" if "sorted ns" "distinct ns" "\<forall>n \<in> set ns. 0 \<le> n" for ns
    using that
  proof (induction ns)
    case (Cons n ns)
    show ?case
    proof (cases "fetch_block env n")
      case (Kept b)
      then have "bNumber b = n" using assms(1) Cons.prems(3) by (simp add: fetch_block_Kept node_numbers_def)
      with Cons Kept show ?thesis by auto
    qed (use Cons in auto)
  qed simp
  from this [of "[s..e - 1]"] show ?thesis using assms(2) by (simp add: interval_blocks_def)
qed

text \<open>
  C30. Whatever order the goroutines finish in, \<open>Stats\<close> computes its summary from the blocks of the interval in ascending order,
  the last block left out; if some request fails, other than for a block format that is skipped, its result is the error of one
  of the failed requests.
\<close>

theorem Stats_order_irrelevant:
  assumes node: "node_numbers env" and perm: "\<And>ns. mset (bsOrder env ns) = mset ns"
    and range: "0 \<le> s" "s \<le> e" "0 < e" "e < 2 ^ 63"
  shows "if \<exists>bn err. s \<le> bn \<and> bn < e \<and> fetch_block env bn = Failed err
    then \<exists>bn err. s \<le> bn \<and> bn < e \<and> fetch_block env bn = Failed err \<and> Stats env s (Some e) = Ret (Inl err)
    else Stats env s (Some e) = CalculateBlockDurations env (interval_blocks env s e)"
proof -
  let ?f = "fetch_block env" and ?ns = "[s..e - 1]"
  let ?done = "map ?f (bsOrder env ?ns)"
  have id: "int64 s = s" "int64 e = e" using range by (simp_all add: int64_id)
  have st: "Stats env s (Some e) = fetch_stats env s e" using range id by (simp add: Stats_def)
  have "set (bsOrder env ?ns) = {s..e - 1}" using mset_eq_setD [OF perm [of ?ns]] by simp
  then have failed: "Failed err \<in> set ?done \<longleftrightarrow> (\<exists>bn. s \<le> bn \<and> bn < e \<and> ?f bn = Failed err)" for err
    by (force simp: image_iff)
  show ?thesis
  proof (cases "first_failed ?done")
    case (Some err)
    then show ?thesis using first_failed_Some [OF Some] failed st by (auto simp: fetch_stats_def)
  next
    case None
    then have none: "\<not> (\<exists>bn err. s \<le> bn \<and> bn < e \<and> ?f bn = Failed err)" using failed by (auto simp: first_failed_None)
    let ?bs = "interval_blocks env s e"
    note srt = interval_blocks_sorted [OF node range(1), of e]
    have keys: "map (\<lambda>b. int64 (bNumber b)) ?bs = map bNumber ?bs"
      using srt range by (intro map_cong) (auto simp: image_subset_iff intro!: int64_id)
    have "mset ?done = mset (map ?f ?ns)" by (simp add: perm)
    then have "mset (kept ?done) = mset ?bs" unfolding interval_blocks_def by (rule mset_kept)
    then have "sort_key (\<lambda>b. int64 (bNumber b)) (kept ?done) = ?bs"
      using srt by (intro sort_key_distinct) (simp_all add: keys)
    then show ?thesis unfolding if_not_P [OF none] using None st by (simp add: fetch_stats_def)
  qed
qed

subsection \<open>When the computation panics\<close>

lemma block_loop_lengths:
  assumes "block_loop prev bs st = Ret st'" and "length (durations st) = n" "length (tpsValues st) = n" "length (gasUsedValues st) = n"
    "length (gasLimitValues st) = n" "length (blockBaseFeeValues st) = n" "length (blockSizeValues st) = n"
  shows "length (durations st') = n + length bs" "length (tpsValues st') = n + length bs" "length (gasUsedValues st') = n + length bs"
    "length (gasLimitValues st') = n + length bs" "length (blockBaseFeeValues st') = n + length bs" "length (blockSizeValues st') = n + length bs"
  using assms
  by (induction prev bs st arbitrary: n rule: block_loop.induct) (fastforce simp: add_block_def Let_def split: option.splits)+

lemma block_loop_panics: "(\<exists>st'. block_loop prev bs st = Ret st') \<longleftrightarrow> (\<forall>b \<in> set bs. bBaseFee b \<noteq> None)"
  by (induction prev bs st rule: block_loop.induct) (auto split: option.splits)

lemma block_loop_returns: "block_loop prev bs st \<noteq> Hangs"
  by (induction prev bs st rule: block_loop.induct) (auto split: option.splits)

lemma summarise_returns: "summarise m st \<noteq> Hangs"
  by (simp add: summarise_def average_def go_bind_Hangs_iff Let_def)

lemma block_durations_return: "CalculateBlockDurations env blocks \<noteq> Hangs"
  by (auto simp: CalculateBlockDurations_def go_bind_Hangs_iff block_loop_returns summarise_returns split: list.splits)

lemma length_insert_float [simp]: "length (insert_float x xs) = Suc (length xs)"
  by (induction xs) auto

lemma length_Float64s [simp]: "length (Float64s xs) = length xs"
  by (induction xs) (auto simp: Float64s_def)

text \<open>The constant 0.95 as a float64, and the index it gives.\<close>

lemma rnd64_095: "\<bar>rnd64 (95 / 100) - 95 / 100\<bar> \<le> 1 / 2 ^ 54"
proof -
  have "flog2 (95 / 100) = - 1" by (rule flog2_unique) (simp_all add: power_int_def)
  then have "qexp 53 (Some (- 1074)) (95 / 100) = - 53" by (simp add: qexp_def)
  with rnd_error [of "95 / 100" 53 "Some (- 1074)"] show ?thesis by (simp add: power_int_def power_one_over)
qed

lemma index95_bounds:
  assumes n: "0 < n" "int n \<le> 2 ^ 40"
  shows "0 \<le> index95 n \<and> index95 n < int n \<and> 95 * int n \<le> 100 * (index95 n + 1) \<and> 100 * index95 n \<le> 95 * int n"
proof -
  let ?c = "rnd64 (95 / 100)" and ?n = "of_nat n :: rat"
  have c: "95 / 100 - 1 / 2 ^ 54 \<le> ?c" "?c \<le> 95 / 100 + 1 / 2 ^ 54" using rnd64_095 unfolding abs_le_iff by linarith+
  have "(of_int (int n) :: rat) \<le> of_int (2 ^ 40)" using n(2) by (simp only: of_int_le_iff)
  then have n': "1 \<le> ?n" "?n \<le> 2 ^ 40" using n(1) by simp_all
  have "\<bar>int n\<bar> < 2 ^ 53" using n(2) by simp
  then have fn: "float_of_int (int n) = Fin ?n" by (simp add: float_of_int_exact)
  have fc: "fl (95 / 100) = Fin ?c" by (rule fl_small [of _ 1]) simp_all
  have prod: "0 \<le> ?c * ?n" "?c * ?n \<le> ?n" using c n' by (simp_all add: mult_le_cancel_right1)
  have "\<bar>?c * ?n\<bar> \<le> of_int (2 ^ 40)" using prod order_trans [OF prod(2) n'(2)] by (simp only: abs_of_nonneg) simp
  then have fp: "fl (?c * ?n) = Fin (rnd64 (?c * ?n))" by (rule fl_small) simp
  define x where "x = ?c * ?n"
  define r where "r = rnd64 x"
  have x: "95 / 100 * ?n - ?n / 2 ^ 54 \<le> x" "x \<le> 95 / 100 * ?n + ?n / 2 ^ 54"
    using mult_right_mono [OF c(1), of ?n] mult_right_mono [OF c(2), of ?n] n' by (simp_all add: x_def algebra_simps)
  have near: "x - x / 2 ^ 53 \<le> r" "r \<le> x + x / 2 ^ 53"
  proof -
    have "\<bar>r - x\<bar> \<le> x / 2 ^ 53"
    proof (cases "n = 1")
      case True
      then have xc: "x = ?c" by (simp only: x_def of_nat_1 mult_1_right)
      have "rnd64 ?c = ?c" by (rule rnd_idem) simp
      then have "r = x" unfolding r_def xc .
      moreover have "0 \<le> x" using prod(1) by (simp only: x_def)
      ultimately show ?thesis by simp
    next
      case False
      then have "2 \<le> n" using n(1) by simp
      then have "of_nat 2 \<le> ?n" by (simp only: of_nat_le_iff)
      then have "1 \<le> x" using x(1) by simp
      then show ?thesis unfolding r_def by (rule rnd_relative) simp
    qed
    then show "x - x / 2 ^ 53 \<le> r" "r \<le> x + x / 2 ^ 53" unfolding abs_le_iff by linarith+
  qed
  have r: "0 \<le> r" "r < ?n" "95 * ?n - 1 < 100 * r" "100 * r < 95 * ?n + 1" using x near n' by simp_all
  have fl: "0 \<le> \<lfloor>r\<rfloor>" "\<lfloor>r\<rfloor> < int n" using r(1,2) by (simp_all add: floor_less_iff)
  have idx: "index95 n = \<lfloor>r\<rfloor>"
  proof -
    have "index95 n = int64_of_float (Fin r)" unfolding index95_def fc fn fmul.simps fp r_def x_def ..
    moreover have "r < 2 ^ 63" using r(2) n'(2) by simp
    ultimately show ?thesis using r(1) by (simp add: trunc_nonneg)
  qed
  have "of_int (95 * int n - 1) < (100 * of_int (\<lfloor>r\<rfloor> + 1) :: rat)" using r(3) by (simp; linarith)
  then have "of_int (95 * int n - 1) < (of_int (100 * (\<lfloor>r\<rfloor> + 1)) :: rat)" by simp
  then have "95 * int n - 1 < 100 * (\<lfloor>r\<rfloor> + 1)" by (simp only: of_int_less_iff)
  moreover have "(of_int (100 * \<lfloor>r\<rfloor>) :: rat) < of_int (95 * int n + 1)" using r(4) of_int_floor_le [of r] by (simp; linarith)
  then have "100 * \<lfloor>r\<rfloor> < 95 * int n + 1" by (simp only: of_int_less_iff)
  ultimately show ?thesis using fl idx by simp
qed

lemma summarise_Ret:
  assumes lens: "length (durations st) = n" "length (tpsValues st) = n" "length (gasUsedValues st) = n"
    "length (gasLimitValues st) = n" "length (blockBaseFeeValues st) = n" "length (blockSizeValues st) = n"
    and n: "int n \<le> 2 ^ 40"
  shows "(\<exists>r. summarise m st = Ret r) \<longleftrightarrow> 0 < n"
proof (cases "0 < n")
  case True
  have ne: "durations st \<noteq> []" "tpsValues st \<noteq> []" "gasUsedValues st \<noteq> []" "gasLimitValues st \<noteq> []"
    "blockBaseFeeValues st \<noteq> []" "blockSizeValues st \<noteq> []" using lens True by auto
  have idx: "0 \<le> index95 n" "index95 n < int n" using index95_bounds [OF True n] by simp_all
  show ?thesis using True ne idx lens by (simp add: summarise_def average_def go_index_def Let_def)
next
  case False
  then have "durations st = []" using lens(1) by simp
  then show ?thesis using False by (simp add: summarise_def average_def Let_def)
qed

lemma block_stats_panics:
  assumes "int (length blocks) \<le> 2 ^ 40"
  shows "(\<exists>msg. CalculateBlockDurations env blocks = Panic msg) \<longleftrightarrow>
    length blocks = 1 \<or> (\<exists>b \<in> set (tl blocks). bBaseFee b = None)"
proof (cases blocks)
  case Nil
  then show ?thesis by (simp add: CalculateBlockDurations_def)
next
  case (Cons b bs)
  show ?thesis
  proof (cases "block_loop b bs no_totals")
    case (Panic msg)
    then have "\<exists>b \<in> set bs. bBaseFee b = None" using block_loop_panics [of b bs no_totals] by auto
    then show ?thesis using Cons Panic by (auto simp: CalculateBlockDurations_def)
  next
    case (Ret st)
    then have fees: "\<forall>b \<in> set bs. bBaseFee b \<noteq> None" using block_loop_panics [of b bs no_totals] by auto
    have "(\<exists>r. summarise (length blocks) st = Ret r) \<longleftrightarrow> 0 < length bs"
      using block_loop_lengths [OF Ret, of 0] assms Cons by (intro summarise_Ret) (simp_all add: no_totals_def)
    then show ?thesis using Cons Ret fees
      by (cases "summarise (length blocks) st") (auto simp: CalculateBlockDurations_def summarise_returns split: prod.splits)
  qed (simp add: block_loop_returns)
qed

text \<open>
  C32. On up to \<open>2 ^ 40\<close> blocks \<open>CalculateBlockDurations\<close> panics exactly when there is just one block (the averages divide by the
  number of intervals) or a block after the first has no base fee; without blocks it returns an error. The index of the
  95th percentile is never out of range.
\<close>

theorem block_stats_panics_iff:
  assumes "int (length blocks) \<le> 2 ^ 40"
  shows "(\<exists>msg. CalculateBlockDurations env blocks = Panic msg) \<longleftrightarrow>
    length blocks = 1 \<or> (\<exists>b \<in> set (tl blocks). bBaseFee b = None)"
  by (rule block_stats_panics [OF assms])

subsection \<open>Percentiles and averages\<close>

lemma block_loop_columns:
  assumes "block_loop prev bs st = Ret st'"
  shows "gasUsedValues st' = gasUsedValues st @ map bGasUsed bs" "gasLimitValues st' = gasLimitValues st @ map bGasLimit bs"
    "blockBaseFeeValues st' = blockBaseFeeValues st @ map (\<lambda>b. uint64 (the (bBaseFee b))) bs"
    "blockSizeValues st' = blockSizeValues st @ map bSize bs"
  using assms
  by (induction prev bs st rule: block_loop.induct) (auto simp: add_block_def Let_def split: option.splits)

lemma uint64_add [simp]: "uint64 (uint64 a + b) = uint64 (a + b)" "uint64 (uint64 a) = uint64 a"
  by (simp_all add: uint64_def mod_simps)

lemma block_loop_totals:
  assumes "block_loop prev bs st = Ret st'"
  shows "uint64 (totalGasUsed st') = uint64 (totalGasUsed st + sum_list (map bGasUsed bs))"
    "uint64 (totalGasLimit st') = uint64 (totalGasLimit st + sum_list (map bGasLimit bs))"
    "uint64 (totalBaseFee st') = uint64 (totalBaseFee st + sum_list (map (\<lambda>b. uint64 (the (bBaseFee b))) bs))"
    "uint64 (totalSize st') = uint64 (totalSize st + sum_list (map bSize bs))"
    "bs \<noteq> [] \<Longrightarrow> uint64 (totalGasUsed st') = totalGasUsed st' \<and> uint64 (totalGasLimit st') = totalGasLimit st' \<and>
       uint64 (totalBaseFee st') = totalBaseFee st' \<and> uint64 (totalSize st') = totalSize st'"
  using assms
  by (induction prev bs st rule: block_loop.induct)
    (auto simp: add_block_def Let_def add.assoc split: option.splits elim!: block_loop.elims)

text \<open>
  What a 95th percentile and an average promise for a column of values: the percentile is one of the values, at least 95% of
  them are not above it and at most 95% of them are below it; the average is the exact quotient when the sum of the values fits in 64 bits.
\<close>

definition summary_of :: "int list \<Rightarrow> int \<Rightarrow> int \<Rightarrow> bool" where
  "summary_of vs p avg \<longleftrightarrow> p \<in> set vs \<and> 95 * int (length vs) \<le> 100 * int (length (filter (\<lambda>v. v \<le> p) vs)) \<and>
     100 * int (length (filter (\<lambda>v. v < p) vs)) \<le> 95 * int (length vs) \<and>
     (0 \<le> sum_list vs \<and> sum_list vs < 2 ^ 64 \<longrightarrow> avg = sum_list vs div int (length vs))"

lemma sorted_filter_le:
  assumes "i < length vs"
  shows "i + 1 \<le> length (filter (\<lambda>v. v \<le> sort vs ! i) (vs :: int list))"
proof -
  let ?s = "sort vs"
  have "\<forall>v \<in> set (take (Suc i) ?s). v \<le> ?s ! i"
    using assms by (auto simp: in_set_conv_nth intro!: sorted_nth_mono)
  then have "filter (\<lambda>v. v \<le> ?s ! i) (take (Suc i) ?s) = take (Suc i) ?s" by simp
  then have "Suc i \<le> length (filter (\<lambda>v. v \<le> ?s ! i) (take (Suc i) ?s @ drop (Suc i) ?s))"
    using assms unfolding filter_append by simp
  also have "\<dots> = length (filter (\<lambda>v. v \<le> ?s ! i) ?s)" by simp
  also have "\<dots> = length (filter (\<lambda>v. v \<le> ?s ! i) vs)" by (metis mset_filter mset_sort size_mset)
  finally show ?thesis by simp
qed

lemma sorted_filter_less:
  assumes "i < length vs"
  shows "length (filter (\<lambda>v. v < sort vs ! i) (vs :: int list)) \<le> i"
proof -
  let ?s = "sort vs"
  have "\<forall>v \<in> set (drop i ?s). \<not> v < ?s ! i"
    using assms by (auto simp: in_set_conv_nth not_less intro!: sorted_nth_mono)
  then have "filter (\<lambda>v. v < ?s ! i) (drop i ?s) = []" by simp
  then have "filter (\<lambda>v. v < ?s ! i) (take i ?s @ drop i ?s) = filter (\<lambda>v. v < ?s ! i) (take i ?s)" unfolding filter_append by simp
  then have "length (filter (\<lambda>v. v < ?s ! i) ?s) = length (filter (\<lambda>v. v < ?s ! i) (take i ?s))" by simp
  also have "\<dots> \<le> length (take i ?s)" by (rule length_filter_le)
  finally have "length (filter (\<lambda>v. v < ?s ! i) ?s) \<le> i" by simp
  then show ?thesis by (metis mset_filter mset_sort size_mset)
qed

lemma summary_of_column:
  assumes p: "go_index (sort vs) (index95 (length vs)) = Ret p" and a: "average tot vs = Ret avg"
    and tot: "tot = uint64 (sum_list vs)" and n: "int (length vs) \<le> 2 ^ 40"
  shows "summary_of vs p avg"
proof -
  let ?i = "nat (index95 (length vs))"
  have ne: "vs \<noteq> []" and avg: "avg = quo tot (int (length vs))" using a by (auto simp: average_def split: if_splits)
  have idx: "0 \<le> index95 (length vs)" "index95 (length vs) < int (length vs)" "95 * int (length vs) \<le> 100 * (index95 (length vs) + 1)"
    "100 * index95 (length vs) \<le> 95 * int (length vs)"
    using index95_bounds [of "length vs"] n ne by simp_all
  have i: "?i < length vs" "p = sort vs ! ?i" using p idx by (auto simp: go_index_def split: if_splits)
  have "p \<in> set vs" using i by (metis length_sort nth_mem set_sort)
  moreover have "95 * int (length vs) \<le> 100 * int (length (filter (\<lambda>v. v \<le> p) vs))"
    using sorted_filter_le [OF i(1)] idx(1,3) by (simp add: i(2))
  moreover have "100 * int (length (filter (\<lambda>v. v < p) vs)) \<le> 95 * int (length vs)"
    using sorted_filter_less [OF i(1)] idx(1,4) by (simp add: i(2))
  moreover have "avg = sum_list vs div int (length vs)" if "0 \<le> sum_list vs" "sum_list vs < 2 ^ 64"
    using that ne by (simp add: avg tot uint64_id quo_def sgn_if)
  ultimately show ?thesis by (simp add: summary_of_def)
qed


subsection \<open>An example\<close>

definition ex_block :: "int \<Rightarrow> Block" where
  "ex_block n = \<lparr>bNumber = n, bTime = 12 * n, bTransactions = 3, bGasUsed = 100 * n, bGasLimit = 30000, bBaseFee = Some 7, bSize = 50\<rparr>"

definition ex_stats_env :: stats_env where
  "ex_stats_env = \<lparr>bsHeader = Inr 10,
     bsBlockByNumber = (\<lambda>n. if n = 2 then Inl (ErrNew ''value overflows uint256'') else Inr (ex_block n)),
     bsOrder = rev, bsMarshalStats = (\<lambda>s. None), bsMarshalPerf = (\<lambda>p. None)\<rparr>"

lemma ex_fetch: "fetch_block ex_stats_env n = (if n = 2 then Skipped else Kept (ex_block n))"
  by (simp add: fetch_block_def ex_stats_env_def)

lemma ex_upto: "[1..4 :: int] = [1, 2, 3, 4]" by code_simp

theorem Stats_order_irrelevant_witness:
  "Stats ex_stats_env 1 (Some 5) = CalculateBlockDurations ex_stats_env [ex_block 1, ex_block 3, ex_block 4]"
proof -
  have node: "node_numbers ex_stats_env" and perm: "mset (bsOrder ex_stats_env ns) = mset ns" for ns
    by (auto simp: node_numbers_def ex_stats_env_def ex_block_def)
  have "Stats ex_stats_env 1 (Some 5) = CalculateBlockDurations ex_stats_env (interval_blocks ex_stats_env 1 5)"
    using Stats_order_irrelevant [OF node perm, of 1 5] by (simp add: ex_fetch)
  then show ?thesis by (simp add: interval_blocks_def ex_upto ex_fetch)
qed

theorem block_stats_panics_iff_witness:
  "(\<exists>msg. CalculateBlockDurations ex_stats_env [ex_block 1] = Panic msg) \<and>
   \<not> (\<exists>msg. CalculateBlockDurations ex_stats_env [ex_block 1, ex_block 3] = Panic msg)"
  using block_stats_panics_iff [of "[ex_block 1]" ex_stats_env] block_stats_panics_iff [of "[ex_block 1, ex_block 3]" ex_stats_env]
  by (simp add: ex_block_def)


end
