(* ===== verification/CLI.thy ===== *)
theory CLI
  imports Client_New Block_Stats
begin

text \<open>
  The command line tool (\<^verbatim>\<open>src/cmd/seth.go\<close>): the hook that runs before a command and creates the client, and the commands
  \<open>stats\<close>, \<open>gas\<close> and \<open>trace\<close>. Parsing of arguments is the CLI library's, so flags arrive as values; commands are found by their
  names and aliases as the library documents. The process environment is a function, the global client an option. The theorems:
  which spellings of a command have a client to work with, and what \<open>trace\<close> does to the configuration and to the chain.
\<close>

definition ErrNoNetwork :: string where
  "ErrNoNetwork = ''no network specified, use -n flag. Ex.: '' @ quote_char @ ''seth -n Geth stats'' @ quote_char @
     '' or -u and -c flags. Ex.: '' @ quote_char @ ''seth -u http://localhost:8545 -c 1337 stats'' @ quote_char"

definition CONFIG_FILE_ENV_VAR :: string where "CONFIG_FILE_ENV_VAR = ''SETH_CONFIG_PATH''"
definition ROOT_PRIVATE_KEY_ENV_VAR :: string where "ROOT_PRIVATE_KEY_ENV_VAR = ''SETH_ROOT_PRIVATE_KEY''"
definition NETWORK_ENV_VAR :: string where "NETWORK_ENV_VAR = ''SETH_NETWORK''"
definition URL_ENV_VAR :: string where "URL_ENV_VAR = ''SETH_URL''"
definition LogLevelEnvVar :: string where "LogLevelEnvVar = ''SETH_LOG_LEVEL''"

record 'pk cli_state =
  cliEnv :: "string \<Rightarrow> string"
  cliC :: "'pk Client option"

definition Setenv :: "string \<Rightarrow> string \<Rightarrow> 'pk cli_state \<Rightarrow> 'pk cli_state" where
  "Setenv k v st = st\<lparr>cliEnv := (cliEnv st)(k := v)\<rparr>"

record 'pk cli_env =
  clStart :: "'pk start_env"
  clClient :: "'pk client_env"
  clRetry :: "wait_state retry_do"
  clNewAddress :: "(string \<times> string) res go"
  clReadFile :: "string \<Rightarrow> string res"
  clTomlConfig :: "string \<Rightarrow> Config res"
  clAbsDir :: "string \<Rightarrow> string res"
  clJsonStrings :: "string \<Rightarrow> string list res"
  clLimiter :: "int \<Rightarrow> unit go"
  clStats :: stats_env
  clStatsLib :: stats_lib
  clFeeNode :: fee_node
  clMarshalPrices :: "int \<Rightarrow> int \<Rightarrow> int \<Rightarrow> goerr option"
  clTransactionByHash :: "string \<Rightarrow> Transaction res"
  clChainID :: "int res"
  clNoCommand :: "string list \<Rightarrow> goerr option"

text \<open>A command gives the new state, the transactions the client sent when it was created, the files written, and the error.\<close>

type_synonym 'pk cli_result = "('pk cli_state \<times> Transaction list \<times> artifact list \<times> goerr option) go"

subsection \<open>The hook before the command\<close>

definition create_client :: "'pk cli_env \<Rightarrow> 'pk cli_state \<Rightarrow> 'pk cli_result" where
  "create_client env st =
     go_bind (clNewAddress env) (\<lambda>r.
     case r of
       Inl err \<Rightarrow> Ret (st, [], [], Some err)
     | Inr (_, pk) \<Rightarrow>
         (let st1 = Setenv ROOT_PRIVATE_KEY_ENV_VAR pk st in
          case ReadConfig (cliEnv st1) (clReadFile env) (clTomlConfig env) (clAbsDir env) of
            Inl err \<Rightarrow> Ret (st1, [], [], Some err)
          | Inr cfg \<Rightarrow>
              go_bind (NewClientWithConfig (clStart env) cfg) (\<lambda>(txs, rc).
              Ret (case rc of
                  Inl err \<Rightarrow> (st1\<lparr>cliC := None\<rparr>, txs, [], Some err)
                | Inr c \<Rightarrow> (st1\<lparr>cliC := Some c\<rparr>, txs, [], None)))))"

definition Before :: "'pk cli_env \<Rightarrow> string \<Rightarrow> string \<Rightarrow> string list \<Rightarrow> 'pk cli_state \<Rightarrow> 'pk cli_result" where
  "Before env networkName url args st =
     (if networkName = [] \<and> url = [] then Ret (st, [], [], Some (ErrNew ErrNoNetwork))
      else
        (let st1 = (if networkName \<noteq> [] then Setenv NETWORK_ENV_VAR networkName st else st);
             st2 = (if url \<noteq> [] then Setenv URL_ENV_VAR url st1 else st1) in
         case args of
           [] \<Rightarrow> Ret (st2, [], [], None)
         | cmd # _ \<Rightarrow>
             if cmd = ''gas'' \<or> cmd = ''stats'' then create_client env st2 else Ret (st2, [], [], None)))"

subsection \<open>stats and gas\<close>

definition stats_action :: "'pk cli_env \<Rightarrow> 'pk cli_state \<Rightarrow> int \<Rightarrow> int \<Rightarrow> goerr option go" where
  "stats_action env st start_block end_block =
     (if start_block = 0 then Ret (Some (ErrNew ''at least start block should be defined, ex.: -s -10''))
      else if start_block > 0 \<and> end_block = 0 then
        Ret (Some (ErrNew ''invalid block params. Last N blocks example: -s -10, interval example: -s 10 -e 20''))
      else case cliC st of
        None \<Rightarrow> Panic ''nil pointer dereference''
      | Some c \<Rightarrow>
          go_bind (NewBlockStats (clLimiter env) (Cfg c)) (\<lambda>_.
          go_bind (Stats (clStats env) start_block (Some end_block)) (\<lambda>r.
          Ret (case r of Inl err \<Rightarrow> Some err | Inr _ \<Rightarrow> None))))"

definition gas_action :: "'pk cli_env \<Rightarrow> 'pk cli_state \<Rightarrow> int \<Rightarrow> rat \<Rightarrow> goerr option go" where
  "gas_action env st blocks tipPerc =
     (case cliC st of
        None \<Rightarrow> Panic ''nil pointer dereference''
      | Some c \<Rightarrow>
          Ret (case GasEstimator_Stats (clStatsLib env) (clFeeNode env) blocks tipPerc of
              Inl err \<Rightarrow> Some err
            | Inr s \<Rightarrow> clMarshalPrices env (int64 (SuggestedGasPrice s)) (int64 (SuggestedGasTipCap s))
                (int64 (int64 (SuggestedGasPrice s) + int64 (SuggestedGasTipCap s)))))"

subsection \<open>trace\<close>

definition OpenJsonFileAsStruct :: "(string \<Rightarrow> string res) \<Rightarrow> (string \<Rightarrow> 'a res) \<Rightarrow> string \<Rightarrow> 'a res" where
  "OpenJsonFileAsStruct openFile jsonUnmarshal path = res_bind (openFile path) jsonUnmarshal"

definition trace_transactions :: "'pk cli_env \<Rightarrow> string \<Rightarrow> string \<Rightarrow> string list res" where
  "trace_transactions env file txHashFlag =
     (if file = [] \<and> txHashFlag = [] then Inl (ErrNew ''no file or transaction hash specified, use -f or -t flags'')
      else if file \<noteq> [] \<and> txHashFlag \<noteq> [] then Inl (ErrNew ''both file and transaction hash specified, use only one'')
      else if file \<noteq> [] then OpenJsonFileAsStruct (clReadFile env) (clJsonStrings env) file
      else Inr [txHashFlag])"

definition read_trace_config :: "'pk cli_env \<Rightarrow> (string \<Rightarrow> string) \<Rightarrow> Config res" where
  "read_trace_config env getenv =
     (let cfgPath = getenv CONFIG_FILE_ENV_VAR in
      if cfgPath = [] then Inl (ErrNew ErrEmptyConfigPath)
      else
        res_bind (wrap_err ErrReadSethConfig (clReadFile env cfgPath)) (\<lambda>d.
        res_bind (wrap_err ErrUnmarshalSethConfig (clTomlConfig env d)) (\<lambda>cfg.
        res_bind (clAbsDir env cfgPath) (\<lambda>dir. Inr (cfg\<lparr>ConfigDir := dir\<rparr>)))))"

definition set_dial_timeout :: "Network \<Rightarrow> Network" where
  "set_dial_timeout n = n\<lparr>DialTimeout := (case DialTimeout n of None \<Rightarrow> Some \<lparr>D = DefaultDialTimeout\<rparr> | Some t \<Rightarrow> Some t)\<rparr>"

text \<open>Without a network name: the default network gets the empty name and the URL, and the node is dialled.\<close>

definition trace_by_url :: "'pk cli_env \<Rightarrow> string \<Rightarrow> Config \<Rightarrow> Config res go" where
  "trace_by_url env url cfg0 =
     (if url = [] then
        Ret (Inl (ErrNew ''network not selected, set SETH_NETWORK=... or SETH_URL=..., check TOML config for available networks''))
      else
        (let cfg = (case find (\<lambda>q. netName (net_store cfg0 ! q) = DefaultNetworkName) (cfgNetworks cfg0) of
                      Some q \<Rightarrow> upd_net q (\<lambda>n. n\<lparr>netName := [], URLs := [url]\<rparr>) (cfg0\<lparr>cfgNetwork := Some q\<rparr>)
                    | None \<Rightarrow> cfg0) in
         case cfgNetwork cfg of
           None \<Rightarrow> Ret (Inl (ErrNew ''default network not defined in the TOML file''))
         | Some p \<Rightarrow>
             (let cfg1 = upd_net p set_dial_timeout cfg in
              go_bind (FirstNetworkURL cfg1) (\<lambda>u.
              Ret (case seDial (clStart env) u of
                  Some err \<Rightarrow> Inl (ErrWrap (''failed to connect RPC client to '' @ quote_char @ u @ quote_char @ '' due to'') err)
                | None \<Rightarrow>
                    if netName (net_store cfg1 ! p) = DefaultNetworkName then
                      (case wrap_err ''failed to get chain ID'' (clChainID env) of
                         Inl err \<Rightarrow> Inl err
                       | Inr chainId \<Rightarrow> Inr (upd_net p (\<lambda>n. n\<lparr>netChainID := Itoa chainId\<rparr>) cfg1))
                    else Inr cfg1)))))"

definition trace_by_name :: "string \<Rightarrow> Config \<Rightarrow> Config res" where
  "trace_by_name snet cfg0 =
     (let cfg = select_by_name snet cfg0 in
      if cfgNetwork cfg = None then Inl (ErrNew (''network '' @ snet @ '' not defined in the TOML file'')) else Inr cfg)"

definition trace_config :: "'pk cli_env \<Rightarrow> (string \<Rightarrow> string) \<Rightarrow> Config res go" where
  "trace_config env getenv =
     (case read_trace_config env getenv of
        Inl err \<Rightarrow> Ret (Inl err)
      | Inr cfg0 \<Rightarrow>
          go_bind (let snet = getenv NETWORK_ENV_VAR in
                   if snet \<noteq> [] then Ret (trace_by_name snet cfg0) else trace_by_url env (getenv URL_ENV_VAR) cfg0) (\<lambda>r.
          Ret (case r of
              Inl err \<Rightarrow> Inl err
            | Inr cfg \<Rightarrow> Inr (upd_net (the (cfgNetwork cfg)) set_dial_timeout
                (cfg\<lparr>EphemeralAddrs := Some 0, TracingLevel := TracingLevel_All\<rparr>)))))"

text \<open>The loop over the transactions: errors of \<open>Decode\<close> are only logged.\<close>

fun trace_loop :: "'pk cli_env \<Rightarrow> 'pk Client \<Rightarrow> string list \<Rightarrow> (artifact list \<times> goerr option) go" where
  "trace_loop env c [] = Ret ([], None)"
| "trace_loop env c (h # hs) =
     go_bind (client_net c) (\<lambda>n.
     if TxnTimeout n = None then Panic ''nil pointer dereference''
     else case clTransactionByHash env h of
       Inl err \<Rightarrow> Ret ([], Some (ErrWrap (''failed to get transaction '' @ h) err))
     | Inr tx \<Rightarrow>
         go_bind (Decode (clRetry env) (clClient env) c (Some tx) None) (\<lambda>(c', files, decoded, err).
         go_bind (trace_loop env c' hs) (\<lambda>(files', err'). Ret (files @ files', err'))))"

definition trace_action :: "'pk cli_env \<Rightarrow> 'pk cli_state \<Rightarrow> string \<Rightarrow> string \<Rightarrow> 'pk cli_result" where
  "trace_action env st file txHashFlag =
     (case trace_transactions env file txHashFlag of
        Inl err \<Rightarrow> Ret (st, [], [], Some err)
      | Inr transactions \<Rightarrow>
          (let st1 = Setenv LogLevelEnvVar ''debug'' st in
           go_bind (trace_config env (cliEnv st1)) (\<lambda>r.
           case r of
             Inl err \<Rightarrow> Ret (st1, [], [], Some err)
           | Inr cfg \<Rightarrow>
               go_bind (NewClientWithConfig (clStart env) cfg) (\<lambda>(txs, rc).
               case rc of
                 Inl err \<Rightarrow> Ret (st1, txs, [], Some err)
               | Inr client \<Rightarrow>
                   go_bind (trace_loop env client transactions) (\<lambda>(files, err). Ret (st1, txs, files, err))))))"

subsection \<open>The application\<close>

datatype command = StatsCmd | GasCmd | TraceCmd

definition command_named :: "string \<Rightarrow> command option" where
  "command_named name =
     (if name = ''stats'' \<or> name = ''s'' then Some StatsCmd
      else if name = ''gas'' \<or> name = ''g'' then Some GasCmd
      else if name = ''trace'' \<or> name = ''t'' then Some TraceCmd
      else None)"

record cli_flags =
  flNetworkName :: string
  flUrl :: string
  flStartBlock :: int
  flEndBlock :: int
  flBlocks :: int
  flTipPercentile :: rat
  flFile :: string
  flTxHash :: string

definition run_command :: "'pk cli_env \<Rightarrow> cli_flags \<Rightarrow> string list \<Rightarrow> 'pk cli_state \<Rightarrow> 'pk cli_result" where
  "run_command env flags args st =
     (case args of
        [] \<Rightarrow> Ret (st, [], [], clNoCommand env args)
      | cmd # _ \<Rightarrow>
          (case command_named cmd of
             None \<Rightarrow> Ret (st, [], [], clNoCommand env args)
           | Some StatsCmd \<Rightarrow> go_bind (stats_action env st (flStartBlock flags) (flEndBlock flags)) (\<lambda>err. Ret (st, [], [], err))
           | Some GasCmd \<Rightarrow> go_bind (gas_action env st (flBlocks flags) (flTipPercentile flags)) (\<lambda>err. Ret (st, [], [], err))
           | Some TraceCmd \<Rightarrow> trace_action env st (flFile flags) (flTxHash flags)))"

definition RunCLI :: "'pk cli_env \<Rightarrow> cli_flags \<Rightarrow> string list \<Rightarrow> 'pk cli_state \<Rightarrow> 'pk cli_result" where
  "RunCLI env flags args st =
     go_bind (Before env (flNetworkName flags) (flUrl flags) args st) (\<lambda>(st1, txs, files, err).
     case err of
       Some e \<Rightarrow> Ret (st1, txs, files, Some e)
     | None \<Rightarrow> go_bind (run_command env flags args st1) (\<lambda>(st2, txs', files', err'). Ret (st2, txs @ txs', files @ files', err')))"

subsection \<open>Which spellings have a client\<close>

lemma create_client_sets:
  "create_client env st = Ret (st', txs, files, None) \<Longrightarrow> cliC st' \<noteq> None"
  by (auto simp: create_client_def go_bind_Ret_iff case_sum_eq Let_def)

lemma Before_client:
  assumes "Before env nn url (cmd # rest) st = Ret (st', txs, files, None)"
  shows "if cmd = ''gas'' \<or> cmd = ''stats'' then cliC st' \<noteq> None else cliC st' = cliC st"
  using assms create_client_sets [of env _ st' txs files]
  by (auto simp: Before_def Let_def Setenv_def split: if_splits)

text \<open>
  The commands \<open>stats\<close> and \<open>gas\<close> run with the client that the hook created when they are called by their full names. Called by
  their documented aliases \<open>s\<close> and \<open>g\<close>, the hook creates no client, and the command ends in a nil dereference: \<open>g\<close> always, \<open>s\<close>
  as soon as its block numbers are accepted.
\<close>

theorem cli_aliases_panic:
  assumes st: "cliC st = None" and net: "flNetworkName flags \<noteq> [] \<or> flUrl flags \<noteq> []"
  shows "RunCLI env flags (''g'' # rest) st = Panic ''nil pointer dereference'' \<and>
    (flStartBlock flags < 0 \<or> 0 < flStartBlock flags \<and> flEndBlock flags \<noteq> 0 \<longrightarrow>
       RunCLI env flags (''s'' # rest) st = Panic ''nil pointer dereference'') \<and>
    (\<forall>cmd st1 txs files. cmd \<in> {''gas'', ''stats''} \<longrightarrow>
       Before env (flNetworkName flags) (flUrl flags) (cmd # rest) st = Ret (st1, txs, files, None) \<longrightarrow> cliC st1 \<noteq> None)"
proof (intro conjI allI impI)
  show "RunCLI env flags (''g'' # rest) st = Panic ''nil pointer dereference''"
    using st net by (auto simp: RunCLI_def Before_def Let_def run_command_def command_named_def gas_action_def Setenv_def)
  show "RunCLI env flags (''s'' # rest) st = Panic ''nil pointer dereference''"
    if "flStartBlock flags < 0 \<or> 0 < flStartBlock flags \<and> flEndBlock flags \<noteq> 0"
    using st net that by (auto simp: RunCLI_def Before_def Let_def run_command_def command_named_def stats_action_def Setenv_def)
  show "cliC st1 \<noteq> None" if "cmd \<in> {''gas'', ''stats''}"
    "Before env (flNetworkName flags) (flUrl flags) (cmd # rest) st = Ret (st1, txs, files, None)" for cmd st1 txs files
    using Before_client [OF that(2)] that(1) by auto
qed

subsection \<open>Tracing does not spend\<close>

lemma trace_config_ok:
  assumes "trace_config env getenv = Ret (Inr cfg)"
  shows "EphemeralAddrs cfg = Some 0 \<and> TracingLevel cfg = TracingLevel_All \<and> (\<exists>p. cfgNetwork cfg = Some p)"
proof -
  obtain cfg0 where c0: "read_trace_config env getenv = Inr cfg0"
    using assms by (cases "read_trace_config env getenv") (auto simp: trace_config_def)
  obtain cfg1 where r: "(let snet = getenv NETWORK_ENV_VAR in
      if snet \<noteq> [] then Ret (trace_by_name snet cfg0) else trace_by_url env (getenv URL_ENV_VAR) cfg0) = Ret (Inr cfg1)"
    and cfg: "cfg = upd_net (the (cfgNetwork cfg1)) set_dial_timeout (cfg1\<lparr>EphemeralAddrs := Some 0, TracingLevel := TracingLevel_All\<rparr>)"
    using assms c0 by (auto simp: trace_config_def go_bind_Ret_iff case_sum_eq)
  have "\<exists>p. cfgNetwork cfg1 = Some p"
  proof (cases "getenv NETWORK_ENV_VAR = []")
    case False
    then show ?thesis using r by (auto simp: trace_by_name_def Let_def split: if_splits)
  next
    case True
    then show ?thesis using r
      by (auto simp: trace_by_url_def Let_def go_bind_Ret_iff case_sum_eq case_option_eq split: if_splits option.splits)
  qed
  then show ?thesis by (auto simp: cfg upd_net_def)
qed

text \<open>
  A \<open>trace\<close> that ends without error has configured full tracing and no ephemeral keys, whatever the TOML file says. So the
  client it creates moves no funds: the only transaction that can be sent is the health check, and only when the file asks for
  it. The client of the other commands is left alone.
\<close>

theorem trace_moves_no_funds:
  assumes run: "trace_action env st file txHashFlag = Ret (st', txs, files, None)"
  shows "\<exists>cfg c. trace_config env ((cliEnv st)(LogLevelEnvVar := ''debug'')) = Ret (Inr cfg) \<and>
    NewClientWithConfig (clStart env) cfg = Ret (txs, Inr c) \<and> TracingLevel cfg = TracingLevel_All \<and>
    EphemeralAddrs cfg = Some 0 \<and> length txs \<le> (if CheckRpcHealthOnStart cfg then 1 else 0) \<and> cliC st' = cliC st"
proof -
  obtain hs where hs: "trace_transactions env file txHashFlag = Inr hs"
    using run by (cases "trace_transactions env file txHashFlag") (auto simp: trace_action_def)
  obtain cfg where cfg: "trace_config env ((cliEnv st)(LogLevelEnvVar := ''debug'')) = Ret (Inr cfg)"
    using run hs by (auto simp: trace_action_def go_bind_Ret_iff case_sum_eq Let_def Setenv_def)
  obtain c where c: "NewClientWithConfig (clStart env) cfg = Ret (txs, Inr c)" "cliC st' = cliC st"
    using run hs cfg by (auto simp: trace_action_def go_bind_Ret_iff case_sum_eq Let_def Setenv_def)
  have ok: "EphemeralAddrs cfg = Some 0" "TracingLevel cfg = TracingLevel_All" using trace_config_ok [OF cfg] by auto
  show ?thesis using cfg c ok no_ephemeral_transfers [OF c(1) ok(1)] by (intro exI [of _ cfg] exI [of _ c]) simp
qed

subsection \<open>An example\<close>

definition ex_cli_env :: "nat cli_env" where
  "ex_cli_env = \<lparr>clStart = ex_start_env, clClient = ex_client_env, clRetry = ex_retry, clNewAddress = Ret (Inr ([], ''k'')),
     clReadFile = (\<lambda>f. Inr ''toml''), clTomlConfig = (\<lambda>s. Inr ex_start_cfg), clAbsDir = (\<lambda>p. Inr []), clJsonStrings = (\<lambda>s. Inr []),
     clLimiter = (\<lambda>r. Ret ()), clStats = ex_stats_env, clStatsLib = feStats ex_start_fees, clFeeNode = ex_start_node,
     clMarshalPrices = (\<lambda>a b c. None), clTransactionByHash = (\<lambda>h. Inr ex_tx), clChainID = Inr 1, clNoCommand = (\<lambda>a. None)\<rparr>"

definition ex_cli_state :: "nat cli_state" where
  "ex_cli_state = \<lparr>cliEnv = (\<lambda>k. if k = ''SETH_CONFIG_PATH'' then ''seth.toml'' else if k = ''SETH_NETWORK'' then ''Default'' else []), cliC = None\<rparr>"

definition ex_flags :: cli_flags where
  "ex_flags = \<lparr>flNetworkName = ''Default'', flUrl = [], flStartBlock = - 10, flEndBlock = 0, flBlocks = 5, flTipPercentile = 50,
     flFile = ''txs.json'', flTxHash = []\<rparr>"

theorem cli_aliases_panic_witness:
  "RunCLI ex_cli_env ex_flags [''g''] ex_cli_state = Panic ''nil pointer dereference'' \<and>
   RunCLI ex_cli_env ex_flags [''s''] ex_cli_state = Panic ''nil pointer dereference''"
  using cli_aliases_panic [of ex_cli_state ex_flags ex_cli_env "[]"] by (simp add: ex_cli_state_def ex_flags_def)

lemma ex_trace_run:
  "case trace_action ex_cli_env ex_cli_state ''txs.json'' [] of Ret (st, txs, files, None) \<Rightarrow> True | _ \<Rightarrow> False"
  by code_simp

theorem trace_moves_no_funds_witness:
  "\<exists>st txs files. trace_action ex_cli_env ex_cli_state ''txs.json'' [] = Ret (st, txs, files, None) \<and> length txs \<le> 1"
proof -
  obtain st txs files where run: "trace_action ex_cli_env ex_cli_state ''txs.json'' [] = Ret (st, txs, files, None)"
    using ex_trace_run by (auto split: go.splits prod.splits option.splits)
  then show ?thesis using trace_moves_no_funds [OF run] by (intro exI [of _ st] exI [of _ txs] exI [of _ files]) (auto split: if_splits)
qed

end
