(* ===== verification/Spec2Isabelle.thy ===== *)
theory Spec2Isabelle
  imports Header_Cache ABI_Finder Config Durations Client_Builder Nonce_Manager Congestion Gas_Bump Gas_Adjuster
    Pragma_Version Ether_Units Funds Decode Dot_Graph Tracing Tx_Options Client_Ops Transfers Client_New Test_Utils Artifacts Logging
    Debug_Contracts Block_Stats CLI
begin

text \<open>
  \<^bold>\<open>Seth, an Ethereum client for tests.\<close>

  Seth wraps go-ethereum's client. A configuration (from a TOML file or the fluent builder) selects
  a network and its keys; \<open>NewClientWithConfig\<close> connects, synchronises the nonces, checks the node,
  funds ephemeral keys and puts the parts together. The client then prepares transactions (nonce, gas price
  or fees from the gas adjuster), deploys contracts, waits for receipts while bumping the gas price,
  decodes transactions and revert reasons with the ABIs it knows, and traces them into lists of decoded
  calls and a graph. The command line tool runs block statistics, gas statistics and traces on top of it.
  The parts share the address book of contracts (the client, its ABI finder and its tracer), the nonce manager
  (transaction options, transfers, start-up) and the header cache (the goroutines of the congestion metric).

  \<^bold>\<open>Theories, in the order they build on each other.\<close>
  \<^item> \<open>Seth_Prelude\<close>, \<open>Geth_Types\<close>, \<open>Go_Float\<close>: what Go and its standard library give the code. Machine
    integers are \<open>int\<close> with \<open>int64\<close> and \<open>uint64\<close> written where the code converts or can overflow; \<open>'a go\<close> is a
    result, a panic or a call that never returns (\<open>Hangs\<close>); errors are values of the datatype \<open>goerr\<close>; \<open>float64\<close> and \<open>big.Float\<close> are rationals
    with their rounding. The data of go-ethereum (ABIs, headers, transactions) are records of the fields read.
  \<^item> \<open>Header_Cache\<close> (\<^verbatim>\<open>src/header_cache.go\<close>): \<open>LFUHeaderCache\<close> with \<open>LFU_Get\<close>, \<open>LFU_Set\<close> and \<open>evict\<close>.
    Shown: the invariant of every run, and that the evicted entry does not depend on the map's iteration order.
  \<^item> \<open>Contract_Map\<close> (\<^verbatim>\<open>src/contract_map.go\<close>, \<^verbatim>\<open>src/contract_store.go\<close>) and \<open>ABI_Finder\<close>
    (\<^verbatim>\<open>src/abi_finder.go\<close>): stores by name and the search for the ABI of a selector. Shown: soundness,
    completeness and stability of the search, for every iteration order of the store.
  \<^item> \<open>Config\<close> (\<^verbatim>\<open>src/config.go\<close>, \<open>ValidateConfig\<close> of \<^verbatim>\<open>src/client.go\<close>, durations of \<^verbatim>\<open>src/util.go\<close>)
    and \<open>Client_Builder\<close> (\<^verbatim>\<open>src/client_builder.go\<close>). Networks are kept in a store with indices as pointers, because the selected network and the
    list of networks share pointers. Shown: which network is selected, exactly what validation changes, and that
    builder calls refine a plain record update.
  \<^item> \<open>Durations\<close> (\<^verbatim>\<open>src/util.go\<close>): \<open>time.ParseDuration\<close> and the JSON form of a duration. Shown: every form reads back as
    the same duration.
  \<^item> \<open>Nonce_Manager\<close> (\<^verbatim>\<open>src/nonce.go\<close>): nonces, the channels of synced keys (the current one and those that \<open>UpdateNonces\<close> replaced), the
    calls of \<open>anySyncedKey\<close> in progress and the goroutines that return keys, as an \<open>inductive\<close> step relation in which \<open>UpdateNonces\<close> and
    \<open>NextNonce\<close> can happen at any moment. Replacing a channel and filling it is one step, and so is appending to the client's errors.
    Shown: only keys other than the root key are handed out in any run; in a calm run, where the channel is replaced only while
    it is unused, no key is lent twice; a refresh while a key is lent breaks this.
  \<^item> \<open>Congestion\<close>, \<open>Congestion_Run\<close> and \<open>Gas_Adjuster\<close> (\<^verbatim>\<open>src/gas_adjuster.go\<close>, \<^verbatim>\<open>src/gas.go\<close>): the concurrent header requests
    as a step relation over all interleavings and as a function of the schedule (\<open>congestion_run\<close>, equal to the relation by soundness
    and completeness lemmas), both metrics, fee history and fee suggestions with the header cache threaded through. Shown: when
    the metric is an error, returns or hangs, for every strategy, schedule and cache; that its newest-first value and the suggested
    fees depend neither on the schedule nor on the cache; that a cached block can be evicted before it is read; the metrics lie between 0 and 1, and the suggested fees cover what they must.
  \<^item> \<open>Gas_Bump\<close> (\<^verbatim>\<open>src/retry.go\<close>): strategies and replacement transactions. Shown: bounds of every bump, what
    a replacement keeps, and that it outbids the original.
  \<^item> \<open>Pragma_Version\<close>, \<open>Ether_Units\<close> (\<^verbatim>\<open>src/util.go\<close>): round trips, and exactly when the version decoder panics.
  \<^item> \<open>Funds\<close> (\<^verbatim>\<open>src/util.go\<close>, \<^verbatim>\<open>src/keyfile.go\<close>, \<^verbatim>\<open>src/client_helpers.go\<close>, transfers of \<^verbatim>\<open>src/client.go\<close>): splitting
    funds, transfers, JSON array files. Shown: the exact shares of a split, within the balance unless the 64-bit fee wraps around, and a split
    that overdraws when it does; a transfer uses exactly the next nonce.
  \<^item> \<open>Transfers\<close> (\<^verbatim>\<open>src/keyfile.go\<close>): transfers in the goroutines of an error group, in any order, and \<open>ReturnFunds\<close> on top of them.
    Shown: it empties every key but the root key up to the fee.
  \<^item> \<open>Decode\<close> (\<^verbatim>\<open>src/decode.go\<close>): inputs, outputs, events, custom errors and revert reasons. The data of a node's error are absent, a string
    or of another type. Shown: exactly what is reported for a reverted transaction, panics included, which indexed fields are decoded.
  \<^item> \<open>Dot_Graph\<close> (\<^verbatim>\<open>src/dot_graph.go\<close>) and \<open>Tracing\<close> (\<^verbatim>\<open>src/tracing.go\<close>): the call tree, its selectors and decoded
    calls, the missing calls, and the graph as a list of operations on the graph library, with the file it is written to. Shown: the
    breadth-first search is correct, decodable traces are listed in pre-order followed by exactly the missing calls, and what the
    first call that cannot be decoded does to the next one.
  \<^item> \<open>Tx_Options\<close>, \<open>Client_Ops\<close>, \<open>Client_New\<close> (\<^verbatim>\<open>src/client.go\<close>): the client's state, transaction options,
    \<open>Decode\<close>, \<open>DeployContract\<close>, and start-up with its health check and funding. Shown: exactly which errors of the preparation reach the client and the options (\<open>preparation_errors\<close>), options without
    error are complete, \<open>Decode\<close> reports on the transaction or its own replacement, a deployed contract is found,
    a new client is ready for use, and what a start-up may send.
  \<^item> \<open>Test_Utils\<close> (\<^verbatim>\<open>src/test_utils/client.go\<close>): clients with new funded keys, built from two start-ups and the funding between them.
    Shown: which keys the client has and that the address generated with each was funded once.
  \<^item> \<open>Artifacts\<close> (\<open>saveAsJson\<close> of \<^verbatim>\<open>src/util.go\<close>, its callers in \<^verbatim>\<open>src/tracing.go\<close> and \<^verbatim>\<open>src/client.go\<close>, the graph files of \<^verbatim>\<open>src/dot_graph.go\<close>): a file system of
    directories and files. Shown: which files hold what after \<open>SaveDecodedCallsAsJson\<close> and after \<open>Decode\<close> (the JSON file and the graph), and that
    no other file changes.
  \<^item> \<open>Logging\<close> (\<^verbatim>\<open>src/log.go\<close>, \<^verbatim>\<open>src/http_logging_transport.go\<close>, the printing functions) and \<open>Debug_Contracts\<close> (the debug deployments of
    \<^verbatim>\<open>src/util.go\<close>). Shown: logging does not change an answer, and which lines report a revert.
  \<^item> \<open>Block_Stats\<close> (\<^verbatim>\<open>src/block_stats.go\<close>) and \<open>CLI\<close> (\<^verbatim>\<open>src/cmd/seth.go\<close>): statistics independent of the order of the
    goroutines, exact panic conditions, percentiles; the hook and the three commands.

  \<^bold>\<open>Interfaces.\<close> The locale \<open>named_store\<close> (a lookup after additions) is interpreted on both halves of the contract
  store and on the address book; \<open>block_cache\<close> (a cache that agrees with the chain keeps agreeing) on the header
  cache, for the congestion metric; \<open>lending_pool\<close> (items are available or lent, never both, and none is lost silently) on the calm
  steps of the nonce manager; \<open>rounding\<close> on the rounding of \<open>float64\<close> and of \<open>big.Float\<close>; \<open>codec\<close> (a written form reads back) on
  hexadecimal text and on durations.

  \<^bold>\<open>Outside code.\<close> The node, the signer, the ABI decoder, key derivation, TOML, the graph library, the
  statistics library, the retry library's schedule and the file system are parameters: fields of environment
  records or arguments. Their documented behaviour appears as a named hypothesis where a theorem needs it
  (\<open>node_of_chain\<close>, \<open>log10_spec\<close>, \<open>signs_transfer\<close>, \<open>saving_allowed\<close> and the like), each shown satisfiable by the theorem's witness.

  \<^bold>\<open>Bounds.\<close> No definition uses fuel: loops are structural or have a termination proof, and waiting loops range over
  the list of events they observe. Hypotheses bound nonces and block numbers by \<open>2 ^ 63\<close> (the range of
  \<open>int64\<close>), the number of cache operations likewise, amounts by \<open>2 ^ 53\<close> where \<open>float64\<close> must be exact, wei by
  \<open>2 ^ 200\<close> for the exact round trip at 236 bits, and the blocks of one statistics run by \<open>2 ^ 40\<close>.

  \<^bold>\<open>Not modelled.\<close> Log lines other than those of the printing functions: they change no state and are not returned. \<open>main\<close>
  (\<^verbatim>\<open>src/cmd/seth/seth.go\<close>), which only calls \<open>RunCLI\<close>. The bindings under \<^verbatim>\<open>src/contracts/bind\<close>, which abigen generates from the test contracts:
  every method passes its name and arguments to go-ethereum's bound contract, so apart from the two deployment functions there is no
  logic of this program in them. \<open>traceCallTracer\<close> and \<open>traceOpCodesTracer\<close> are one request to the node each: the answer to
  the first is an argument of \<open>TraceGethTX\<close>, the answer to the second is stored and never read. A call
  trace that is JSON null is not considered.
\<close>

end
